(* ===== verification/Prelude.thy ===== *)
theory Prelude
  imports Main "HOL-Library.Word" "HOL-Library.Multiset" "HOL-Library.Sublist"
begin

text \<open>
  What every theory of the development shares: the types the Go code and the SQL schema are
  written with, the collections the proofs use, and a few facts about lists, permutations and
  signed words.

  Types. A \<open>uuid.UUID\<close> is 16 bytes, a \<^typ>\<open>128 word\<close>. A timestamp is a number of
  microseconds since the epoch (the resolution of \<open>timestamptz\<close>). A \<open>json.RawMessage\<close> or
  \<open>[]byte\<close> that may be nil is an optional byte list, \<^term>\<open>None\<close> for nil. Sized
  integers keep their width; the Go \<open>int\<close> of a request field, which no code does arithmetic
  on, is an \<^typ>\<open>int\<close>. A call that may fail returns a sum, the error on the left.
\<close>

type_synonym uuid = "128 word"
type_synonym time = int
type_synonym bytes = "8 word list"
type_synonym rawmsg = "bytes option"
type_synonym int16 = "16 word"
type_synonym int32 = "32 word"
type_synonym int64 = "64 word"

named_theorems dao_defs \<open>unfolds the data-access operations\<close>
named_theorems core_defs \<open>unfolds the services of the core layer\<close>
named_theorems handler_defs \<open>unfolds the gRPC handlers\<close>
named_theorems row_simps \<open>what the SET list of each statement does to a row\<close>

section \<open>Lists\<close>

lemma map_if_filter:
  "filter p (map (\<lambda>r. if q r then f r else r) xs) =
     map (\<lambda>r. if q r then f r else r) (filter (\<lambda>r. if q r then p (f r) else p r) xs)"
  by (induction xs) auto

lemma distinct_map_update:
  assumes "\<And>r. k (f r) = k r" and "distinct (map k xs)"
  shows "distinct (map k (map (\<lambda>r. if q r then f r else r) xs))"
proof -
  have "map k (map (\<lambda>r. if q r then f r else r) xs) = map k xs"
    using assms(1) by (induction xs) simp_all
  then show ?thesis using assms(2) by metis
qed

lemma distinct_map_filter_key:
  "distinct (map k xs) \<Longrightarrow> distinct (map k (filter p xs))"
  by (induction xs) auto

lemma distinct_key_unique:
  "distinct (map k xs) \<Longrightarrow> r \<in> set xs \<Longrightarrow> s \<in> set xs \<Longrightarrow> k r = k s \<Longrightarrow> r = s"
  by (simp add: distinct_map inj_on_def)

lemma filter_key_singleton:
  "distinct (map k xs) \<Longrightarrow> r \<in> set xs \<Longrightarrow> p r \<Longrightarrow> (\<And>s. p s \<Longrightarrow> k s = k r)
     \<Longrightarrow> filter p xs = [r]"
proof (induction xs)
  case Nil
  then show ?case by simp
next
  case (Cons a xs)
  show ?case
  proof (cases "a = r")
    case True
    have "\<not> p s" if "s \<in> set xs" for s
    proof
      assume "p s"
      then have "k s = k a" using Cons.prems(4) True by blast
      then show False using Cons.prems(1) that by (metis distinct.simps(2) imageI list.set_map list.simps(9))
    qed
    then show ?thesis using True Cons.prems(3) by (simp add: filter_empty_conv)
  next
    case False
    with Cons.prems(2) have r: "r \<in> set xs" by simp
    have "\<not> p a"
    proof
      assume "p a"
      then have "k a = k r" using Cons.prems(4) by blast
      then show False using Cons.prems(1) r by (metis distinct.simps(2) imageI list.set_map list.simps(9))
    qed
    moreover have "filter p xs = [r]"
    proof (rule Cons.IH)
      show "distinct (map k xs)" using Cons.prems(1) by simp
    qed (rule r, rule Cons.prems(3), rule Cons.prems(4))
    ultimately show ?thesis by simp
  qed
qed

lemma sorted_take_drop_le:
  assumes "sorted (map f xs)" "x \<in> set (take n xs)" "y \<in> set xs" "y \<notin> set (take n xs)"
  shows "f x \<le> f y"
proof -
  have le: "sorted (map f (us @ vs)) \<Longrightarrow> u \<in> set us \<Longrightarrow> v \<in> set vs \<Longrightarrow> f u \<le> f v" for us vs u v
    by (auto simp: sorted_append)
  have split: "set xs = set (take n xs) \<union> set (drop n xs)"
    by (metis append_take_drop_id set_append)
  then have "y \<in> set (drop n xs)" using assms(3,4) by blast
  then show ?thesis using le [of "take n xs" "drop n xs" x y] assms(1,2) by simp
qed

section \<open>Row orders: what a query planner may return\<close>

text \<open>
  SQL leaves the order of rows open wherever no \<open>ORDER BY\<close> fixes it. \<open>permuted ord xs\<close> is the
  order a planner \<open>ord\<close> puts \<open>xs\<close> in; a function that is no permutation of \<open>xs\<close> has no say, so
  \<open>permuted\<close> ranges over exactly the permutations.
\<close>

definition permuted :: "('a list \<Rightarrow> 'a list) \<Rightarrow> 'a list \<Rightarrow> 'a list" where
  "permuted ord xs = (if mset (ord xs) = mset xs then ord xs else xs)"

lemma mset_permuted [simp]: "mset (permuted ord xs) = mset xs"
  by (simp add: permuted_def)

lemma set_permuted [simp]: "set (permuted ord xs) = set xs"
  by (metis mset_permuted set_mset_mset)

lemma length_permuted [simp]: "length (permuted ord xs) = length xs"
  by (metis mset_permuted size_mset)

lemma permuted_Nil [simp]: "permuted ord [] = []"
  by (simp add: permuted_def)

lemma permuted_singleton [simp]: "permuted ord [r] = [r]"
  by (simp add: permuted_def)

lemma permuted_same [simp]: "permuted (\<lambda>rs. rs) xs = xs"
  by (simp add: permuted_def)

lemma distinct_permuted [simp]: "distinct (map k (permuted ord xs)) = distinct (map k xs)"
proof (rule mset_eq_imp_distinct_iff)
  show "mset (map k (permuted ord xs)) = mset (map k xs)" by simp
qed

section \<open>Signed words\<close>

text \<open>Signed comparisons are read through \<^const>\<open>sint\<close>.\<close>

lemma sless_sint: "(a::'a::len word) <s b \<longleftrightarrow> sint a < sint b"
  by (rule word_sless_alt)

lemma sle_sint: "(a::'a::len word) \<le>s b \<longleftrightarrow> sint a \<le> sint b"
  by (rule word_sle_eq)

lemma sint16_range: "- 32768 \<le> sint (a :: int16)" "sint (a :: int16) < 32768"
  using sint_ge [of a] sint_lt [of a] by simp_all

lemma sint16_succ:
  assumes "sint (a :: int16) < 32767"
  shows "sint (a + 1) = sint a + 1"
proof -
  have "- 32768 \<le> sint a" by (rule sint16_range)
  then show ?thesis
    using assms by (simp add: signed_take_bit_int_eq_self_iff sint_word_ariths(1))
qed

end
