(* ===== verification/GoErrors.thy ===== *)
theory GoErrors
  imports Prelude
begin

text \<open>
  Go error values. A sentinel is a package-level \<open>errors.New\<close>; \<open>fmt.Errorf("\<dots>: %w", err)\<close>
  wraps one error under a message and \<open>errors.Join\<close> collects several. \<open>errors.Is\<close> walks that
  tree. The sentinels are those of \<open>internal/core\<close>, \<open>internal/dao\<close> and \<open>database/sql\<close>, plus
  one for each kind of failure the code never tests for (the driver, the server, the
  transactor, the validator, the id generator, a runtime panic).
\<close>

datatype sentinel =
    ErrInvalidRequest
  | ErrJobNotFound
  | ErrJobConflict
  | ErrJobNotClaimed
  | DaoErrJobGetNotFound
  | DaoErrJobGetByIDNotFound
  | DaoErrJobSettleNotClaimed
  | DaoErrJobRequeueNotClaimed
  | SqlErrNoRows
  | ValidationErrors
  | NewV7Failure
  | NoHandle
  | DriverFailure
  | TransactorFailure
  | PgError string
  | GoPanic string

datatype gerr =
    Sentinel sentinel
  | Wrapf string gerr
  | Joined "gerr list"

fun errors_Is :: "gerr \<Rightarrow> sentinel \<Rightarrow> bool" where
  "errors_Is (Sentinel s) target \<longleftrightarrow> s = target"
| "errors_Is (Wrapf msg e) target \<longleftrightarrow> errors_Is e target"
| "errors_Is (Joined es) target \<longleftrightarrow> list_ex (\<lambda>e. errors_Is e target) es"

text \<open>
  The sentinels the core layer promises its callers, and an error that carries none of them: all a
  caller can tell of it is that something failed.
\<close>

definition service_sentinels :: "sentinel list" where
  "service_sentinels = [ErrInvalidRequest, ErrJobNotFound, ErrJobConflict, ErrJobNotClaimed]"

definition unnamed_error :: "gerr \<Rightarrow> bool" where
  "unnamed_error err \<longleftrightarrow> list_all (\<lambda>s. \<not> errors_Is err s) service_sentinels"

lemma unnamed_error_simps [simp]:
  "unnamed_error (Sentinel s) \<longleftrightarrow> s \<notin> set service_sentinels"
  "unnamed_error (Wrapf m err) \<longleftrightarrow> unnamed_error err"
  "unnamed_error (Joined es) \<longleftrightarrow> list_all unnamed_error es"
  by (auto simp: unnamed_error_def list_all_iff list_ex_iff)

lemma service_sentinels_simps [simp]:
  "set service_sentinels = {ErrInvalidRequest, ErrJobNotFound, ErrJobConflict, ErrJobNotClaimed}"
  by (simp add: service_sentinels_def)

text \<open>
  The signature every \<open>Exec\<close> has: a context, a request, and a result or an error. The state it
  works on is threaded through. An interface with this one method is a function of this type, and
  a value behind it is any such function.
\<close>

type_synonym ('c, 'q, 'r, 's) exec = "'c \<Rightarrow> 'q \<Rightarrow> 's \<Rightarrow> (gerr + 'r) \<times> 's"

lemma unnamed_errorD: "unnamed_error err \<Longrightarrow> s \<in> set service_sentinels \<Longrightarrow> \<not> errors_Is err s"
  by (auto simp: unnamed_error_def list_all_iff)

end
