(* ===== verification/External.thy ===== *)
theory External
  imports GoErrors
begin

text \<open>
  The code outside the repository that the service calls, as one record of parameters:
  the go-playground validator's tags, google/uuid, the path of a JSON argument through the
  bun driver into a \<open>jsonb\<close> column, and the location pgdriver gives scanned timestamps.
  Every definition that calls one of them takes the record; what the code relies on is a
  named predicate over it, which states the documented behaviour and nothing else.
\<close>

record ext =
  x_required_string :: "string \<Rightarrow> bool"
  x_required_uuid :: "uuid \<Rightarrow> bool"
  x_gt :: "int \<Rightarrow> int \<Rightarrow> bool"
  x_gte :: "int \<Rightarrow> int \<Rightarrow> bool"
  x_json_arg :: "rawmsg \<Rightarrow> rawmsg option"
  x_uuid_Parse :: "string \<Rightarrow> uuid option"
  x_uuid_String :: "uuid \<Rightarrow> string"
  x_zone :: "time \<Rightarrow> int"

text \<open>
  \<open>required\<close> rejects the zero value of a string or an array; \<open>gt\<close> and \<open>gte\<close> compare a
  number with the tag's parameter (first argument: the parameter).
\<close>

definition validator_documented :: "ext \<Rightarrow> bool" where
  "validator_documented x \<longleftrightarrow>
     (\<forall>s. x_required_string x s \<longleftrightarrow> s \<noteq> []) \<and>
     (\<forall>u. x_required_uuid x u \<longleftrightarrow> u \<noteq> 0) \<and>
     (\<forall>p v. x_gt x p v \<longleftrightarrow> p < v) \<and>
     (\<forall>p v. x_gte x p v \<longleftrightarrow> p \<le> v)"

lemma validator_documentedD [simp]:
  assumes "validator_documented x"
  shows "x_required_string x s \<longleftrightarrow> s \<noteq> []"
    and "x_required_uuid x u \<longleftrightarrow> u \<noteq> 0"
    and "x_gt x p v \<longleftrightarrow> p < v"
    and "x_gte x p v \<longleftrightarrow> p \<le> v"
  using assms by (simp_all add: validator_documented_def)

text \<open>
  \<open>x_json_arg\<close> is what a \<open>json.RawMessage\<close> argument becomes in a \<open>jsonb\<close> column and what
  the column scans back as: \<^term>\<open>None\<close> if the server rejects the text as invalid JSON,
  otherwise the scanned value, nil for a SQL NULL. A nil argument binds NULL, a valid text
  never becomes NULL, and a stored value read back and bound again is unchanged.
\<close>

definition json_documented :: "ext \<Rightarrow> bool" where
  "json_documented x \<longleftrightarrow>
     x_json_arg x None = Some None \<and>
     (\<forall>b y. x_json_arg x (Some b) = Some y \<longrightarrow> y \<noteq> None) \<and>
     (\<forall>a y. x_json_arg x a = Some y \<longrightarrow> x_json_arg x y = Some y)"

lemma json_documented_nil [simp]: "json_documented x \<Longrightarrow> x_json_arg x None = Some None"
  by (simp add: json_documented_def)

lemma json_documented_some: "json_documented x \<Longrightarrow> x_json_arg x (Some b) \<noteq> Some None"
  by (auto simp: json_documented_def)

text \<open>\<open>uuid.Parse\<close> accepts what \<open>UUID.String\<close> prints.\<close>

definition uuid_documented :: "ext \<Rightarrow> bool" where
  "uuid_documented x \<longleftrightarrow> (\<forall>u. x_uuid_Parse x (x_uuid_String x u) = Some u)"

lemma uuid_documentedD [simp]:
  "uuid_documented x \<Longrightarrow> x_uuid_Parse x (x_uuid_String x u) = Some u"
  by (simp add: uuid_documented_def)

text \<open>
  One concrete instance, for the witnesses: the documented validator, every JSON text taken as
  it is, and identifiers printed as unary numbers read back by length.
\<close>

definition ext0 :: ext where
  "ext0 = \<lparr> x_required_string = (\<lambda>s. s \<noteq> []), x_required_uuid = (\<lambda>u. u \<noteq> 0),
            x_gt = (<), x_gte = (\<le>), x_json_arg = (\<lambda>a. Some a),
            x_uuid_Parse = (\<lambda>s. if length s < 2 ^ 128 then Some (word_of_nat (length s)) else None),
            x_uuid_String = (\<lambda>u. replicate (unat u) CHR ''x''),
            x_zone = (\<lambda>_. 0) \<rparr>"

lemma ext0_validator [simp]: "validator_documented ext0"
  by (simp add: validator_documented_def ext0_def)

lemma ext0_json [simp]: "json_documented ext0"
  by (simp add: json_documented_def ext0_def)

lemma ext0_uuid [simp]: "uuid_documented ext0"
proof -
  have "unat (u :: uuid) < 2 ^ 128" for u
    using unsigned_less [of u] by simp
  then show ?thesis by (simp add: uuid_documented_def ext0_def)
qed

lemma ext0_json_arg [simp]: "x_json_arg ext0 a = Some a"
  by (simp add: ext0_def)

lemma ext0_parse:
  "length s < 2 ^ 128 \<Longrightarrow> x_uuid_Parse ext0 s = Some (word_of_nat (length s))"
  by (simp add: ext0_def)

end
