(* ===== verification/JobsTable.thy ===== *)
theory JobsTable
  imports External
begin

text \<open>
  The \<open>jobs\<close> table: the status enum, the row (which is also the Go struct \<open>dao.Job\<close> it is
  scanned into), the constraints of the migration, and how a statement runs against it.

  A table is a list of rows in no particular order. A statement is atomic: it maps a table to
  a result and the next table, and an error leaves the table as it was. What the database
  decides beyond the SQL text is in the record \<^emph>\<open>stmt\<close>: whether the context holds a handle,
  whether the exchange with the server fails (before or after the statement took effect), the
  readings of \<open>clock_timestamp()\<close> (the k-th reading made for a row), which rows another
  transaction has locked, and the order of rows where SQL leaves it open.
\<close>

section \<open>The status enum\<close>

datatype JobStatus =
    JobStatusPending
  | JobStatusClaimed
  | JobStatusSucceeded
  | JobStatusFailed
  | JobStatusAbandoned
  | JobStatusCancelled

text \<open>A database enum is ordered as its values are listed in \<open>CREATE TYPE\<close>.\<close>

fun enum_position :: "JobStatus \<Rightarrow> nat" where
  "enum_position JobStatusPending = 0"
| "enum_position JobStatusClaimed = 1"
| "enum_position JobStatusSucceeded = 2"
| "enum_position JobStatusFailed = 3"
| "enum_position JobStatusAbandoned = 4"
| "enum_position JobStatusCancelled = 5"

lemma enum_position_inj: "enum_position a = enum_position b \<Longrightarrow> a = b"
  by (cases a; cases b) simp_all

instantiation JobStatus :: linorder
begin

definition less_eq_JobStatus :: "JobStatus \<Rightarrow> JobStatus \<Rightarrow> bool" where
  "less_eq_JobStatus a b \<longleftrightarrow> enum_position a \<le> enum_position b"

definition less_JobStatus :: "JobStatus \<Rightarrow> JobStatus \<Rightarrow> bool" where
  "less_JobStatus a b \<longleftrightarrow> enum_position a < enum_position b"

instance
  by standard (auto simp: less_eq_JobStatus_def less_JobStatus_def intro: enum_position_inj)

end

text \<open>The terminal statuses, as the constraint \<open>jobs_terminal_fields\<close> lists them.\<close>

definition terminal_statuses :: "JobStatus list" where
  "terminal_statuses =
     [JobStatusSucceeded, JobStatusFailed, JobStatusAbandoned, JobStatusCancelled]"

definition sql_terminal :: "JobStatus \<Rightarrow> bool" where
  "sql_terminal s \<longleftrightarrow> s \<in> set terminal_statuses"

lemma sql_terminal_simps [simp]:
  "\<not> sql_terminal JobStatusPending" "\<not> sql_terminal JobStatusClaimed"
  "sql_terminal JobStatusSucceeded" "sql_terminal JobStatusFailed"
  "sql_terminal JobStatusAbandoned" "sql_terminal JobStatusCancelled"
  by (simp_all add: sql_terminal_def terminal_statuses_def)

lemma sql_terminal_order: "sql_terminal s \<longleftrightarrow> JobStatusClaimed < s"
  by (cases s) (simp_all add: less_JobStatus_def)

section \<open>The row\<close>

record job =
  job_ID :: uuid
  job_Kind :: string
  job_Payload :: rawmsg
  job_OwnerID :: uuid
  job_IdempotencyKey :: "string option"
  job_RequestFingerprint :: bytes
  job_Status :: JobStatus
  job_Attempt :: int16
  job_MaxAttempts :: int16
  job_RunAt :: time
  job_LeaseExpiresAt :: "time option"
  job_ClaimedBy :: "string option"
  job_CancelRequestedAt :: "time option"
  job_ProviderCallID :: "string option"
  job_Result :: rawmsg
  job_Error :: rawmsg
  job_CreatedAt :: time
  job_UpdatedAt :: time
  job_SettledAt :: "time option"
  job_ExpiresAt :: "time option"

type_synonym table = "job list"

section \<open>Constraints of the migration\<close>

text \<open>
  The column checks and the two table constraints, in the order of the migration; a CHECK on a
  NULL value passes. The result is the constraint a row violates, if any.
\<close>

definition row_violation :: "job \<Rightarrow> gerr option" where
  "row_violation r =
     (if job_Kind r = '''' then Some (Sentinel (PgError ''jobs_kind_check''))
      else if job_Payload r = None then Some (Sentinel (PgError ''payload not null''))
      else if job_IdempotencyKey r = Some '''' then Some (Sentinel (PgError ''jobs_idempotency_key_check''))
      else if sint (job_Attempt r) < 0 then Some (Sentinel (PgError ''jobs_attempt_check''))
      else if sint (job_MaxAttempts r) < 1 then Some (Sentinel (PgError ''jobs_max_attempts_check''))
      else if (job_Status r = JobStatusClaimed) \<noteq> (job_LeaseExpiresAt r \<noteq> None)
      then Some (Sentinel (PgError ''jobs_lease_matches_status''))
      else if sql_terminal (job_Status r) \<noteq> (job_SettledAt r \<noteq> None \<and> job_ExpiresAt r \<noteq> None)
      then Some (Sentinel (PgError ''jobs_terminal_fields''))
      else None)"

definition row_ok :: "job \<Rightarrow> bool" where
  "row_ok r \<longleftrightarrow> row_violation r = None"

lemma row_ok_iff:
  "row_ok r \<longleftrightarrow>
     job_Kind r \<noteq> '''' \<and> job_Payload r \<noteq> None \<and> job_IdempotencyKey r \<noteq> Some '''' \<and>
     0 \<le> sint (job_Attempt r) \<and> 1 \<le> sint (job_MaxAttempts r) \<and>
     (job_Status r = JobStatusClaimed) = (job_LeaseExpiresAt r \<noteq> None) \<and>
     sql_terminal (job_Status r) = (job_SettledAt r \<noteq> None \<and> job_ExpiresAt r \<noteq> None)"
  unfolding row_ok_def row_violation_def
  by (simp only: if_splits option.distinct not_less linorder_not_le split: if_split) auto

text \<open>The partial unique index on \<open>(owner_id, kind, idempotency_key)\<close>.\<close>

definition idempotency_tuple :: "job \<Rightarrow> uuid \<times> string \<times> string option" where
  "idempotency_tuple r = (job_OwnerID r, job_Kind r, job_IdempotencyKey r)"

definition keyed :: "job \<Rightarrow> bool" where
  "keyed r \<longleftrightarrow> job_IdempotencyKey r \<noteq> None"

definition table_wf :: "table \<Rightarrow> bool" where
  "table_wf t \<longleftrightarrow>
     distinct (map job_ID t) \<and> list_all row_ok t \<and>
     distinct (map idempotency_tuple (filter keyed t))"

lemma table_wf_ids: "table_wf t \<Longrightarrow> distinct (map job_ID t)"
  by (simp add: table_wf_def)

lemma table_wf_row: "table_wf t \<Longrightarrow> r \<in> set t \<Longrightarrow> row_ok r"
  by (simp add: table_wf_def list_all_iff)

lemma table_wf_Nil [simp]: "table_wf []"
  by (simp add: table_wf_def)

lemma table_wf_unique:
  "table_wf t \<Longrightarrow> r \<in> set t \<Longrightarrow> s \<in> set t \<Longrightarrow> job_ID r = job_ID s \<Longrightarrow> r = s"
  by (rule distinct_key_unique [OF table_wf_ids])

lemma table_wf_unique_key:
  assumes "table_wf t" "r \<in> set t" "s \<in> set t" "keyed r" "idempotency_tuple r = idempotency_tuple s"
  shows "r = s"
proof -
  from assms(4,5) have "keyed s" by (auto simp: keyed_def idempotency_tuple_def)
  with assms show ?thesis
    by (intro distinct_key_unique [of idempotency_tuple "filter keyed t"]) (simp_all add: table_wf_def)
qed

text \<open>The row with a given identifier.\<close>

definition find_job :: "table \<Rightarrow> uuid \<Rightarrow> job option" where
  "find_job t u = find (\<lambda>r. job_ID r = u) t"

lemma find_job_SomeD: "find_job t u = Some r \<Longrightarrow> r \<in> set t \<and> job_ID r = u"
  by (auto simp: find_job_def find_Some_iff)

lemma find_job_NoneD: "find_job t u = None \<Longrightarrow> r \<in> set t \<Longrightarrow> job_ID r \<noteq> u"
  by (auto simp: find_job_def find_None_iff)

lemma find_job_eq: "table_wf t \<Longrightarrow> r \<in> set t \<Longrightarrow> find_job t (job_ID r) = Some r"
  by (metis find_job_NoneD find_job_SomeD option.exhaust table_wf_unique)

end
