(* ===== verification/Statements.thy ===== *)
theory Statements
  imports JobsTable
begin

text \<open>
  Running a statement: the database's own choices as a record, the exchange between the bun
  driver and the server, and the UPDATE \<open>\<dots>\<close> RETURNING form every write but the insert uses.
  Two interfaces collect what the writes promise: \<open>guarded_update\<close>, for one UPDATE on one
  table, and \<open>table_op\<close>, for an operation on tables.
\<close>

section \<open>What the database decides\<close>

text \<open>
  \<open>RequestLost\<close>: the statement never took effect. \<open>ReplyLost\<close>: it took effect, and the
  caller sees an error all the same.
\<close>

datatype delivery = Delivered | RequestLost | ReplyLost

record stmt =
  st_handle :: bool
  st_delivery :: delivery
  st_clock :: "uuid \<Rightarrow> nat \<Rightarrow> time"
  st_locked :: "uuid \<Rightarrow> bool"
  st_order :: "job list \<Rightarrow> job list"

text \<open>An undisturbed statement at one instant, nothing locked, rows in table order.\<close>

definition stmt_at :: "time \<Rightarrow> stmt" where
  "stmt_at now = \<lparr> st_handle = True, st_delivery = Delivered, st_clock = (\<lambda>_ _. now),
                   st_locked = (\<lambda>_. False), st_order = (\<lambda>rs. rs) \<rparr>"

lemma stmt_at_simps [simp]:
  "st_handle (stmt_at now)" "st_delivery (stmt_at now) = Delivered"
  "st_clock (stmt_at now) u k = now" "\<not> st_locked (stmt_at now) u" "st_order (stmt_at now) rs = rs"
  by (simp_all add: stmt_at_def)

text \<open>A statement that has a handle and whose exchange with the server completes.\<close>

definition undisturbed :: "stmt \<Rightarrow> bool" where
  "undisturbed e \<longleftrightarrow> st_handle e \<and> st_delivery e = Delivered"

lemma undisturbedD: "undisturbed e \<Longrightarrow> st_handle e" "undisturbed e \<Longrightarrow> st_delivery e = Delivered"
  by (simp_all add: undisturbed_def)

lemma undisturbed_stmt_at [simp]: "undisturbed (stmt_at now)"
  by (simp add: undisturbed_def)

text \<open>
  \<open>clock_timestamp()\<close> never runs backwards: the readings a statement makes for one row grow,
  and all of them fall between the statement's start and its end.
\<close>

definition clock_within :: "stmt \<Rightarrow> time \<Rightarrow> time \<Rightarrow> bool" where
  "clock_within e t0 t1 \<longleftrightarrow>
     (\<forall>u k. t0 \<le> st_clock e u k \<and> st_clock e u k \<le> t1) \<and>
     (\<forall>u k l. k \<le> l \<longrightarrow> st_clock e u k \<le> st_clock e u l)"

lemma clock_within_bounds:
  "clock_within e t0 t1 \<Longrightarrow> t0 \<le> st_clock e u k" "clock_within e t0 t1 \<Longrightarrow> st_clock e u k \<le> t1"
  "clock_within e t0 t1 \<Longrightarrow> k \<le> l \<Longrightarrow> st_clock e u k \<le> st_clock e u l"
  by (simp_all add: clock_within_def)

lemma clock_within_stmt_at [simp]: "clock_within (stmt_at now) now now"
  by (simp add: clock_within_def)

text \<open>\<open>make_interval\<close> in microseconds; the session runs in UTC, so a day is 86400 seconds.\<close>

definition interval_secs :: "int \<Rightarrow> time" where
  "interval_secs n = n * 1000000"

definition interval_days :: "int \<Rightarrow> time" where
  "interval_days n = n * 86400000000"

lemma interval_mono [simp]:
  "0 \<le> n \<Longrightarrow> 0 \<le> interval_secs n" "0 \<le> n \<Longrightarrow> 0 \<le> interval_days n"
  "0 < n \<Longrightarrow> 0 < interval_secs n" "0 < n \<Longrightarrow> 0 < interval_days n"
  by (simp_all add: interval_secs_def interval_days_def)

section \<open>From the driver to the data-access object\<close>

type_synonym 'a outcome = "(gerr + 'a) \<times> table"
type_synonym statement = "table \<Rightarrow> job list outcome"

text \<open>\<open>tx.NewRaw(query, args)\<close>: the exchange with the server.\<close>

definition NewRaw :: "stmt \<Rightarrow> (table \<Rightarrow> 'r outcome) \<Rightarrow> table \<Rightarrow> 'r outcome" where
  "NewRaw e q t =
     (case st_delivery e of
        Delivered \<Rightarrow> q t
      | RequestLost \<Rightarrow> (Inl (Sentinel DriverFailure), t)
      | ReplyLost \<Rightarrow> (Inl (Sentinel DriverFailure), snd (q t)))"

text \<open>\<open>Scan\<close> into a struct needs a row; into a slice it takes however many there are.\<close>

fun scan_one :: "job list \<Rightarrow> gerr + job" where
  "scan_one [] = Inl (Sentinel SqlErrNoRows)"
| "scan_one (r # _) = Inr r"

definition scan_all :: "'r \<Rightarrow> gerr + 'r" where
  "scan_all rows = Inr rows"

text \<open>
  The body every \<open>Exec\<close> of \<open>internal/dao\<close> has: fetch the handle from the context, run the
  query, scan it, translate the error (\<open>on_err\<close>), wrap it.
\<close>

definition dao_query ::
  "stmt \<Rightarrow> (gerr \<Rightarrow> gerr) \<Rightarrow> ('r \<Rightarrow> gerr + 'a) \<Rightarrow> (table \<Rightarrow> 'r outcome) \<Rightarrow> table \<Rightarrow> 'a outcome" where
  "dao_query e on_err scan q t =
     (if \<not> st_handle e then (Inl (Wrapf ''get transaction'' (Sentinel NoHandle)), t)
      else
        let (res, t') = NewRaw e q t;
            scanned = (case res of Inl err \<Rightarrow> Inl err | Inr rows \<Rightarrow> scan rows)
        in (case scanned of
              Inl err \<Rightarrow> (Inl (Wrapf ''execute query'' (on_err err)), t')
            | Inr v \<Rightarrow> (Inr v, t')))"

text \<open>\<open>if errors.Is(err, sql.ErrNoRows) { err = errors.Join(err, sentinel) }\<close>\<close>

definition join_no_rows :: "sentinel \<Rightarrow> gerr \<Rightarrow> gerr" where
  "join_no_rows s err =
     (if errors_Is err SqlErrNoRows then Joined [err, Sentinel s] else err)"

text \<open>Whatever happens, the table a query leaves is the old one or the statement's.\<close>

lemma dao_query_table: "snd (dao_query e f scan q t) \<in> {t, snd (q t)}"
  by (auto simp: dao_query_def NewRaw_def Let_def
      split: delivery.splits sum.splits prod.splits)

lemma dao_query_delivered:
  assumes "st_handle e" "st_delivery e = Delivered"
  shows "dao_query e f scan q t =
    (case fst (q t) of
       Inl err \<Rightarrow> (Inl (Wrapf ''execute query'' (f err)), snd (q t))
     | Inr rows \<Rightarrow> (case scan rows of
           Inl err \<Rightarrow> (Inl (Wrapf ''execute query'' (f err)), snd (q t))
         | Inr v \<Rightarrow> (Inr v, snd (q t))))"
  using assms by (auto simp: dao_query_def NewRaw_def Let_def split: sum.splits prod.splits)

lemma dao_query_Inr:
  assumes "dao_query e f scan q t = (Inr v, t')"
  obtains rows where "q t = (Inr rows, t')" "scan rows = Inr v"
  using assms by (auto simp: dao_query_def NewRaw_def Let_def
      split: if_splits delivery.splits sum.splits prod.splits)

lemma scan_one_Inr: "scan_one rows = Inr r \<Longrightarrow> \<exists>rest. rows = r # rest"
  by (cases rows) simp_all

lemma scan_all_Inr [simp]: "scan_all rows = Inr v \<longleftrightarrow> v = rows"
  by (auto simp: scan_all_def)

section \<open>UPDATE \<dots> RETURNING\<close>

text \<open>
  The rows \<open>p\<close> selects are replaced by \<open>g\<close> of them. \<open>arith\<close> is an error the SET list itself
  raises on a row; a new row that violates a constraint is an error too. An error undoes the
  whole statement. RETURNING yields the new rows, in an order the database chooses.
\<close>

definition update_errors :: "(job \<Rightarrow> bool) \<Rightarrow> (job \<Rightarrow> gerr option) \<Rightarrow> (job \<Rightarrow> job) \<Rightarrow> table \<Rightarrow> gerr list" where
  "update_errors p arith g t =
     List.map_filter (\<lambda>r. case arith r of Some err \<Rightarrow> Some err | None \<Rightarrow> row_violation (g r))
       (filter p t)"

definition update_rows :: "(job \<Rightarrow> bool) \<Rightarrow> (job \<Rightarrow> job) \<Rightarrow> table \<Rightarrow> table" where
  "update_rows p g t = map (\<lambda>r. if p r then g r else r) t"

definition update_returning ::
  "(job list \<Rightarrow> job list) \<Rightarrow> (job \<Rightarrow> bool) \<Rightarrow> (job \<Rightarrow> gerr option) \<Rightarrow> (job \<Rightarrow> job) \<Rightarrow> statement" where
  "update_returning ord p arith g t =
     (case update_errors p arith g t of
        err # _ \<Rightarrow> (Inl err, t)
      | [] \<Rightarrow> (Inr (permuted ord (map g (filter p t))), update_rows p g t))"

lemma update_errors_Nil_iff:
  "update_errors p arith g t = [] \<longleftrightarrow> (\<forall>r\<in>set t. p r \<longrightarrow> arith r = None \<and> row_ok (g r))"
  by (induction t) (auto simp: update_errors_def map_filter_simps row_ok_def split: option.splits)

lemma update_returning_ok:
  assumes "\<And>r. r \<in> set t \<Longrightarrow> p r \<Longrightarrow> arith r = None \<and> row_ok (g r)"
  shows "update_returning ord p arith g t = (Inr (permuted ord (map g (filter p t))), update_rows p g t)"
proof -
  have "update_errors p arith g t = []" using assms by (simp add: update_errors_Nil_iff)
  then show ?thesis by (simp add: update_returning_def)
qed

lemma update_returning_cases:
  obtains (failed) err where "update_returning ord p arith g t = (Inl err, t)"
  | (updated) "\<forall>r\<in>set t. p r \<longrightarrow> arith r = None \<and> row_ok (g r)"
      "update_returning ord p arith g t = (Inr (permuted ord (map g (filter p t))), update_rows p g t)"
proof (cases "update_errors p arith g t")
  case Nil
  then have "update_returning ord p arith g t = (Inr (permuted ord (map g (filter p t))), update_rows p g t)"
    by (simp add: update_returning_def)
  moreover have "\<forall>r\<in>set t. p r \<longrightarrow> arith r = None \<and> row_ok (g r)"
    using Nil by (simp add: update_errors_Nil_iff)
  ultimately show ?thesis by (rule updated [rotated])
next
  case (Cons err rest)
  then show ?thesis using failed by (simp add: update_returning_def)
qed

lemma update_returning_InrD:
  assumes "update_returning ord p arith g t = (Inr rows, t')"
  shows "rows = permuted ord (map g (filter p t)) \<and> t' = update_rows p g t \<and>
    (\<forall>r\<in>set t. p r \<longrightarrow> arith r = None \<and> row_ok (g r))"
  by (rule update_returning_cases [of ord p arith g t]) (use assms in auto)

lemma update_returning_InlD:
  assumes "update_returning ord p arith g t = (Inl err, t')"
  shows "t' = t"
  by (rule update_returning_cases [of ord p arith g t]) (use assms in auto)

lemma update_rows_ids: "(\<And>r. job_ID (g r) = job_ID r) \<Longrightarrow> map job_ID (update_rows p g t) = map job_ID t"
  by (induction t) (simp_all add: update_rows_def)

lemma update_rows_none: "(\<And>r. r \<in> set t \<Longrightarrow> \<not> p r) \<Longrightarrow> update_rows p g t = t"
  unfolding update_rows_def by (induction t) auto

lemma update_rows_member:
  "r' \<in> set (update_rows p g t) \<longleftrightarrow> (\<exists>r\<in>set t. r' = (if p r then g r else r))"
  by (auto simp: update_rows_def)

lemma find_job_update:
  assumes "\<And>r. job_ID (g r) = job_ID r"
  shows "find_job (update_rows p g t) u =
    map_option (\<lambda>r. if p r then g r else r) (find_job t u)"
  using assms by (induction t) (simp_all add: find_job_def update_rows_def)

section \<open>How rows and tables may change\<close>

text \<open>
  The columns no statement writes after the insert, and what one step may do to a row: the
  attempt count never falls, and a terminal row never changes. A table may gain rows and lose
  none (only the purge deletes).
\<close>

definition same_identity :: "job \<Rightarrow> job \<Rightarrow> bool" where
  "same_identity r s \<longleftrightarrow>
     job_ID r = job_ID s \<and> job_Kind r = job_Kind s \<and> job_Payload r = job_Payload s \<and>
     job_OwnerID r = job_OwnerID s \<and> job_IdempotencyKey r = job_IdempotencyKey s \<and>
     job_RequestFingerprint r = job_RequestFingerprint s \<and>
     job_MaxAttempts r = job_MaxAttempts s \<and> job_CreatedAt r = job_CreatedAt s \<and>
     job_ProviderCallID r = job_ProviderCallID s \<and>
     job_CancelRequestedAt r = job_CancelRequestedAt s"

definition job_evolves :: "job \<Rightarrow> job \<Rightarrow> bool" where
  "job_evolves r s \<longleftrightarrow>
     same_identity s r \<and> sint (job_Attempt r) \<le> sint (job_Attempt s) \<and>
     (sql_terminal (job_Status r) \<longrightarrow> s = r)"

definition table_evolves :: "table \<Rightarrow> table \<Rightarrow> bool" where
  "table_evolves t t' \<longleftrightarrow> (\<forall>r\<in>set t. \<exists>s\<in>set t'. job_evolves r s)"

lemma same_identity_refl [simp]: "same_identity r r"
  by (simp add: same_identity_def)

lemma same_identity_ID: "same_identity r s \<Longrightarrow> job_ID r = job_ID s"
  by (simp add: same_identity_def)

lemma job_evolves_refl [simp]: "job_evolves r r"
  by (simp add: job_evolves_def)

lemma job_evolves_trans: "job_evolves r s \<Longrightarrow> job_evolves s u \<Longrightarrow> job_evolves r u"
  by (auto simp: job_evolves_def same_identity_def)

lemma table_evolves_refl [simp]: "table_evolves t t"
  unfolding table_evolves_def using job_evolves_refl by blast

lemma table_evolves_trans: "table_evolves t u \<Longrightarrow> table_evolves u v \<Longrightarrow> table_evolves t v"
  unfolding table_evolves_def using job_evolves_trans by blast

lemma table_evolves_find:
  assumes "table_evolves t t'" "table_wf t'" "find_job t u = Some r"
  shows "\<exists>s. find_job t' u = Some s \<and> job_evolves r s"
proof -
  from assms(3) have r: "r \<in> set t" "job_ID r = u" by (simp_all add: find_job_SomeD)
  with assms(1) obtain s where s: "s \<in> set t'" "job_evolves r s"
    by (auto simp: table_evolves_def)
  then have "job_ID s = u" using r by (simp add: job_evolves_def same_identity_def)
  then show ?thesis using s find_job_eq [OF assms(2) s(1)] by auto
qed

lemma table_evolves_terminal:
  assumes "table_evolves t t'" "table_wf t'" "find_job t u = Some r" "sql_terminal (job_Status r)"
  shows "find_job t' u = Some r"
  using table_evolves_find [OF assms(1-3)] assms(4) by (auto simp: job_evolves_def)

section \<open>The contract of an operation on tables\<close>

text \<open>
  What a client of the table may count on, whatever operation runs: a well-formed table stays
  well-formed, and every row evolves. The facts about sequences of operations are proved once,
  from the contract.
\<close>

locale table_op =
  fixes oper :: "table \<Rightarrow> 'a outcome"
  assumes keeps_wf: "table_wf t \<Longrightarrow> table_wf (snd (oper t))"
    and evolves: "table_wf t \<Longrightarrow> table_evolves t (snd (oper t))"
begin

lemma keeps_terminal:
  "table_wf t \<Longrightarrow> find_job t u = Some r \<Longrightarrow> sql_terminal (job_Status r)
     \<Longrightarrow> find_job (snd (oper t)) u = Some r"
  by (rule table_evolves_terminal [OF evolves keeps_wf])

lemma keeps_job:
  "table_wf t \<Longrightarrow> find_job t u = Some r
     \<Longrightarrow> \<exists>s. find_job (snd (oper t)) u = Some s \<and> job_evolves r s"
  by (rule table_evolves_find [OF evolves keeps_wf])

end

lemma table_op_dao_query:
  assumes "table_op q"
  shows "table_op (dao_query e f scan q)"
proof -
  have *: "snd (dao_query e f scan q t) \<in> {t, snd (q t)}" for t by (rule dao_query_table)
  show ?thesis
  proof
    fix t :: table
    assume wf: "table_wf t"
    show "table_wf (snd (dao_query e f scan q t))"
      using * [of t] wf table_op.keeps_wf [OF assms wf] by auto
    show "table_evolves t (snd (dao_query e f scan q t))"
      using * [of t] wf table_op.evolves [OF assms wf] by auto
  qed
qed

lemma table_op_read: "(\<And>t. snd (q t) = t) \<Longrightarrow> table_op q"
  by unfold_locales simp_all

section \<open>The contract of a guarded UPDATE\<close>

text \<open>
  The WHERE clause selects live rows only, and the SET list leaves the identity columns alone
  and never lowers the attempt count. That is enough for the whole statement to be a
  \<open>table_op\<close>.
\<close>

locale guarded_update =
  fixes tbl :: table and guard :: "job \<Rightarrow> bool" and arith :: "job \<Rightarrow> gerr option"
    and new_row :: "job \<Rightarrow> job"
  assumes live: "table_wf tbl \<Longrightarrow> r \<in> set tbl \<Longrightarrow> guard r \<Longrightarrow> \<not> sql_terminal (job_Status r)"
    and identity: "same_identity (new_row r) r"
    and attempts: "arith r = None \<Longrightarrow> sint (job_Attempt r) \<le> sint (job_Attempt (new_row r))"
begin

lemma new_ID [simp]: "job_ID (new_row r) = job_ID r"
  by (rule same_identity_ID [OF identity])

lemma ids: "map job_ID (update_rows guard new_row tbl) = map job_ID tbl"
  by (rule update_rows_ids) simp

lemma new_tuple [simp]: "idempotency_tuple (new_row r) = idempotency_tuple r" "keyed (new_row r) = keyed r"
  using identity [of r] by (simp_all add: idempotency_tuple_def keyed_def same_identity_def)

lemma tuples:
  "map idempotency_tuple (filter keyed (update_rows guard new_row t)) =
     map idempotency_tuple (filter keyed t)"
  by (induction t) (simp_all add: update_rows_def)

lemma updated_wf:
  assumes "table_wf tbl" "\<forall>r\<in>set tbl. guard r \<longrightarrow> row_ok (new_row r)"
  shows "table_wf (update_rows guard new_row tbl)"
proof -
  have "\<forall>r\<in>set (update_rows guard new_row tbl). row_ok r"
    using assms table_wf_row by (auto simp: update_rows_member)
  then show ?thesis using assms(1) by (simp add: table_wf_def ids tuples list_all_iff)
qed

lemma updated_evolves:
  assumes "table_wf tbl" "\<forall>r\<in>set tbl. guard r \<longrightarrow> arith r = None"
  shows "table_evolves tbl (update_rows guard new_row tbl)"
proof -
  let ?s = "\<lambda>r. if guard r then new_row r else r"
  have step: "job_evolves r (?s r)" if "r \<in> set tbl" for r
    using that assms live identity attempts by (simp add: job_evolves_def)
  have mem: "?s r \<in> set (update_rows guard new_row tbl)" if "r \<in> set tbl" for r
    using that by (simp add: update_rows_def)
  show ?thesis
    unfolding table_evolves_def
  proof
    fix r
    assume "r \<in> set tbl"
    then show "\<exists>s\<in>set (update_rows guard new_row tbl). job_evolves r s"
      by (intro bexI [of _ "?s r"] step mem)
  qed
qed

lemma statement_wf: "table_wf tbl \<Longrightarrow> table_wf (snd (update_returning ord guard arith new_row tbl))"
  by (rule update_returning_cases [of ord guard arith new_row tbl]) (auto intro!: updated_wf)

lemma statement_evolves:
  "table_wf tbl \<Longrightarrow> table_evolves tbl (snd (update_returning ord guard arith new_row tbl))"
  by (rule update_returning_cases [of ord guard arith new_row tbl]) (auto intro!: updated_evolves)

lemma found:
  "find_job (update_rows guard new_row tbl) u =
     map_option (\<lambda>r. if guard r then new_row r else r) (find_job tbl u)"
  by (rule find_job_update) simp

end

text \<open>An UPDATE whose guard is the identifier and a holder matches at most one row.\<close>

lemma update_one:
  assumes wf: "table_wf t" and r: "r \<in> set t" "p r"
    and p: "\<And>s. p s \<Longrightarrow> job_ID s = job_ID r"
    and ok: "arith r = None" "row_ok (g r)"
  shows "update_returning ord p arith g t = (Inr [g r], update_rows p g t)"
proof -
  have f: "filter p t = [r]"
    by (rule filter_key_singleton [of job_ID t r p, OF table_wf_ids [OF wf] r p])
  have "s = r" if "s \<in> set t" "p s" for s
  proof -
    from that have "s \<in> set (filter p t)" by simp
    then show ?thesis by (simp add: f)
  qed
  then have "update_returning ord p arith g t = (Inr (permuted ord (map g (filter p t))), update_rows p g t)"
    using ok by (intro update_returning_ok) blast
  then show ?thesis by (simp add: f)
qed

end
