(* ===== verification/DaoClaim.thy ===== *)
theory DaoClaim
  imports Statements
begin

text \<open>
  \<open>internal/dao/pg.jobClaim\<close>: a worker takes a batch of due jobs. The claimable rows are
  those pending, due and of a kind the worker serves; they are ordered by \<open>run_at\<close>, rows
  another transaction has locked are skipped, and the first \<open>limit\<close> of the rest are taken.
\<close>

section \<open>The statement\<close>

record dao_JobClaimRequest =
  dcr_Kinds :: "string list"
  dcr_WorkerID :: string
  dcr_Limit :: int
  dcr_LeaseSeconds :: int

text \<open>
  The WHERE clause of the \<open>claimable\<close> query. An empty kind list is rendered \<open>IN (NULL)\<close>, which
  no kind satisfies.
\<close>

definition claim_due :: "stmt \<Rightarrow> string list \<Rightarrow> job \<Rightarrow> bool" where
  "claim_due e kinds r \<longleftrightarrow>
     job_Status r = JobStatusPending \<and> job_RunAt r \<le> st_clock e (job_ID r) 0 \<and>
     job_Kind r \<in> set kinds"

text \<open>\<open>ORDER BY run_at LIMIT n FOR UPDATE SKIP LOCKED\<close>: a locked row does not count.\<close>

definition claimable :: "stmt \<Rightarrow> string list \<Rightarrow> int \<Rightarrow> table \<Rightarrow> job list" where
  "claimable e kinds limit t =
     take (nat limit)
       (filter (\<lambda>r. \<not> st_locked e (job_ID r))
         (sort_key job_RunAt (permuted (st_order e) (filter (claim_due e kinds) t))))"

definition claim_guard :: "stmt \<Rightarrow> string list \<Rightarrow> int \<Rightarrow> table \<Rightarrow> job \<Rightarrow> bool" where
  "claim_guard e kinds limit t r \<longleftrightarrow> job_ID r \<in> set (map job_ID (claimable e kinds limit t))"

text \<open>\<open>attempt + 1\<close> on a \<open>smallint\<close> column raises instead of wrapping.\<close>

definition claim_arith :: "job \<Rightarrow> gerr option" where
  "claim_arith r =
     (if sint (job_Attempt r) = 32767 then Some (Sentinel (PgError ''smallint out of range'')) else None)"

definition claim_row :: "stmt \<Rightarrow> string \<Rightarrow> int \<Rightarrow> job \<Rightarrow> job" where
  "claim_row e worker lease r =
     r\<lparr> job_Status := JobStatusClaimed,
        job_Attempt := job_Attempt r + 1,
        job_ClaimedBy := Some worker,
        job_LeaseExpiresAt := Some (st_clock e (job_ID r) 1 + interval_secs lease),
        job_UpdatedAt := st_clock e (job_ID r) 2 \<rparr>"

definition sql_jobClaim :: "stmt \<Rightarrow> string list \<Rightarrow> int \<Rightarrow> string \<Rightarrow> int \<Rightarrow> statement" where
  "sql_jobClaim e kinds limit worker lease t =
     update_returning (st_order e) (claim_guard e kinds limit t) claim_arith
       (claim_row e worker lease) t"

section \<open>The data-access object\<close>

text \<open>\<open>make([]*Job, 0, request.Limit)\<close> panics on a negative capacity.\<close>

definition dao_JobClaim_Exec :: "stmt \<Rightarrow> dao_JobClaimRequest \<Rightarrow> table \<Rightarrow> job list outcome" where
  "dao_JobClaim_Exec e request t =
     (if st_handle e \<and> dcr_Limit request < 0
      then (Inl (Sentinel (GoPanic ''makeslice: cap out of range'')), t)
      else dao_query e id scan_all
        (sql_jobClaim e (dcr_Kinds request) (dcr_Limit request) (dcr_WorkerID request)
          (dcr_LeaseSeconds request)) t)"

text \<open>The repository is an empty struct: its value is its one method.\<close>

definition dao_NewJobClaim :: "(stmt, dao_JobClaimRequest, job list, table) exec" where
  "dao_NewJobClaim = dao_JobClaim_Exec"

section \<open>What is selected\<close>

lemma claimable_in_table:
  assumes "r \<in> set (claimable e kinds limit t)"
  shows "r \<in> set t \<and> claim_due e kinds r \<and> \<not> st_locked e (job_ID r)"
  using assms by (auto simp: claimable_def dest!: in_set_takeD)

lemma claimable_ids_distinct:
  assumes "table_wf t"
  shows "distinct (map job_ID (claimable e kinds limit t))"
proof -
  have "distinct (map job_ID (permuted (st_order e) (filter (claim_due e kinds) t)))"
    using distinct_map_filter_key [OF table_wf_ids [OF assms]] by simp
  then have "distinct (map job_ID (sort_key job_RunAt (permuted (st_order e) (filter (claim_due e kinds) t))))"
    by (simp add: distinct_map inj_on_def)
  then show ?thesis
    unfolding claimable_def by (metis distinct_map_filter_key distinct_take take_map)
qed

lemma claim_guard_iff:
  assumes "table_wf t" "r \<in> set t"
  shows "claim_guard e kinds limit t r \<longleftrightarrow> r \<in> set (claimable e kinds limit t)"
proof
  assume "claim_guard e kinds limit t r"
  then obtain s where s: "s \<in> set (claimable e kinds limit t)" "job_ID s = job_ID r"
    by (auto simp: claim_guard_def)
  then have "s = r"
    using claimable_in_table [OF s(1)] assms table_wf_unique by blast
  with s show "r \<in> set (claimable e kinds limit t)" by simp
qed (auto simp: claim_guard_def)

lemma claim_guard_due:
  assumes "table_wf t" "r \<in> set t" "claim_guard e kinds limit t r"
  shows "claim_due e kinds r" "\<not> st_locked e (job_ID r)"
  using assms claimable_in_table by (auto simp: claim_guard_iff)

text \<open>Rows left behind are no older than the rows taken.\<close>

lemma claimable_oldest:
  assumes "r \<in> set (claimable e kinds limit t)"
    and "s \<in> set t" "claim_due e kinds s" "\<not> st_locked e (job_ID s)"
    and "s \<notin> set (claimable e kinds limit t)"
  shows "job_RunAt r \<le> job_RunAt s"
proof -
  let ?ys = "filter (\<lambda>r. \<not> st_locked e (job_ID r))
         (sort_key job_RunAt (permuted (st_order e) (filter (claim_due e kinds) t)))"
  have "sorted (map job_RunAt ?ys)" by (simp add: sorted_filter)
  moreover have "s \<in> set ?ys" using assms(2-4) by simp
  ultimately show ?thesis
    using assms(1,5) unfolding claimable_def by (intro sorted_take_drop_le)
qed

lemma claimable_length:
  "length (claimable e kinds limit t) =
    min (nat limit) (length (filter (\<lambda>r. claim_due e kinds r \<and> \<not> st_locked e (job_ID r)) t))"
proof -
  let ?d = "filter (claim_due e kinds) t"
  have "mset (filter (\<lambda>r. \<not> st_locked e (job_ID r)) (sort_key job_RunAt (permuted (st_order e) ?d))) =
      mset (filter (\<lambda>r. \<not> st_locked e (job_ID r)) ?d)"
    by (simp add: mset_filter filter_filter_mset)
  then have "length (filter (\<lambda>r. \<not> st_locked e (job_ID r)) (sort_key job_RunAt (permuted (st_order e) ?d))) =
      length (filter (\<lambda>r. \<not> st_locked e (job_ID r)) ?d)"
    by (metis size_mset)
  then show ?thesis by (simp add: claimable_def min.commute conj_commute)
qed

text \<open>A limit that covers the due rows takes all of them.\<close>

lemma claimable_all:
  assumes "length (filter (\<lambda>r. claim_due e kinds r \<and> \<not> st_locked e (job_ID r)) t) \<le> nat limit"
  shows "set (claimable e kinds limit t) = {r \<in> set t. claim_due e kinds r \<and> \<not> st_locked e (job_ID r)}"
proof -
  let ?ys = "filter (\<lambda>r. \<not> st_locked e (job_ID r))
         (sort_key job_RunAt (permuted (st_order e) (filter (claim_due e kinds) t)))"
  have "mset ?ys = mset (filter (\<lambda>r. claim_due e kinds r \<and> \<not> st_locked e (job_ID r)) t)"
    by (simp add: mset_filter filter_filter_mset conj_commute)
  then have "length ?ys \<le> nat limit" using assms by (metis size_mset)
  then have "claimable e kinds limit t = ?ys" by (simp add: claimable_def)
  then show ?thesis by auto
qed

section \<open>The statement keeps the table's contract\<close>

lemma claim_arith_None_iff: "claim_arith r = None \<longleftrightarrow> sint (job_Attempt r) < 32767"
  using sint16_range [of "job_Attempt r"] by (simp add: claim_arith_def)

lemma claim_row_simps [row_simps]:
  "job_ID (claim_row e w l r) = job_ID r"
  "job_Status (claim_row e w l r) = JobStatusClaimed"
  "job_Attempt (claim_row e w l r) = job_Attempt r + 1"
  "job_MaxAttempts (claim_row e w l r) = job_MaxAttempts r"
  "job_ClaimedBy (claim_row e w l r) = Some w"
  "job_LeaseExpiresAt (claim_row e w l r) = Some (st_clock e (job_ID r) 1 + interval_secs l)"
  "job_Kind (claim_row e w l r) = job_Kind r"
  "job_RunAt (claim_row e w l r) = job_RunAt r"
  "job_Payload (claim_row e w l r) = job_Payload r"
  "job_IdempotencyKey (claim_row e w l r) = job_IdempotencyKey r"
  "job_SettledAt (claim_row e w l r) = job_SettledAt r"
  "job_ExpiresAt (claim_row e w l r) = job_ExpiresAt r"
  "job_Result (claim_row e w l r) = job_Result r"
  "job_Error (claim_row e w l r) = job_Error r"
  by (simp_all add: claim_row_def)

lemma claim_row_identity: "same_identity (claim_row e w l r) r"
  by (simp add: same_identity_def claim_row_def)

lemma claim_row_ok:
  "row_ok r \<Longrightarrow> job_Status r = JobStatusPending \<Longrightarrow> sint (job_Attempt r) < 32767
     \<Longrightarrow> row_ok (claim_row e w l r)"
  by (auto simp: row_ok_iff row_simps sint16_succ)

lemma claim_guarded:
  "guarded_update t (claim_guard e kinds limit t) claim_arith (claim_row e w l)"
proof
  fix r
  assume "table_wf t" "r \<in> set t" "claim_guard e kinds limit t r"
  then have "claim_due e kinds r" by (rule claim_guard_due)
  then show "\<not> sql_terminal (job_Status r)" by (simp add: claim_due_def)
next
  show "same_identity (claim_row e w l r) r" for r by (rule claim_row_identity)
next
  show "claim_arith r = None \<Longrightarrow> sint (job_Attempt r) \<le> sint (job_Attempt (claim_row e w l r))" for r
    by (simp add: claim_arith_None_iff row_simps sint16_succ)
qed

interpretation claim_stmt: table_op "sql_jobClaim e kinds limit w l"
  for e kinds limit w l
proof
  fix t :: table
  assume wf: "table_wf t"
  show "table_wf (snd (sql_jobClaim e kinds limit w l t))"
    unfolding sql_jobClaim_def by (rule guarded_update.statement_wf [OF claim_guarded wf])
  show "table_evolves t (snd (sql_jobClaim e kinds limit w l t))"
    unfolding sql_jobClaim_def by (rule guarded_update.statement_evolves [OF claim_guarded wf])
qed

interpretation claim_dao: table_op "dao_JobClaim_Exec e request"
  for e request
proof -
  have q: "table_op (dao_query e id scan_all
      (sql_jobClaim e (dcr_Kinds request) (dcr_Limit request) (dcr_WorkerID request)
        (dcr_LeaseSeconds request)))"
    by (rule table_op_dao_query [OF claim_stmt.table_op_axioms])
  show "table_op (dao_JobClaim_Exec e request)"
    by unfold_locales
      (simp_all add: dao_JobClaim_Exec_def table_op.keeps_wf [OF q] table_op.evolves [OF q])
qed

section \<open>The batch a claim returns\<close>

text \<open>
  The batch as rows: every claimable row, after the SET list, in some order. It is what a
  claim returns whenever no selected row is at the top of the \<open>smallint\<close> range.
\<close>

definition claim_batch :: "stmt \<Rightarrow> dao_JobClaimRequest \<Rightarrow> table \<Rightarrow> job list" where
  "claim_batch e request t =
     permuted (st_order e)
       (map (claim_row e (dcr_WorkerID request) (dcr_LeaseSeconds request))
         (filter (claim_guard e (dcr_Kinds request) (dcr_Limit request) t) t))"

lemma claim_filter_set:
  assumes "table_wf t"
  shows "set (filter (claim_guard e kinds limit t) t) = set (claimable e kinds limit t)"
  using claim_guard_iff [OF assms] claimable_in_table by auto

lemma claim_batch_set:
  assumes "table_wf t"
  shows "set (claim_batch e request t) =
    claim_row e (dcr_WorkerID request) (dcr_LeaseSeconds request) `
      set (claimable e (dcr_Kinds request) (dcr_Limit request) t)"
  by (simp only: claim_batch_def set_permuted set_map claim_filter_set [OF assms])

lemma claim_filter_mset:
  assumes "table_wf t"
  shows "mset (filter (claim_guard e kinds limit t) t) = mset (claimable e kinds limit t)"
proof -
  have "distinct (map job_ID (filter (claim_guard e kinds limit t) t))"
    by (rule distinct_map_filter_key [OF table_wf_ids [OF assms]])
  then have "distinct (filter (claim_guard e kinds limit t) t)" by (simp add: distinct_map)
  moreover have "distinct (claimable e kinds limit t)"
    using claimable_ids_distinct [OF assms] by (simp add: distinct_map)
  ultimately show ?thesis
    using set_eq_iff_mset_eq_distinct claim_filter_set [OF assms] by blast
qed

lemma claim_batch_length:
  assumes "table_wf t"
  shows "length (claim_batch e request t) =
    min (nat (dcr_Limit request))
      (length (filter (\<lambda>r. claim_due e (dcr_Kinds request) r \<and> \<not> st_locked e (job_ID r)) t))"
proof -
  have "length (claim_batch e request t) =
      size (mset (filter (claim_guard e (dcr_Kinds request) (dcr_Limit request) t) t))"
    unfolding claim_batch_def by (metis length_map length_permuted size_mset)
  then show ?thesis by (simp only: claim_filter_mset [OF assms] claimable_length size_mset)
qed

lemma claim_batch_ids_distinct:
  assumes "table_wf t"
  shows "distinct (map job_ID (claim_batch e request t))"
proof -
  have "map job_ID (map (claim_row e w l) rs) = map job_ID rs" for w l rs
    by (simp add: row_simps)
  then show ?thesis
    using distinct_map_filter_key [OF table_wf_ids [OF assms]]
    by (simp only: claim_batch_def distinct_permuted)
qed

lemma sql_jobClaim_ok:
  assumes "table_wf t" "\<forall>r\<in>set t. job_Status r = JobStatusPending \<longrightarrow> sint (job_Attempt r) < 32767"
  shows "sql_jobClaim e (dcr_Kinds request) (dcr_Limit request) (dcr_WorkerID request)
      (dcr_LeaseSeconds request) t =
    (Inr (claim_batch e request t),
     update_rows (claim_guard e (dcr_Kinds request) (dcr_Limit request) t)
       (claim_row e (dcr_WorkerID request) (dcr_LeaseSeconds request)) t)"
  unfolding sql_jobClaim_def claim_batch_def
proof (rule update_returning_ok)
  fix r
  assume r: "r \<in> set t" "claim_guard e (dcr_Kinds request) (dcr_Limit request) t r"
  then have "job_Status r = JobStatusPending"
    using claim_guard_due [OF assms(1)] by (auto simp: claim_due_def)
  with assms r show "claim_arith r = None \<and>
      row_ok (claim_row e (dcr_WorkerID request) (dcr_LeaseSeconds request) r)"
    using table_wf_row by (auto simp: claim_arith_None_iff intro: claim_row_ok)
qed

lemma dao_JobClaim_Exec_ok:
  assumes "table_wf t" "\<forall>r\<in>set t. job_Status r = JobStatusPending \<longrightarrow> sint (job_Attempt r) < 32767"
    and "st_handle e" "st_delivery e = Delivered" "0 \<le> dcr_Limit request"
  shows "dao_JobClaim_Exec e request t =
    (Inr (claim_batch e request t),
     update_rows (claim_guard e (dcr_Kinds request) (dcr_Limit request) t)
       (claim_row e (dcr_WorkerID request) (dcr_LeaseSeconds request)) t)"
  using assms by (simp add: dao_JobClaim_Exec_def dao_query_delivered sql_jobClaim_ok scan_all_def)

lemma dao_JobClaim_Exec_Inr:
  assumes "table_wf t" "dao_JobClaim_Exec e request t = (Inr batch, t')"
  shows "batch = claim_batch e request t"
    and "t' = update_rows (claim_guard e (dcr_Kinds request) (dcr_Limit request) t)
       (claim_row e (dcr_WorkerID request) (dcr_LeaseSeconds request)) t"
proof -
  from assms(2) have "sql_jobClaim e (dcr_Kinds request) (dcr_Limit request) (dcr_WorkerID request)
      (dcr_LeaseSeconds request) t = (Inr batch, t')"
    by (auto simp: dao_JobClaim_Exec_def split: if_splits elim!: dao_query_Inr)
  then show "batch = claim_batch e request t"
    and "t' = update_rows (claim_guard e (dcr_Kinds request) (dcr_Limit request) t)
       (claim_row e (dcr_WorkerID request) (dcr_LeaseSeconds request)) t"
    unfolding sql_jobClaim_def claim_batch_def by (blast dest: update_returning_InrD)+
qed

end
