(* ===== verification/DaoSettle.thy ===== *)
theory DaoSettle
  imports Statements
begin

text \<open>
  The worker side of \<open>internal/dao\<close> after a claim: \<open>pg.jobGetByID\<close> reads a job without an
  owner scope, \<open>pg.jobSettle\<close> moves a claimed job to a terminal status, and \<open>pg.jobRequeue\<close>
  hands it back. Both writes are guarded by the claim: identifier, holder and status together.
\<close>

section \<open>Reading by identifier\<close>

definition sql_jobGetByID :: "uuid \<Rightarrow> statement" where
  "sql_jobGetByID u t = (Inr (filter (\<lambda>r. job_ID r = u) t), t)"

record dao_JobGetByIDRequest =
  dgi_ID :: uuid

definition dao_JobGetByID_Exec :: "stmt \<Rightarrow> dao_JobGetByIDRequest \<Rightarrow> table \<Rightarrow> job outcome" where
  "dao_JobGetByID_Exec e request =
     dao_query e (join_no_rows DaoErrJobGetByIDNotFound) scan_one (sql_jobGetByID (dgi_ID request))"

text \<open>The repository is an empty struct: its value is its one method.\<close>

definition dao_NewJobGetByID :: "(stmt, dao_JobGetByIDRequest, job, table) exec" where
  "dao_NewJobGetByID = dao_JobGetByID_Exec"

lemma snd_sql_jobGetByID [simp]: "snd (sql_jobGetByID u t) = t"
  by (simp add: sql_jobGetByID_def)

lemma snd_dao_JobGetByID_Exec [simp]: "snd (dao_JobGetByID_Exec e request t) = t"
  using dao_query_table [of e "join_no_rows DaoErrJobGetByIDNotFound" scan_one "sql_jobGetByID (dgi_ID request)" t]
  by (simp add: dao_JobGetByID_Exec_def)

lemma filter_ID_find: "table_wf t \<Longrightarrow>
  filter (\<lambda>r. job_ID r = u) t = (case find_job t u of None \<Rightarrow> [] | Some r \<Rightarrow> [r])"
proof (cases "find_job t u")
  case None
  then show ?thesis by (auto simp: filter_empty_conv dest: find_job_NoneD)
next
  case (Some r)
  assume "table_wf t"
  then have "filter (\<lambda>s. job_ID s = u) t = [r]"
    using find_job_SomeD [OF Some] by (intro filter_key_singleton [of job_ID]) (auto dest: table_wf_ids)
  then show ?thesis by (simp add: Some)
qed

lemma dao_JobGetByID_Exec_delivered:
  assumes "table_wf t" "st_handle e" "st_delivery e = Delivered"
  shows "dao_JobGetByID_Exec e \<lparr> dgi_ID = u \<rparr> t =
    (case find_job t u of
       None \<Rightarrow> (Inl (Wrapf ''execute query''
                 (Joined [Sentinel SqlErrNoRows, Sentinel DaoErrJobGetByIDNotFound])), t)
     | Some r \<Rightarrow> (Inr r, t))"
  using assms by (simp add: dao_JobGetByID_Exec_def dao_query_delivered sql_jobGetByID_def
      filter_ID_find join_no_rows_def split: option.splits)

lemma dao_JobGetByID_Exec_Inr:
  assumes "table_wf t" "dao_JobGetByID_Exec e \<lparr> dgi_ID = u \<rparr> t = (Inr r, t')"
  shows "find_job t u = Some r \<and> t' = t"
  using assms(2) unfolding dao_JobGetByID_Exec_def
proof (rule dao_query_Inr)
  fix rows
  assume "sql_jobGetByID (dgi_ID \<lparr> dgi_ID = u \<rparr>) t = (Inr rows, t')" "scan_one rows = Inr r"
  then show ?thesis
    using filter_ID_find [OF assms(1), of u]
    by (auto simp: sql_jobGetByID_def dest!: scan_one_Inr split: option.splits)
qed

section \<open>The guard both writes share\<close>

definition holds_claim :: "uuid \<Rightarrow> string \<Rightarrow> job \<Rightarrow> bool" where
  "holds_claim u worker r \<longleftrightarrow>
     job_ID r = u \<and> job_ClaimedBy r = Some worker \<and> job_Status r = JobStatusClaimed"

lemma holds_claim_filter:
  "table_wf t \<Longrightarrow> r \<in> set t \<Longrightarrow> holds_claim u w r \<Longrightarrow> filter (holds_claim u w) t = [r]"
  by (rule filter_key_singleton [of job_ID t r "holds_claim u w"])
    (auto simp: holds_claim_def dest: table_wf_ids)

text \<open>The job a worker holds, if it holds it.\<close>

definition held_job :: "table \<Rightarrow> uuid \<Rightarrow> string \<Rightarrow> job option" where
  "held_job t u worker =
     (case find_job t u of
        Some r \<Rightarrow> if holds_claim u worker r then Some r else None
      | None \<Rightarrow> None)"

lemma held_job_SomeD:
  "held_job t u w = Some r \<Longrightarrow> r \<in> set t \<and> holds_claim u w r \<and> find_job t u = Some r"
  by (auto simp: held_job_def dest: find_job_SomeD split: option.splits if_splits)

lemma held_job_NoneD:
  "table_wf t \<Longrightarrow> held_job t u w = None \<Longrightarrow> r \<in> set t \<Longrightarrow> \<not> holds_claim u w r"
  using find_job_eq [of t r] by (auto simp: held_job_def holds_claim_def)

lemma held_job_filter:
  "table_wf t \<Longrightarrow> filter (holds_claim u w) t = (case held_job t u w of None \<Rightarrow> [] | Some r \<Rightarrow> [r])"
  by (auto simp: filter_empty_conv holds_claim_filter split: option.splits
      dest: held_job_NoneD held_job_SomeD)

section \<open>Settle\<close>

record dao_JobSettleRequest =
  dsr_ID :: uuid
  dsr_WorkerID :: string
  dsr_Status :: JobStatus
  dsr_Result :: rawmsg
  dsr_Error :: rawmsg
  dsr_RetentionDays :: int

text \<open>
  PostgreSQL computes the new values in the order of the table's columns, where \<open>updated_at\<close> comes
  before \<open>settled_at\<close> and \<open>expires_at\<close>, so that is the order of the readings of the clock.
\<close>

definition settle_row :: "stmt \<Rightarrow> JobStatus \<Rightarrow> rawmsg \<Rightarrow> rawmsg \<Rightarrow> int \<Rightarrow> job \<Rightarrow> job" where
  "settle_row e status result jobErr days r =
     r\<lparr> job_Status := status,
        job_Result := result,
        job_Error := jobErr,
        job_ClaimedBy := None,
        job_LeaseExpiresAt := None,
        job_UpdatedAt := st_clock e (job_ID r) 0,
        job_SettledAt := Some (st_clock e (job_ID r) 1),
        job_ExpiresAt := Some (st_clock e (job_ID r) 2 + interval_days days) \<rparr>"

text \<open>The JSON arguments are checked when the statement is parsed, before any row is matched.\<close>

definition sql_jobSettle ::
  "ext \<Rightarrow> stmt \<Rightarrow> uuid \<Rightarrow> string \<Rightarrow> JobStatus \<Rightarrow> rawmsg \<Rightarrow> rawmsg \<Rightarrow> int \<Rightarrow> statement" where
  "sql_jobSettle x e u worker status result jobErr days t =
     (case (x_json_arg x result, x_json_arg x jobErr) of
        (Some res, Some err) \<Rightarrow>
          update_returning (st_order e) (holds_claim u worker) (\<lambda>_. None)
            (settle_row e status res err days) t
      | _ \<Rightarrow> (Inl (Sentinel (PgError ''invalid input syntax for type json'')), t))"

definition dao_JobSettle_Exec :: "ext \<Rightarrow> stmt \<Rightarrow> dao_JobSettleRequest \<Rightarrow> table \<Rightarrow> job outcome" where
  "dao_JobSettle_Exec x e request =
     dao_query e (join_no_rows DaoErrJobSettleNotClaimed) scan_one
       (sql_jobSettle x e (dsr_ID request) (dsr_WorkerID request) (dsr_Status request)
         (dsr_Result request) (dsr_Error request) (dsr_RetentionDays request))"

definition dao_NewJobSettle :: "ext \<Rightarrow> (stmt, dao_JobSettleRequest, job, table) exec" where
  "dao_NewJobSettle x = dao_JobSettle_Exec x"

lemma settle_row_simps [row_simps]:
  "job_ID (settle_row e s a b d r) = job_ID r"
  "job_Status (settle_row e s a b d r) = s"
  "job_Attempt (settle_row e s a b d r) = job_Attempt r"
  "job_MaxAttempts (settle_row e s a b d r) = job_MaxAttempts r"
  "job_ClaimedBy (settle_row e s a b d r) = None"
  "job_LeaseExpiresAt (settle_row e s a b d r) = None"
  "job_Kind (settle_row e s a b d r) = job_Kind r"
  "job_RunAt (settle_row e s a b d r) = job_RunAt r"
  "job_Payload (settle_row e s a b d r) = job_Payload r"
  "job_IdempotencyKey (settle_row e s a b d r) = job_IdempotencyKey r"
  "job_SettledAt (settle_row e s a b d r) = Some (st_clock e (job_ID r) 1)"
  "job_ExpiresAt (settle_row e s a b d r) = Some (st_clock e (job_ID r) 2 + interval_days d)"
  "job_Result (settle_row e s a b d r) = a"
  "job_Error (settle_row e s a b d r) = b"
  by (simp_all add: settle_row_def)

lemma settle_row_ok: "row_ok r \<Longrightarrow> sql_terminal s \<Longrightarrow> row_ok (settle_row e s a b d r)"
  by (cases s) (simp_all add: row_ok_iff row_simps)

lemma settle_row_ok_iff:
  "row_ok r \<Longrightarrow> row_ok (settle_row e s a b d r) \<longleftrightarrow> sql_terminal s"
  by (cases s) (auto simp: row_ok_iff row_simps)

lemma settle_guarded:
  "guarded_update t (holds_claim u w) (\<lambda>_. None) (settle_row e s a b d)"
  by unfold_locales
    (auto simp: holds_claim_def row_simps same_identity_def settle_row_def)

interpretation settle_stmt: table_op "sql_jobSettle x e u w s a b d"
  for x e u w s a b d
proof
  fix t :: table
  assume wf: "table_wf t"
  note g = guarded_update.statement_wf [OF settle_guarded wf]
    guarded_update.statement_evolves [OF settle_guarded wf]
  show "table_wf (snd (sql_jobSettle x e u w s a b d t))"
    using wf g by (auto simp: sql_jobSettle_def split: option.splits)
  show "table_evolves t (snd (sql_jobSettle x e u w s a b d t))"
    using g by (auto simp: sql_jobSettle_def split: option.splits)
qed

interpretation settle_dao: table_op "dao_JobSettle_Exec x e request"
  for x e request
  unfolding dao_JobSettle_Exec_def by (rule table_op_dao_query [OF settle_stmt.table_op_axioms])

text \<open>The outcome on every branch, for a terminal status and an undisturbed exchange.\<close>

lemma sql_jobSettle_cases:
  assumes "table_wf t" "sql_terminal s" "x_json_arg x a = Some a'" "x_json_arg x b = Some b'"
  shows "sql_jobSettle x e u w s a b d t =
    (case held_job t u w of
       None \<Rightarrow> (Inr [], t)
     | Some r \<Rightarrow> (Inr [settle_row e s a' b' d r],
                   update_rows (holds_claim u w) (settle_row e s a' b' d) t))"
proof -
  have "update_returning (st_order e) (holds_claim u w) (\<lambda>_. None) (settle_row e s a' b' d) t =
      (Inr (permuted (st_order e) (map (settle_row e s a' b' d) (filter (holds_claim u w) t))),
       update_rows (holds_claim u w) (settle_row e s a' b' d) t)"
    using assms(1,2) by (intro update_returning_ok) (auto intro: settle_row_ok table_wf_row)
  moreover have "update_rows (holds_claim u w) (settle_row e s a' b' d) t = t"
    if "held_job t u w = None"
    using held_job_NoneD [OF assms(1) that] by (intro update_rows_none)
  ultimately show ?thesis
    using assms(3,4) by (simp add: sql_jobSettle_def held_job_filter [OF assms(1)] split: option.splits)
qed

lemma dao_JobSettle_Exec_delivered:
  assumes "table_wf t" "sql_terminal (dsr_Status request)"
    and "x_json_arg x (dsr_Result request) = Some a" "x_json_arg x (dsr_Error request) = Some b"
    and "st_handle e" "st_delivery e = Delivered"
  shows "dao_JobSettle_Exec x e request t =
    (case held_job t (dsr_ID request) (dsr_WorkerID request) of
       None \<Rightarrow> (Inl (Wrapf ''execute query''
                 (Joined [Sentinel SqlErrNoRows, Sentinel DaoErrJobSettleNotClaimed])), t)
     | Some r \<Rightarrow>
         (Inr (settle_row e (dsr_Status request) a b (dsr_RetentionDays request) r),
          update_rows (holds_claim (dsr_ID request) (dsr_WorkerID request))
            (settle_row e (dsr_Status request) a b (dsr_RetentionDays request)) t))"
  using assms by (simp add: dao_JobSettle_Exec_def dao_query_delivered sql_jobSettle_cases
      join_no_rows_def split: option.splits)

section \<open>Requeue\<close>

record dao_JobRequeueRequest =
  drr_ID :: uuid
  drr_WorkerID :: string

definition requeue_row :: "stmt \<Rightarrow> job \<Rightarrow> job" where
  "requeue_row e r =
     r\<lparr> job_Status := JobStatusPending,
        job_ClaimedBy := None,
        job_LeaseExpiresAt := None,
        job_RunAt := st_clock e (job_ID r) 0,
        job_UpdatedAt := st_clock e (job_ID r) 1 \<rparr>"

definition sql_jobRequeue :: "stmt \<Rightarrow> uuid \<Rightarrow> string \<Rightarrow> statement" where
  "sql_jobRequeue e u worker t =
     update_returning (st_order e) (holds_claim u worker) (\<lambda>_. None) (requeue_row e) t"

definition dao_JobRequeue_Exec :: "stmt \<Rightarrow> dao_JobRequeueRequest \<Rightarrow> table \<Rightarrow> job outcome" where
  "dao_JobRequeue_Exec e request =
     dao_query e (join_no_rows DaoErrJobRequeueNotClaimed) scan_one
       (sql_jobRequeue e (drr_ID request) (drr_WorkerID request))"

definition dao_NewJobRequeue :: "(stmt, dao_JobRequeueRequest, job, table) exec" where
  "dao_NewJobRequeue = dao_JobRequeue_Exec"

lemma requeue_row_simps [row_simps]:
  "job_ID (requeue_row e r) = job_ID r"
  "job_Status (requeue_row e r) = JobStatusPending"
  "job_Attempt (requeue_row e r) = job_Attempt r"
  "job_MaxAttempts (requeue_row e r) = job_MaxAttempts r"
  "job_ClaimedBy (requeue_row e r) = None"
  "job_LeaseExpiresAt (requeue_row e r) = None"
  "job_Kind (requeue_row e r) = job_Kind r"
  "job_RunAt (requeue_row e r) = st_clock e (job_ID r) 0"
  "job_Payload (requeue_row e r) = job_Payload r"
  "job_IdempotencyKey (requeue_row e r) = job_IdempotencyKey r"
  "job_SettledAt (requeue_row e r) = job_SettledAt r"
  "job_ExpiresAt (requeue_row e r) = job_ExpiresAt r"
  "job_Result (requeue_row e r) = job_Result r"
  "job_Error (requeue_row e r) = job_Error r"
  by (simp_all add: requeue_row_def)

lemma requeue_row_ok: "row_ok r \<Longrightarrow> job_Status r = JobStatusClaimed \<Longrightarrow> row_ok (requeue_row e r)"
  by (simp add: row_ok_iff row_simps)

lemma requeue_guarded: "guarded_update t (holds_claim u w) (\<lambda>_. None) (requeue_row e)"
  by unfold_locales
    (auto simp: holds_claim_def row_simps same_identity_def requeue_row_def)

interpretation requeue_stmt: table_op "sql_jobRequeue e u w"
  for e u w
  by unfold_locales
    (simp_all add: sql_jobRequeue_def guarded_update.statement_wf [OF requeue_guarded]
      guarded_update.statement_evolves [OF requeue_guarded])

interpretation requeue_dao: table_op "dao_JobRequeue_Exec e request"
  for e request
  unfolding dao_JobRequeue_Exec_def by (rule table_op_dao_query [OF requeue_stmt.table_op_axioms])

lemma sql_jobRequeue_cases:
  assumes "table_wf t"
  shows "sql_jobRequeue e u w t =
    (case held_job t u w of
       None \<Rightarrow> (Inr [], t)
     | Some r \<Rightarrow> (Inr [requeue_row e r], update_rows (holds_claim u w) (requeue_row e) t))"
proof -
  have "update_returning (st_order e) (holds_claim u w) (\<lambda>_. None) (requeue_row e) t =
      (Inr (permuted (st_order e) (map (requeue_row e) (filter (holds_claim u w) t))),
       update_rows (holds_claim u w) (requeue_row e) t)"
    using assms by (intro update_returning_ok)
      (auto intro: requeue_row_ok table_wf_row simp: holds_claim_def)
  moreover have "update_rows (holds_claim u w) (requeue_row e) t = t" if "held_job t u w = None"
    using held_job_NoneD [OF assms that] by (intro update_rows_none)
  ultimately show ?thesis
    by (simp add: sql_jobRequeue_def held_job_filter [OF assms] split: option.splits)
qed

lemma dao_JobRequeue_Exec_delivered:
  assumes "table_wf t" "st_handle e" "st_delivery e = Delivered"
  shows "dao_JobRequeue_Exec e request t =
    (case held_job t (drr_ID request) (drr_WorkerID request) of
       None \<Rightarrow> (Inl (Wrapf ''execute query''
                 (Joined [Sentinel SqlErrNoRows, Sentinel DaoErrJobRequeueNotClaimed])), t)
     | Some r \<Rightarrow>
         (Inr (requeue_row e r),
          update_rows (holds_claim (drr_ID request) (drr_WorkerID request)) (requeue_row e) t))"
  using assms by (simp add: dao_JobRequeue_Exec_def dao_query_delivered sql_jobRequeue_cases
      join_no_rows_def split: option.splits)

end
