(* ===== verification/DaoEnqueue.thy ===== *)
theory DaoEnqueue
  imports Statements
begin

text \<open>
  \<open>internal/dao/pg.jobEnqueue\<close>: insert a job, or return the one already recorded under the same
  owner, kind and idempotency key. The constraints are checked on the proposed row first, then
  the conflict target, then the primary key.
\<close>

record dao_JobEnqueueRequest =
  der_ID :: uuid
  der_Kind :: string
  der_Payload :: rawmsg
  der_OwnerID :: uuid
  der_IdempotencyKey :: "string option"
  der_RequestFingerprint :: bytes
  der_MaxAttempts :: int16

text \<open>The proposed row: the seven arguments, and the column defaults for the rest.\<close>

definition inserted_row :: "stmt \<Rightarrow> dao_JobEnqueueRequest \<Rightarrow> rawmsg \<Rightarrow> job" where
  "inserted_row e request payload =
     \<lparr> job_ID = der_ID request, job_Kind = der_Kind request, job_Payload = payload,
       job_OwnerID = der_OwnerID request, job_IdempotencyKey = der_IdempotencyKey request,
       job_RequestFingerprint = der_RequestFingerprint request,
       job_Status = JobStatusPending, job_Attempt = 0, job_MaxAttempts = der_MaxAttempts request,
       job_RunAt = st_clock e (der_ID request) 0,
       job_LeaseExpiresAt = None, job_ClaimedBy = None,
       job_CancelRequestedAt = None, job_ProviderCallID = None, job_Result = None, job_Error = None,
       job_CreatedAt = st_clock e (der_ID request) 1, job_UpdatedAt = st_clock e (der_ID request) 2,
       job_SettledAt = None, job_ExpiresAt = None \<rparr>"

text \<open>\<open>ON CONFLICT (owner_id, kind, idempotency_key) WHERE idempotency_key IS NOT NULL\<close>\<close>

definition conflicts_with :: "job \<Rightarrow> job \<Rightarrow> bool" where
  "conflicts_with r s \<longleftrightarrow>
     job_IdempotencyKey s \<noteq> None \<and> job_OwnerID s = job_OwnerID r \<and> job_Kind s = job_Kind r \<and>
     job_IdempotencyKey s = job_IdempotencyKey r"

text \<open>\<open>DO UPDATE SET idempotency_key = jobs.idempotency_key\<close>\<close>

definition conflict_row :: "job \<Rightarrow> job" where
  "conflict_row s = s\<lparr> job_IdempotencyKey := job_IdempotencyKey s \<rparr>"

definition sql_jobEnqueue :: "ext \<Rightarrow> stmt \<Rightarrow> dao_JobEnqueueRequest \<Rightarrow> statement" where
  "sql_jobEnqueue x e request t =
     (case x_json_arg x (der_Payload request) of
        None \<Rightarrow> (Inl (Sentinel (PgError ''invalid input syntax for type json'')), t)
      | Some payload \<Rightarrow>
          let r = inserted_row e request payload in
          (case row_violation r of
             Some err \<Rightarrow> (Inl err, t)
           | None \<Rightarrow>
               (case find (conflicts_with r) t of
                  Some s \<Rightarrow> (Inr [conflict_row s], update_rows (conflicts_with r) conflict_row t)
                | None \<Rightarrow>
                    if job_ID r \<in> set (map job_ID t)
                    then (Inl (Sentinel (PgError ''jobs_pkey'')), t)
                    else (Inr [r], t @ [r]))))"

definition dao_JobEnqueue_Exec :: "ext \<Rightarrow> stmt \<Rightarrow> dao_JobEnqueueRequest \<Rightarrow> table \<Rightarrow> job outcome" where
  "dao_JobEnqueue_Exec x e request = dao_query e id scan_one (sql_jobEnqueue x e request)"

text \<open>The repository is an empty struct: its value is its one method.\<close>

definition dao_NewJobEnqueue :: "ext \<Rightarrow> (stmt, dao_JobEnqueueRequest, job, table) exec" where
  "dao_NewJobEnqueue x = dao_JobEnqueue_Exec x"

lemma conflict_row_id [simp]: "conflict_row s = s"
  by (cases s) (simp add: conflict_row_def)

lemma update_rows_conflict [simp]: "update_rows p conflict_row t = t"
  unfolding update_rows_def by (induction t) simp_all

lemma conflicts_with_iff:
  "conflicts_with r s \<longleftrightarrow> keyed s \<and> idempotency_tuple s = idempotency_tuple r"
  by (auto simp: conflicts_with_def keyed_def idempotency_tuple_def)

text \<open>The row already recorded under the request's owner, kind and key.\<close>

definition recorded_under :: "table \<Rightarrow> uuid \<Rightarrow> string \<Rightarrow> string option \<Rightarrow> job option" where
  "recorded_under t owner kind key =
     find (\<lambda>s. job_IdempotencyKey s \<noteq> None \<and> job_OwnerID s = owner \<and> job_Kind s = kind \<and>
            job_IdempotencyKey s = key) t"

lemma find_conflicts_inserted:
  "find (conflicts_with (inserted_row e request p)) t =
     recorded_under t (der_OwnerID request) (der_Kind request) (der_IdempotencyKey request)"
proof -
  have "conflicts_with (inserted_row e request p) =
      (\<lambda>s. job_IdempotencyKey s \<noteq> None \<and> job_OwnerID s = der_OwnerID request \<and>
         job_Kind s = der_Kind request \<and> job_IdempotencyKey s = der_IdempotencyKey request)"
    by (simp add: fun_eq_iff conflicts_with_def inserted_row_def)
  then show ?thesis by (simp only: recorded_under_def)
qed

lemma recorded_under_None_key [simp]: "recorded_under t owner kind None = None"
  by (auto simp: recorded_under_def find_None_iff)

lemma recorded_under_SomeD:
  "recorded_under t owner kind key = Some s \<Longrightarrow>
     s \<in> set t \<and> job_OwnerID s = owner \<and> job_Kind s = kind \<and> job_IdempotencyKey s = key \<and> key \<noteq> None"
  by (auto simp: recorded_under_def find_Some_iff)

lemma recorded_under_NoneD:
  "recorded_under t owner kind key = None \<Longrightarrow> s \<in> set t \<Longrightarrow> key \<noteq> None \<Longrightarrow>
     \<not> (job_OwnerID s = owner \<and> job_Kind s = kind \<and> job_IdempotencyKey s = key)"
  by (auto simp: recorded_under_def find_None_iff)

lemma recorded_under_eq:
  assumes "table_wf t" "s \<in> set t" "job_IdempotencyKey s \<noteq> None"
  shows "recorded_under t (job_OwnerID s) (job_Kind s) (job_IdempotencyKey s) = Some s"
proof (cases "recorded_under t (job_OwnerID s) (job_Kind s) (job_IdempotencyKey s)")
  case None
  then show ?thesis using recorded_under_NoneD [OF None assms(2,3)] by simp
next
  case (Some u)
  then have "u = s"
    using recorded_under_SomeD [OF Some] assms
    by (intro table_wf_unique_key [of t u s]) (auto simp: keyed_def idempotency_tuple_def)
  then show ?thesis by (simp add: Some)
qed

text \<open>A request the constraints accept, for a payload the column stores as \<open>p\<close>.\<close>

definition enqueue_accepted :: "dao_JobEnqueueRequest \<Rightarrow> rawmsg \<Rightarrow> bool" where
  "enqueue_accepted request p \<longleftrightarrow>
     der_Kind request \<noteq> '''' \<and> p \<noteq> None \<and> der_IdempotencyKey request \<noteq> Some '''' \<and>
     1 \<le> sint (der_MaxAttempts request)"

lemma inserted_row_ok: "row_ok (inserted_row e request p) \<longleftrightarrow> enqueue_accepted request p"
  by (auto simp: row_ok_iff inserted_row_def enqueue_accepted_def)

lemma sql_jobEnqueue_cases:
  assumes "x_json_arg x (der_Payload request) = Some p" "enqueue_accepted request p"
  shows "sql_jobEnqueue x e request t =
    (case recorded_under t (der_OwnerID request) (der_Kind request) (der_IdempotencyKey request) of
       Some s \<Rightarrow> (Inr [s], t)
     | None \<Rightarrow>
         if der_ID request \<in> set (map job_ID t) then (Inl (Sentinel (PgError ''jobs_pkey'')), t)
         else (Inr [inserted_row e request p], t @ [inserted_row e request p]))"
proof -
  have "row_violation (inserted_row e request p) = None"
    using inserted_row_ok [of e request p] assms(2) by (simp add: row_ok_def)
  moreover have "job_ID (inserted_row e request p) = der_ID request"
    by (simp add: inserted_row_def)
  ultimately show ?thesis
    using assms(1) by (simp add: sql_jobEnqueue_def Let_def find_conflicts_inserted split: option.splits)
qed

lemma sql_jobEnqueue_table:
  obtains (same) "snd (sql_jobEnqueue x e request t) = t"
  | (inserted) p where "snd (sql_jobEnqueue x e request t) = t @ [inserted_row e request p]"
      "fst (sql_jobEnqueue x e request t) = Inr [inserted_row e request p]"
      "enqueue_accepted request p" "der_ID request \<notin> set (map job_ID t)"
      "recorded_under t (der_OwnerID request) (der_Kind request) (der_IdempotencyKey request) = None"
proof (cases "x_json_arg x (der_Payload request)")
  case None
  then show ?thesis by (intro same) (simp add: sql_jobEnqueue_def)
next
  case (Some p)
  show ?thesis
  proof (cases "enqueue_accepted request p")
    case True
    note eq = sql_jobEnqueue_cases [OF Some True, of e t]
    show ?thesis
      by (cases "recorded_under t (der_OwnerID request) (der_Kind request) (der_IdempotencyKey request)";
          cases "der_ID request \<in> set (map job_ID t)")
        (use eq True in \<open>auto intro: same inserted\<close>)
  next
    case False
    then have "row_violation (inserted_row e request p) \<noteq> None"
      using inserted_row_ok [of e request p] by (simp add: row_ok_def)
    then show ?thesis using Some by (intro same) (auto simp: sql_jobEnqueue_def Let_def)
  qed
qed

lemma insert_wf:
  assumes "table_wf t" "enqueue_accepted request p" "der_ID request \<notin> set (map job_ID t)"
    and "recorded_under t (der_OwnerID request) (der_Kind request) (der_IdempotencyKey request) = None"
  shows "table_wf (t @ [inserted_row e request p])"
proof -
  let ?r = "inserted_row e request p"
  have "idempotency_tuple ?r \<notin> set (map idempotency_tuple (filter keyed t))" if "keyed ?r"
    using that recorded_under_NoneD [OF assms(4)]
    by (auto simp: keyed_def idempotency_tuple_def inserted_row_def)
  moreover have "job_ID ?r = der_ID request" by (simp add: inserted_row_def)
  ultimately show ?thesis
    using assms(1-3) by (auto simp: table_wf_def inserted_row_ok)
qed

interpretation enqueue_stmt: table_op "sql_jobEnqueue x e request"
  for x e request
proof
  fix t :: table
  assume wf: "table_wf t"
  show "table_wf (snd (sql_jobEnqueue x e request t))"
    by (rule sql_jobEnqueue_table [of x e request t]) (auto simp: wf intro: insert_wf)
  show "table_evolves t (snd (sql_jobEnqueue x e request t))"
    by (rule sql_jobEnqueue_table [of x e request t])
      (auto simp: table_evolves_def intro: job_evolves_refl)
qed

interpretation enqueue_dao: table_op "dao_JobEnqueue_Exec x e request"
  for x e request
  unfolding dao_JobEnqueue_Exec_def by (rule table_op_dao_query [OF enqueue_stmt.table_op_axioms])

end
