(* ===== verification/DaoReap.thy ===== *)
theory DaoReap
  imports Statements
begin

text \<open>
  Recovery and retention. \<open>internal/dao/pg.jobReap\<close> sweeps every lapsed claim back to the queue,
  or settles it abandoned when no attempt is left; the purge of \<open>builds/database.sql\<close> deletes
  settled rows past their retention.
\<close>

section \<open>Reap\<close>

record dao_JobReapRequest =
  dpr_Error :: rawmsg
  dpr_RetentionDays :: int

definition reapable :: "stmt \<Rightarrow> job \<Rightarrow> bool" where
  "reapable e r \<longleftrightarrow>
     job_Status r = JobStatusClaimed \<and>
     (case job_LeaseExpiresAt r of None \<Rightarrow> False | Some l \<Rightarrow> l < st_clock e (job_ID r) 0) \<and>
     \<not> st_locked e (job_ID r)"

text \<open>The condition of every CASE: an attempt remains.\<close>

definition attempt_left :: "job \<Rightarrow> bool" where
  "attempt_left r \<longleftrightarrow> job_Attempt r <s job_MaxAttempts r"

definition reap_row :: "stmt \<Rightarrow> rawmsg \<Rightarrow> int \<Rightarrow> job \<Rightarrow> job" where
  "reap_row e jobErr days r =
     r\<lparr> job_Status := (if attempt_left r then JobStatusPending else JobStatusAbandoned),
        job_ClaimedBy := None,
        job_LeaseExpiresAt := None,
        job_RunAt := (if attempt_left r then st_clock e (job_ID r) 1 else job_RunAt r),
        job_Error := (if attempt_left r then job_Error r else jobErr),
        job_UpdatedAt := st_clock e (job_ID r) 2,
        job_SettledAt := (if attempt_left r then None else Some (st_clock e (job_ID r) 3)),
        job_ExpiresAt := (if attempt_left r then None
                          else Some (st_clock e (job_ID r) 4 + interval_days days)) \<rparr>"

definition sql_jobReap :: "ext \<Rightarrow> stmt \<Rightarrow> rawmsg \<Rightarrow> int \<Rightarrow> statement" where
  "sql_jobReap x e jobErr days t =
     (case x_json_arg x jobErr of
        None \<Rightarrow> (Inl (Sentinel (PgError ''invalid input syntax for type json'')), t)
      | Some err \<Rightarrow>
          update_returning (st_order e) (reapable e) (\<lambda>_. None) (reap_row e err days) t)"

definition dao_JobReap_Exec :: "ext \<Rightarrow> stmt \<Rightarrow> dao_JobReapRequest \<Rightarrow> table \<Rightarrow> job list outcome" where
  "dao_JobReap_Exec x e request =
     dao_query e id scan_all (sql_jobReap x e (dpr_Error request) (dpr_RetentionDays request))"

text \<open>The repository is an empty struct: its value is its one method.\<close>

definition dao_NewJobReap :: "ext \<Rightarrow> (stmt, dao_JobReapRequest, job list, table) exec" where
  "dao_NewJobReap x = dao_JobReap_Exec x"

lemma attempt_left_iff: "attempt_left r \<longleftrightarrow> sint (job_Attempt r) < sint (job_MaxAttempts r)"
  by (simp add: attempt_left_def sless_sint)

lemma reap_row_simps [row_simps]:
  "job_ID (reap_row e a d r) = job_ID r"
  "job_Status (reap_row e a d r) = (if attempt_left r then JobStatusPending else JobStatusAbandoned)"
  "job_Attempt (reap_row e a d r) = job_Attempt r"
  "job_MaxAttempts (reap_row e a d r) = job_MaxAttempts r"
  "job_ClaimedBy (reap_row e a d r) = None"
  "job_LeaseExpiresAt (reap_row e a d r) = None"
  "job_Kind (reap_row e a d r) = job_Kind r"
  "job_RunAt (reap_row e a d r) = (if attempt_left r then st_clock e (job_ID r) 1 else job_RunAt r)"
  "job_Payload (reap_row e a d r) = job_Payload r"
  "job_IdempotencyKey (reap_row e a d r) = job_IdempotencyKey r"
  "job_SettledAt (reap_row e a d r) =
     (if attempt_left r then None else Some (st_clock e (job_ID r) 3))"
  "job_ExpiresAt (reap_row e a d r) =
     (if attempt_left r then None else Some (st_clock e (job_ID r) 4 + interval_days d))"
  "job_Result (reap_row e a d r) = job_Result r"
  "job_Error (reap_row e a d r) = (if attempt_left r then job_Error r else a)"
  by (simp_all add: reap_row_def)

lemma reap_row_ok: "row_ok r \<Longrightarrow> job_Status r = JobStatusClaimed \<Longrightarrow> row_ok (reap_row e a d r)"
  by (simp add: row_ok_iff row_simps)

lemma reap_guarded: "guarded_update t (reapable e) (\<lambda>_. None) (reap_row e a d)"
  by unfold_locales
    (auto simp: reapable_def row_simps same_identity_def reap_row_def)

interpretation reap_stmt: table_op "sql_jobReap x e a d"
  for x e a d
proof
  fix t :: table
  assume wf: "table_wf t"
  note g = guarded_update.statement_wf [OF reap_guarded wf]
    guarded_update.statement_evolves [OF reap_guarded wf]
  show "table_wf (snd (sql_jobReap x e a d t))"
    using wf g by (auto simp: sql_jobReap_def split: option.splits)
  show "table_evolves t (snd (sql_jobReap x e a d t))"
    using g by (auto simp: sql_jobReap_def split: option.splits)
qed

interpretation reap_dao: table_op "dao_JobReap_Exec x e request"
  for x e request
  unfolding dao_JobReap_Exec_def by (rule table_op_dao_query [OF reap_stmt.table_op_axioms])

lemma sql_jobReap_ok:
  assumes "table_wf t" "x_json_arg x a = Some a'"
  shows "sql_jobReap x e a d t =
    (Inr (permuted (st_order e) (map (reap_row e a' d) (filter (reapable e) t))),
     update_rows (reapable e) (reap_row e a' d) t)"
proof -
  have "update_returning (st_order e) (reapable e) (\<lambda>_. None) (reap_row e a' d) t =
      (Inr (permuted (st_order e) (map (reap_row e a' d) (filter (reapable e) t))),
       update_rows (reapable e) (reap_row e a' d) t)"
    using assms(1) by (intro update_returning_ok)
      (auto intro: reap_row_ok table_wf_row simp: reapable_def)
  then show ?thesis using assms(2) by (simp add: sql_jobReap_def)
qed

lemma dao_JobReap_Exec_delivered:
  assumes "table_wf t" "x_json_arg x (dpr_Error request) = Some a"
    and "st_handle e" "st_delivery e = Delivered"
  shows "dao_JobReap_Exec x e request t =
    (Inr (permuted (st_order e) (map (reap_row e a (dpr_RetentionDays request)) (filter (reapable e) t))),
     update_rows (reapable e) (reap_row e a (dpr_RetentionDays request)) t)"
  using assms by (simp add: dao_JobReap_Exec_def dao_query_delivered sql_jobReap_ok scan_all_def)

section \<open>Purge\<close>

text \<open>\<open>DELETE FROM jobs WHERE expires_at IS NOT NULL AND expires_at < clock_timestamp()\<close>\<close>

definition purgeable :: "stmt \<Rightarrow> job \<Rightarrow> bool" where
  "purgeable e r \<longleftrightarrow>
     (case job_ExpiresAt r of None \<Rightarrow> False | Some l \<Rightarrow> l < st_clock e (job_ID r) 0)"

definition sql_purge :: "stmt \<Rightarrow> table \<Rightarrow> table" where
  "sql_purge e t = filter (\<lambda>r. \<not> purgeable e r) t"

lemma sql_purge_wf: "table_wf t \<Longrightarrow> table_wf (sql_purge e t)"
proof -
  assume wf: "table_wf t"
  have "distinct (map idempotency_tuple (filter keyed t)) \<Longrightarrow>
    distinct (map idempotency_tuple (filter (\<lambda>r. \<not> purgeable e r) (filter keyed t)))"
    by (rule distinct_map_filter_key)
  moreover have "filter (\<lambda>r. \<not> purgeable e r) (filter keyed t) = filter keyed (sql_purge e t)"
    by (simp add: sql_purge_def conj_commute)
  ultimately show ?thesis
    using wf distinct_map_filter_key [of job_ID t "\<lambda>r. \<not> purgeable e r"]
    by (simp add: table_wf_def sql_purge_def list_all_iff)
qed

lemma find_job_purge:
  assumes "table_wf t"
  shows "find_job (sql_purge e t) u =
    (case find_job t u of Some r \<Rightarrow> if purgeable e r then None else Some r | None \<Rightarrow> None)"
proof -
  have "find_job (sql_purge e t) u = Some r" if "find_job t u = Some r" "\<not> purgeable e r" for r
    using that find_job_SomeD [OF that(1)] find_job_eq [OF sql_purge_wf [OF assms], of r e]
    by (auto simp: sql_purge_def)
  moreover have "find_job (sql_purge e t) u = None" if "find_job t u = Some r" "purgeable e r" for r
  proof (rule ccontr)
    assume "find_job (sql_purge e t) u \<noteq> None"
    then obtain s where "find_job (sql_purge e t) u = Some s" by blast
    then have "s \<in> set (sql_purge e t) \<and> job_ID s = u" by (rule find_job_SomeD)
    then have "s \<in> set t" "job_ID s = u" "\<not> purgeable e s" by (simp_all add: sql_purge_def)
    then show False
      using that find_job_SomeD [OF that(1)] table_wf_unique [OF assms, of s r] by auto
  qed
  moreover have "find_job (sql_purge e t) u = None" if "find_job t u = None"
    using that find_job_NoneD [OF that] by (auto simp: find_job_def find_None_iff sql_purge_def)
  ultimately show ?thesis by (auto split: option.splits)
qed

end
