(* ===== verification/DaoRead.thy ===== *)
theory DaoRead
  imports Statements
begin

text \<open>
  \<open>internal/dao/pg.jobGet\<close>: the owner-scoped read. The owner is part of the query predicate,
  so a job of another owner and a job that does not exist are the same no-rows result.
\<close>

record dao_JobGetRequest =
  dgr_ID :: uuid
  dgr_OwnerID :: uuid

definition sql_jobGet :: "uuid \<Rightarrow> uuid \<Rightarrow> statement" where
  "sql_jobGet u owner t = (Inr (filter (\<lambda>r. job_ID r = u \<and> job_OwnerID r = owner) t), t)"

definition dao_JobGet_Exec :: "stmt \<Rightarrow> dao_JobGetRequest \<Rightarrow> table \<Rightarrow> job outcome" where
  "dao_JobGet_Exec e request =
     dao_query e (join_no_rows DaoErrJobGetNotFound) scan_one
       (sql_jobGet (dgr_ID request) (dgr_OwnerID request))"

text \<open>The repository is an empty struct: its value is its one method.\<close>

definition dao_NewJobGet :: "(stmt, dao_JobGetRequest, job, table) exec" where
  "dao_NewJobGet = dao_JobGet_Exec"

lemma snd_dao_JobGet_Exec [simp]: "snd (dao_JobGet_Exec e request t) = t"
  using dao_query_table [of e "join_no_rows DaoErrJobGetNotFound" scan_one
      "sql_jobGet (dgr_ID request) (dgr_OwnerID request)" t]
  by (simp add: dao_JobGet_Exec_def sql_jobGet_def)

text \<open>The job an owner can see under an identifier.\<close>

definition visible_job :: "table \<Rightarrow> uuid \<Rightarrow> uuid \<Rightarrow> job option" where
  "visible_job t u owner =
     (case find_job t u of
        Some r \<Rightarrow> if job_OwnerID r = owner then Some r else None
      | None \<Rightarrow> None)"

lemma visible_job_SomeD:
  "visible_job t u owner = Some r \<Longrightarrow> r \<in> set t \<and> job_ID r = u \<and> job_OwnerID r = owner"
  by (auto simp: visible_job_def dest: find_job_SomeD split: option.splits if_splits)

lemma sql_jobGet_eq:
  assumes "table_wf t"
  shows "sql_jobGet u owner t =
    (Inr (case visible_job t u owner of None \<Rightarrow> [] | Some r \<Rightarrow> [r]), t)"
proof (cases "visible_job t u owner")
  case None
  then have "\<not> (job_ID r = u \<and> job_OwnerID r = owner)" if "r \<in> set t" for r
    using find_job_eq [OF assms that] by (auto simp: visible_job_def split: option.splits if_splits)
  then have "filter (\<lambda>r. job_ID r = u \<and> job_OwnerID r = owner) t = []"
    by (simp add: filter_empty_conv)
  then show ?thesis by (simp add: sql_jobGet_def None)
next
  case (Some r)
  then have "filter (\<lambda>r. job_ID r = u \<and> job_OwnerID r = owner) t = [r]"
    using visible_job_SomeD [OF Some]
    by (intro filter_key_singleton [of job_ID t r]) (auto simp: table_wf_ids [OF assms])
  then show ?thesis by (simp add: sql_jobGet_def Some)
qed

lemma dao_JobGet_Exec_delivered:
  assumes "table_wf t" "st_handle e" "st_delivery e = Delivered"
  shows "dao_JobGet_Exec e request t =
    (case visible_job t (dgr_ID request) (dgr_OwnerID request) of
       None \<Rightarrow> (Inl (Wrapf ''execute query''
                 (Joined [Sentinel SqlErrNoRows, Sentinel DaoErrJobGetNotFound])), t)
     | Some r \<Rightarrow> (Inr r, t))"
  using assms by (simp add: dao_JobGet_Exec_def dao_query_delivered sql_jobGet_eq join_no_rows_def
      split: option.splits)

lemma dao_JobGet_Exec_Inr:
  assumes "table_wf t" "dao_JobGet_Exec e request t = (Inr r, t')"
  shows "visible_job t (dgr_ID request) (dgr_OwnerID request) = Some r"
  using assms(2) unfolding dao_JobGet_Exec_def
  by (rule dao_query_Inr) (auto simp: sql_jobGet_eq [OF assms(1)] split: option.splits)

interpretation get_dao: table_op "dao_JobGet_Exec e request"
  for e request
  by (rule table_op_read) simp

end
