(* ===== verification/GoText.thy ===== *)
theory GoText
  imports Prelude
begin

text \<open>
  What the code uses of Go's \<open>strings\<close> and \<open>time\<close> formatting over UTF-8 bytes:
  \<open>strings.TrimSpace\<close>, which the \<open>notblank\<close> validator is built on. A space rune is matched by
  its encoding; a prefix (or suffix) that is the encoding of a space rune is what the decoder
  would return, since no encoding starts inside another.
\<close>

text \<open>The encodings of the Unicode White Space runes.\<close>

definition space_runes :: "string list" where
  "space_runes =
     [[CHR 0x09], [CHR 0x0A], [CHR 0x0B], [CHR 0x0C], [CHR 0x0D], [CHR 0x20],
      [CHR 0xC2, CHR 0x85], [CHR 0xC2, CHR 0xA0], [CHR 0xE1, CHR 0x9A, CHR 0x80],
      [CHR 0xE2, CHR 0x80, CHR 0x80], [CHR 0xE2, CHR 0x80, CHR 0x81],
      [CHR 0xE2, CHR 0x80, CHR 0x82], [CHR 0xE2, CHR 0x80, CHR 0x83],
      [CHR 0xE2, CHR 0x80, CHR 0x84], [CHR 0xE2, CHR 0x80, CHR 0x85],
      [CHR 0xE2, CHR 0x80, CHR 0x86], [CHR 0xE2, CHR 0x80, CHR 0x87],
      [CHR 0xE2, CHR 0x80, CHR 0x88], [CHR 0xE2, CHR 0x80, CHR 0x89],
      [CHR 0xE2, CHR 0x80, CHR 0x8A], [CHR 0xE2, CHR 0x80, CHR 0xA8],
      [CHR 0xE2, CHR 0x80, CHR 0xA9], [CHR 0xE2, CHR 0x80, CHR 0xAF],
      [CHR 0xE2, CHR 0x81, CHR 0x9F], [CHR 0xE3, CHR 0x80, CHR 0x80]]"

definition leading_space :: "string \<Rightarrow> nat" where
  "leading_space s = (case find (\<lambda>w. prefix w s) space_runes of None \<Rightarrow> 0 | Some w \<Rightarrow> length w)"

definition trailing_space :: "string \<Rightarrow> nat" where
  "trailing_space s = (case find (\<lambda>w. suffix w s) space_runes of None \<Rightarrow> 0 | Some w \<Rightarrow> length w)"

lemma leading_space_le: "leading_space s \<le> length s"
  by (auto simp: leading_space_def find_Some_iff dest: prefix_length_le split: option.splits)

lemma trailing_space_le: "trailing_space s \<le> length s"
  by (auto simp: trailing_space_def find_Some_iff dest: suffix_length_le split: option.splits)

function trim_left :: "string \<Rightarrow> string" where
  "trim_left s = (if leading_space s = 0 then s else trim_left (drop (leading_space s) s))"
  by pat_completeness auto
termination
proof (relation "measure length")
  fix s :: string
  assume "leading_space s \<noteq> 0"
  then show "(drop (leading_space s) s, s) \<in> measure length"
    using leading_space_le [of s] by simp
qed simp

function trim_right :: "string \<Rightarrow> string" where
  "trim_right s =
     (if trailing_space s = 0 then s else trim_right (take (length s - trailing_space s) s))"
  by pat_completeness auto
termination
proof (relation "measure length")
  fix s :: string
  assume "trailing_space s \<noteq> 0"
  then show "(take (length s - trailing_space s) s, s) \<in> measure length"
    using trailing_space_le [of s] by simp
qed simp

declare trim_left.simps [simp del] trim_right.simps [simp del]

definition TrimSpace :: "string \<Rightarrow> string" where
  "TrimSpace s = trim_right (trim_left s)"

text \<open>A string of space runes only.\<close>

definition all_space :: "string \<Rightarrow> bool" where
  "all_space s \<longleftrightarrow> (\<exists>ws. set ws \<subseteq> set space_runes \<and> s = concat ws)"

lemma space_runes_nonempty: "w \<in> set space_runes \<Longrightarrow> w \<noteq> []"
  by (auto simp: space_runes_def)

lemma space_runes_prefix_free:
  "list_all (\<lambda>v. list_all (\<lambda>w. prefix v w \<longrightarrow> v = w) space_runes) space_runes"
  by (simp add: space_runes_def)

lemma leading_space_cases:
  obtains (none) "leading_space s = 0" "\<forall>w\<in>set space_runes. \<not> prefix w s"
  | (rune) w u where "w \<in> set space_runes" "s = w @ u" "leading_space s = length w"
      "drop (leading_space s) s = u"
proof (cases "find (\<lambda>w. prefix w s) space_runes")
  case None
  then have "leading_space s = 0" by (simp add: leading_space_def)
  moreover have "\<forall>w\<in>set space_runes. \<not> prefix w s" using None by (auto simp: find_None_iff)
  ultimately show ?thesis by (rule none)
next
  case (Some w)
  then have w: "w \<in> set space_runes" "prefix w s" by (auto simp: find_Some_iff)
  then obtain u where u: "s = w @ u" by (auto elim: prefixE)
  have len: "leading_space s = length w" using Some by (simp add: leading_space_def)
  show ?thesis by (rule rune [OF w(1) u len]) (simp add: len, simp add: u)
qed

lemma leading_space_append:
  assumes "w \<in> set space_runes"
  shows "leading_space (w @ u) = length w"
proof (rule leading_space_cases [of "w @ u"])
  assume "\<forall>v\<in>set space_runes. \<not> prefix v (w @ u)"
  then show ?thesis using assms by auto
next
  fix v v'
  assume v: "v \<in> set space_runes" "w @ u = v @ v'" "leading_space (w @ u) = length v"
  have "prefix v (w @ u)" unfolding v(2) by simp
  moreover have "prefix w (w @ u)" by simp
  ultimately have "prefix v w \<or> prefix w v" by (rule prefix_same_cases)
  then have "v = w"
    using space_runes_prefix_free assms v(1) by (auto simp: list_all_iff)
  then show ?thesis using v(3) by simp
qed

lemma trim_left_all_space: "set ws \<subseteq> set space_runes \<Longrightarrow> trim_left (concat ws) = []"
proof (induction ws)
  case Nil
  have "leading_space [] = 0" using leading_space_le [of "[]"] by simp
  then show ?case by (simp add: trim_left.simps)
next
  case (Cons w ws)
  then have "leading_space (concat (w # ws)) = length w" "w \<noteq> []"
    using leading_space_append space_runes_nonempty by auto
  then show ?case using Cons by (subst trim_left.simps) simp
qed

lemma trim_left_split: "\<exists>ws. set ws \<subseteq> set space_runes \<and> s = concat ws @ trim_left s"
proof (induction s rule: trim_left.induct)
  case (1 s)
  show ?case
  proof (cases "leading_space s = 0")
    case True
    then have "set [] \<subseteq> set space_runes \<and> s = concat [] @ trim_left s"
      by (simp add: trim_left.simps [of s])
    then show ?thesis by blast
  next
    case False
    then obtain w u where w: "w \<in> set space_runes" "s = w @ u" "drop (leading_space s) s = u"
      by (metis leading_space_cases)
    with 1 False obtain ws where ws: "set ws \<subseteq> set space_runes" "u = concat ws @ trim_left u"
      by auto
    have "trim_left s = trim_left u" using False w(3) by (simp add: trim_left.simps [of s])
    then have "set (w # ws) \<subseteq> set space_runes \<and> s = concat (w # ws) @ trim_left s"
      using w ws by simp
    then show ?thesis by blast
  qed
qed

lemma trim_left_no_space: "leading_space (trim_left s) = 0"
  by (induction s rule: trim_left.induct) (metis trim_left.simps)

lemma trim_right_Nil_split: "trim_right s = [] \<Longrightarrow> \<exists>ws. set ws \<subseteq> set space_runes \<and> s = concat ws"
proof (induction s rule: trim_right.induct)
  case (1 s)
  show ?case
  proof (cases "trailing_space s = 0")
    case True
    then have "set [] \<subseteq> set space_runes \<and> s = concat []"
      using 1(2) by (simp add: trim_right.simps [of s])
    then show ?thesis by blast
  next
    case False
    then obtain w where f: "find (\<lambda>w. suffix w s) space_runes = Some w"
      by (auto simp: trailing_space_def split: option.splits)
    then have w: "w \<in> set space_runes" "suffix w s" "trailing_space s = length w"
      by (auto simp: find_Some_iff) (simp add: trailing_space_def f)
    then obtain u where u: "s = u @ w" by (auto elim: suffixE)
    have "trim_right s = trim_right (take (length s - trailing_space s) s)"
      using False by (subst trim_right.simps) simp
    moreover have k: "length s - trailing_space s = length u" using w(3) u by simp
    moreover have "take (length s - trailing_space s) s = u" unfolding k by (simp add: u)
    ultimately have "trim_right u = []" using 1(2) by simp
    then obtain ws where "set ws \<subseteq> set space_runes" "u = concat ws"
      using 1(1) [OF False] w(3) u by auto
    then have "set (ws @ [w]) \<subseteq> set space_runes \<and> s = concat (ws @ [w])" using w(1) u by simp
    then show ?thesis by blast
  qed
qed

text \<open>Trimming leaves nothing exactly when there was nothing but space.\<close>

lemma TrimSpace_Nil_iff: "TrimSpace s = [] \<longleftrightarrow> all_space s"
proof
  assume "TrimSpace s = []"
  then obtain ws where ws: "set ws \<subseteq> set space_runes" "trim_left s = concat ws"
    using trim_right_Nil_split by (auto simp: TrimSpace_def)
  have "trim_left s = []"
  proof (cases ws)
    case Nil
    then show ?thesis using ws by simp
  next
    case (Cons w vs)
    then have "leading_space (trim_left s) = length w" "w \<noteq> []"
      using ws leading_space_append space_runes_nonempty by auto
    then show ?thesis using trim_left_no_space [of s] by simp
  qed
  then show "all_space s" using trim_left_split [of s] by (auto simp: all_space_def)
next
  assume "all_space s"
  then have "trim_left s = []" by (auto simp: all_space_def trim_left_all_space)
  moreover have "trim_right [] = []"
    using trailing_space_le [of "[]"] by (simp add: trim_right.simps)
  ultimately show "TrimSpace s = []" by (simp add: TrimSpace_def)
qed

end
