(* ===== verification/Sha256.thy ===== *)
theory Sha256
  imports Prelude
begin

text \<open>
  \<open>crypto/sha256\<close>, which fingerprints a request's payload (FIPS 180-4): padding, the message
  schedule and the compression function over \<^typ>\<open>32 word\<close>, and the digest as 32 bytes.
\<close>

unbundle bit_operations_syntax

definition rotr32 :: "nat \<Rightarrow> 32 word \<Rightarrow> 32 word" where
  "rotr32 n x = drop_bit n x OR push_bit (32 - n) x"

text \<open>
  The round constants and the initial state, as the numbers they are defined to be: the first 32
  bits behind the point of the cube roots of the first 64 primes, and of the square roots of the
  first 8.
\<close>

definition sha_k :: "32 word list" where
  "sha_k =
    [1116352408, 1899447441, 3049323471, 3921009573, 961987163, 1508970993,
     2453635748, 2870763221, 3624381080, 310598401, 607225278, 1426881987,
     1925078388, 2162078206, 2614888103, 3248222580, 3835390401, 4022224774,
     264347078, 604807628, 770255983, 1249150122, 1555081692, 1996064986,
     2554220882, 2821834349, 2952996808, 3210313671, 3336571891, 3584528711,
     113926993, 338241895, 666307205, 773529912, 1294757372, 1396182291,
     1695183700, 1986661051, 2177026350, 2456956037, 2730485921, 2820302411,
     3259730800, 3345764771, 3516065817, 3600352804, 4094571909, 275423344,
     430227734, 506948616, 659060556, 883997877, 958139571, 1322822218,
     1537002063, 1747873779, 1955562222, 2024104815, 2227730452, 2361852424,
     2428436474, 2756734187, 3204031479, 3329325298]"

definition sha_init :: "32 word list" where
  "sha_init =
    [1779033703, 3144134277, 1013904242, 2773480762, 1359893119, 2600822924, 528734635, 1541459225]"

definition sha_primes :: "int list" where
  "sha_primes =
    [2, 3, 5, 7, 11, 13, 17, 19, 23, 29, 31, 37, 41, 43, 47, 53, 59, 61, 67, 71,
     73, 79, 83, 89, 97, 101, 103, 107, 109, 113, 127, 131, 137, 139, 149, 151, 157, 163, 167, 173,
     179, 181, 191, 193, 197, 199, 211, 223, 227, 229, 233, 239, 241, 251, 257, 263, 269, 271, 277, 281,
     283, 293, 307, 311]"

text \<open>\<open>k\<close> is the fraction, in 32 bits, of the n-th root of \<open>p\<close>, whose whole part is one of a few.\<close>

definition root_fraction :: "nat \<Rightarrow> int \<Rightarrow> int \<Rightarrow> bool" where
  "root_fraction n p k \<longleftrightarrow> list_ex (\<lambda>c. (c * 2 ^ 32 + k) ^ n \<le> p * 2 ^ (32 * n) \<and>
     p * 2 ^ (32 * n) < (c * 2 ^ 32 + k + 1) ^ n) [1, 2, 3, 4, 5, 6]"

lemma sha_constants:
  "list_all2 (\<lambda>p k. root_fraction 3 p (uint k)) sha_primes sha_k"
  "list_all2 (\<lambda>p k. root_fraction 2 p (uint k)) (take 8 sha_primes) sha_init"
  by code_simp+

definition be_bytes64 :: "nat \<Rightarrow> bytes" where
  "be_bytes64 n = map (\<lambda>i. word_of_nat (n div 256 ^ i mod 256)) [7, 6, 5, 4, 3, 2, 1, 0]"

definition sha_pad :: "bytes \<Rightarrow> bytes" where
  "sha_pad m = m @ [0x80] @ replicate ((119 - length m mod 64) mod 64) 0 @ be_bytes64 (8 * length m)"

fun be_words :: "bytes \<Rightarrow> 32 word list" where
  "be_words (a # b # c # d # rest) =
     (push_bit 24 (ucast a) OR push_bit 16 (ucast b) OR push_bit 8 (ucast c) OR ucast d) # be_words rest"
| "be_words _ = []"

definition be_unwords :: "32 word list \<Rightarrow> bytes" where
  "be_unwords ws = concat (map (\<lambda>w. [ucast (drop_bit 24 w), ucast (drop_bit 16 w), ucast (drop_bit 8 w), ucast w]) ws)"

text \<open>The schedule, most recent word first while it grows.\<close>

fun sha_extend :: "nat \<Rightarrow> 32 word list \<Rightarrow> 32 word list" where
  "sha_extend 0 ws = rev ws"
| "sha_extend (Suc n) ws =
     (let a = ws ! 1; b = ws ! 14;
          s1 = rotr32 17 a XOR rotr32 19 a XOR drop_bit 10 a;
          s0 = rotr32 7 b XOR rotr32 18 b XOR drop_bit 3 b
      in sha_extend n ((s1 + ws ! 6 + s0 + ws ! 15) # ws))"

fun sha_rounds :: "(32 word \<times> 32 word) list \<Rightarrow> 32 word list \<Rightarrow> 32 word list" where
  "sha_rounds ((k, w) # kws) [a, b, c, d, e, f, g, h] =
     (let t1 = h + (rotr32 6 e XOR rotr32 11 e XOR rotr32 25 e) + ((e AND f) XOR (NOT e AND g)) + k + w;
          t2 = (rotr32 2 a XOR rotr32 13 a XOR rotr32 22 a) + ((a AND b) XOR (a AND c) XOR (b AND c))
      in sha_rounds kws [t1 + t2, a, b, c, d + t1, e, f, g])"
| "sha_rounds _ st = st"

definition sha_block :: "32 word list \<Rightarrow> 32 word list \<Rightarrow> 32 word list" where
  "sha_block h ws = map2 (+) h (sha_rounds (zip sha_k (sha_extend 48 (rev ws))) h)"

fun sha_blocks :: "nat \<Rightarrow> 32 word list \<Rightarrow> 32 word list \<Rightarrow> 32 word list" where
  "sha_blocks 0 ws h = h"
| "sha_blocks (Suc n) ws h = sha_blocks n (drop 16 ws) (sha_block h (take 16 ws))"

definition sha256_Sum256 :: "bytes \<Rightarrow> bytes" where
  "sha256_Sum256 m =
     (let ws = be_words (sha_pad m) in be_unwords (sha_blocks (length ws div 16) ws sha_init))"

text \<open>A digest has 32 bytes.\<close>

lemma length_sha_rounds: "length h = 8 \<Longrightarrow> length (sha_rounds kws h) = 8"
  by (induction kws h rule: sha_rounds.induct) (simp_all add: Let_def)

lemma length_sha_blocks: "length h = 8 \<Longrightarrow> length (sha_blocks n ws h) = 8"
  by (induction n ws h rule: sha_blocks.induct) (simp_all add: sha_block_def length_sha_rounds)

lemma length_be_unwords: "length (be_unwords ws) = 4 * length ws"
  by (induction ws) (simp_all add: be_unwords_def)

lemma length_sha256 [simp]: "length (sha256_Sum256 m) = 32"
  by (simp add: sha256_Sum256_def Let_def length_be_unwords length_sha_blocks sha_init_def)

lemma sha256_nonempty [simp]: "sha256_Sum256 m \<noteq> []"
  by (metis length_sha256 length_0_conv zero_neq_numeral)

end
