(* ===== verification/CoreJob.thy ===== *)
theory CoreJob
  imports DaoClaim DaoSettle DaoEnqueue DaoReap DaoRead GoText Sha256
begin

text \<open>
  \<open>internal/core\<close>, what its services share: the business view of a job (\<open>job.go\<close>) and the
  validator (\<open>validate.go\<close>). Services return a result or a Go error, together with the table
  after the call.
\<close>

text \<open>The status type of the data access, under the name of the core.\<close>

type_synonym core_JobStatus = JobStatus

record core_Job =
  cj_ID :: uuid
  cj_Kind :: string
  cj_Payload :: rawmsg
  cj_OwnerID :: uuid
  cj_Status :: core_JobStatus
  cj_Attempt :: int16
  cj_MaxAttempts :: int16
  cj_Result :: rawmsg
  cj_Error :: rawmsg
  cj_ProviderCallID :: "string option"
  cj_CreatedAt :: time
  cj_UpdatedAt :: time
  cj_SettledAt :: "time option"
  cj_ExpiresAt :: "time option"

definition jobToCore :: "job \<Rightarrow> core_Job" where
  "jobToCore entity =
     \<lparr> cj_ID = job_ID entity,
       cj_Kind = job_Kind entity,
       cj_Payload = job_Payload entity,
       cj_OwnerID = job_OwnerID entity,
       cj_Status = job_Status entity,
       cj_Attempt = job_Attempt entity,
       cj_MaxAttempts = job_MaxAttempts entity,
       cj_Result = job_Result entity,
       cj_Error = job_Error entity,
       cj_ProviderCallID = job_ProviderCallID entity,
       cj_CreatedAt = job_CreatedAt entity,
       cj_UpdatedAt = job_UpdatedAt entity,
       cj_SettledAt = job_SettledAt entity,
       cj_ExpiresAt = job_ExpiresAt entity \<rparr>"

lemma jobToCore_simps [simp]:
  "cj_ID (jobToCore r) = job_ID r" "cj_Kind (jobToCore r) = job_Kind r"
  "cj_Payload (jobToCore r) = job_Payload r" "cj_OwnerID (jobToCore r) = job_OwnerID r"
  "cj_Status (jobToCore r) = job_Status r" "cj_Attempt (jobToCore r) = job_Attempt r"
  "cj_MaxAttempts (jobToCore r) = job_MaxAttempts r" "cj_Result (jobToCore r) = job_Result r"
  "cj_Error (jobToCore r) = job_Error r" "cj_ProviderCallID (jobToCore r) = job_ProviderCallID r"
  "cj_CreatedAt (jobToCore r) = job_CreatedAt r" "cj_UpdatedAt (jobToCore r) = job_UpdatedAt r"
  "cj_SettledAt (jobToCore r) = job_SettledAt r" "cj_ExpiresAt (jobToCore r) = job_ExpiresAt r"
  by (simp_all add: jobToCore_def)

definition ValidateNotBlank :: "string \<Rightarrow> bool" where
  "ValidateNotBlank s \<longleftrightarrow> TrimSpace s \<noteq> ''''"

text \<open>
  \<open>init\<close> registers it with the package's validator. A tag of a struct field is looked up among the
  registrations; one the library does not know makes it panic, which no field here does.
\<close>

definition validate :: "(string \<times> (string \<Rightarrow> bool)) list" where
  "validate = [(''notblank'', ValidateNotBlank)]"

definition custom_tag :: "string \<Rightarrow> string \<Rightarrow> bool" where
  "custom_tag tag s = (case map_of validate tag of None \<Rightarrow> False | Some check \<Rightarrow> check s)"

lemma custom_tag_notblank [simp]: "custom_tag ''notblank'' s = ValidateNotBlank s"
  by (simp add: custom_tag_def validate_def)

text \<open>\<open>errors.Join(err, ErrInvalidRequest)\<close>, what every service returns for a bad request.\<close>

definition invalid_request :: gerr where
  "invalid_request = Joined [Sentinel ValidationErrors, Sentinel ErrInvalidRequest]"

lemma invalid_request_Is [simp]: "errors_Is invalid_request ErrInvalidRequest"
  by (simp add: invalid_request_def)

text \<open>
  What a core service does with the answer of a data-access call: the error is wrapped, the result
  translated. Over the table, the contract carries over.
\<close>

definition via_dao ::
  "(gerr \<Rightarrow> gerr) \<Rightarrow> ('a \<Rightarrow> gerr + 'b) \<Rightarrow> (gerr + 'a) \<times> 's \<Rightarrow> (gerr + 'b) \<times> 's" where
  "via_dao on_err f out =
     (case out of
        (Inl err, t) \<Rightarrow> (Inl (on_err err), t)
      | (Inr v, t) \<Rightarrow> (f v, t))"

lemma snd_via_dao [simp]: "snd (via_dao on_err f out) = snd out"
  by (auto simp: via_dao_def split: prod.splits sum.splits)

lemma via_dao_simps [simp]:
  "via_dao g f (Inl err, t) = (Inl (g err), t)" "via_dao g f (Inr v, t) = (f v, t)"
  by (simp_all add: via_dao_def)

lemma via_dao_Inr:
  "via_dao g f out = (Inr w, t) \<longleftrightarrow> (\<exists>v. out = (Inr v, t) \<and> f v = Inr w)"
  by (cases out; cases "fst out") (auto simp: via_dao_def)

text \<open>A service that validates first keeps the contract of what it then runs.\<close>

lemma table_op_guard:
  assumes "table_op q"
  shows "table_op (\<lambda>t. if b then (Inl err, t) else via_dao g f (q t))"
  by unfold_locales (simp_all add: table_op.keeps_wf [OF assms] table_op.evolves [OF assms])

lemma table_op_via_dao: "table_op q \<Longrightarrow> table_op (\<lambda>t. via_dao g f (q t))"
  by unfold_locales (simp_all add: table_op.keeps_wf table_op.evolves)

end
