(* ===== verification/CoreQueue.thy ===== *)
theory CoreQueue
  imports CoreJob
begin

text \<open>
  The single-statement services of \<open>internal/core\<close>: enqueue, claim, get and the reaper's
  sweep. Each validates its request, makes one data-access call and translates the result. A
  service is the record of what it was constructed with, and its \<open>core_\<dots>_Exec\<close> is its method, over
  any implementation of its dependency; \<open>JobEnqueue_Exec\<close> and its like are the services over
  the repositories of \<open>internal/dao\<close>, as \<open>cmd/grpc/main.go\<close> constructs them.
\<close>

section \<open>Enqueue\<close>

record core_JobEnqueueRequest =
  cer_Kind :: string
  cer_Payload :: rawmsg
  cer_OwnerID :: uuid
  cer_IdempotencyKey :: "string option"
  cer_MaxAttempts :: int16

record JobEnqueueResult =
  res_Job :: core_Job
  res_Created :: bool

text \<open>\<open>required,notblank\<close> on the kind, \<open>required\<close> on the owner, \<open>gte=0\<close> on the attempts.\<close>

definition valid_enqueue :: "ext \<Rightarrow> core_JobEnqueueRequest \<Rightarrow> bool" where
  "valid_enqueue x r \<longleftrightarrow>
     x_required_string x (cer_Kind r) \<and> custom_tag ''notblank'' (cer_Kind r) \<and>
     x_required_uuid x (cer_OwnerID r) \<and> x_gte x 0 (sint (cer_MaxAttempts r))"

definition payloadOr :: "rawmsg \<Rightarrow> bytes" where
  "payloadOr payload =
     (case payload of
        None \<Rightarrow> [0x7B, 0x7D]
      | Some bs \<Rightarrow> if length bs = 0 then [0x7B, 0x7D] else bs)"

definition fingerprintOf :: "rawmsg \<Rightarrow> bytes" where
  "fingerprintOf payload = sha256_Sum256 (payloadOr payload)"

text \<open>The data-access request: zero attempts means one, an empty payload is \<open>{}\<close>.\<close>

definition enqueue_request :: "uuid \<Rightarrow> core_JobEnqueueRequest \<Rightarrow> dao_JobEnqueueRequest" where
  "enqueue_request u request =
     \<lparr> der_ID = u,
       der_Kind = cer_Kind request,
       der_Payload = Some (payloadOr (cer_Payload request)),
       der_OwnerID = cer_OwnerID request,
       der_IdempotencyKey = cer_IdempotencyKey request,
       der_RequestFingerprint = fingerprintOf (cer_Payload request),
       der_MaxAttempts = (if cer_MaxAttempts request = 0 then 1 else cer_MaxAttempts request) \<rparr>"

text \<open>
  The row that came back is this call's own if it carries the identifier the call minted. If it
  is not, and was enqueued for other bytes, the key was reused.
\<close>

definition enqueue_result :: "uuid \<Rightarrow> bytes \<Rightarrow> job \<Rightarrow> gerr + JobEnqueueResult" where
  "enqueue_result u fingerprint entity =
     (let created = (job_ID entity = u) in
      if \<not> created \<and> job_RequestFingerprint entity \<noteq> fingerprint
      then Inl (Sentinel ErrJobConflict)
      else Inr \<lparr> res_Job = jobToCore entity, res_Created = created \<rparr>)"

text \<open>The identifier \<open>uuid.NewV7\<close> minted, if it could read its randomness, is an argument.\<close>

type_synonym ('c, 's) JobEnqueueDao = "('c, dao_JobEnqueueRequest, job, 's) exec"

record ('c, 's) core_JobEnqueue =
  sje_dao :: "('c, 's) JobEnqueueDao"

definition core_NewJobEnqueue :: "('c, 's) JobEnqueueDao \<Rightarrow> ('c, 's) core_JobEnqueue" where
  "core_NewJobEnqueue dao = \<lparr> sje_dao = dao \<rparr>"

definition core_JobEnqueue_Exec ::
  "ext \<Rightarrow> uuid option \<Rightarrow> ('c, 's) core_JobEnqueue \<Rightarrow> ('c, core_JobEnqueueRequest, JobEnqueueResult, 's) exec" where
  "core_JobEnqueue_Exec x newV7 service ctx request s =
     (if \<not> valid_enqueue x request then (Inl invalid_request, s)
      else case newV7 of
        None \<Rightarrow> (Inl (Wrapf ''generate id'' (Sentinel NewV7Failure)), s)
      | Some u \<Rightarrow>
          via_dao (Wrapf ''enqueue job'')
            (enqueue_result u (fingerprintOf (cer_Payload request)))
            (sje_dao service ctx (enqueue_request u request) s))"

definition JobEnqueue_Exec ::
  "ext \<Rightarrow> stmt \<Rightarrow> uuid option \<Rightarrow> core_JobEnqueueRequest \<Rightarrow> table \<Rightarrow> JobEnqueueResult outcome" where
  "JobEnqueue_Exec x e newV7 = core_JobEnqueue_Exec x newV7 (core_NewJobEnqueue (dao_NewJobEnqueue x)) e"

lemma JobEnqueue_Exec_eq:
  "JobEnqueue_Exec x e newV7 request t =
     (if \<not> valid_enqueue x request then (Inl invalid_request, t)
      else case newV7 of
        None \<Rightarrow> (Inl (Wrapf ''generate id'' (Sentinel NewV7Failure)), t)
      | Some u \<Rightarrow>
          via_dao (Wrapf ''enqueue job'')
            (enqueue_result u (fingerprintOf (cer_Payload request)))
            (dao_JobEnqueue_Exec x e (enqueue_request u request) t))"
  by (simp add: JobEnqueue_Exec_def core_JobEnqueue_Exec_def core_NewJobEnqueue_def dao_NewJobEnqueue_def
      split: option.split)

lemma enqueue_request_simps [simp]:
  "der_ID (enqueue_request u r) = u" "der_Kind (enqueue_request u r) = cer_Kind r"
  "der_Payload (enqueue_request u r) = Some (payloadOr (cer_Payload r))"
  "der_OwnerID (enqueue_request u r) = cer_OwnerID r"
  "der_IdempotencyKey (enqueue_request u r) = cer_IdempotencyKey r"
  "der_RequestFingerprint (enqueue_request u r) = fingerprintOf (cer_Payload r)"
  "der_MaxAttempts (enqueue_request u r) = (if cer_MaxAttempts r = 0 then 1 else cer_MaxAttempts r)"
  by (simp_all add: enqueue_request_def)

section \<open>Claim\<close>

record core_JobClaimRequest =
  ccr_Kinds :: "string list"
  ccr_WorkerID :: string
  ccr_Limit :: int
  ccr_LeaseSeconds :: int

definition valid_claim :: "ext \<Rightarrow> core_JobClaimRequest \<Rightarrow> bool" where
  "valid_claim x r \<longleftrightarrow>
     x_required_string x (ccr_WorkerID r) \<and> x_gt x 0 (ccr_Limit r) \<and> x_gt x 0 (ccr_LeaseSeconds r)"

definition claim_request :: "core_JobClaimRequest \<Rightarrow> dao_JobClaimRequest" where
  "claim_request r =
     \<lparr> dcr_Kinds = ccr_Kinds r, dcr_WorkerID = ccr_WorkerID r, dcr_Limit = ccr_Limit r,
       dcr_LeaseSeconds = ccr_LeaseSeconds r \<rparr>"

type_synonym ('c, 's) JobClaimDao = "('c, dao_JobClaimRequest, job list, 's) exec"

record ('c, 's) core_JobClaim =
  sjc_dao :: "('c, 's) JobClaimDao"

definition core_NewJobClaim :: "('c, 's) JobClaimDao \<Rightarrow> ('c, 's) core_JobClaim" where
  "core_NewJobClaim dao = \<lparr> sjc_dao = dao \<rparr>"

definition core_JobClaim_Exec ::
  "ext \<Rightarrow> ('c, 's) core_JobClaim \<Rightarrow> ('c, core_JobClaimRequest, core_Job list, 's) exec" where
  "core_JobClaim_Exec x service ctx request s =
     (if \<not> valid_claim x request then (Inl invalid_request, s)
      else via_dao (Wrapf ''claim jobs'') (\<lambda>entities. Inr (map jobToCore entities))
             (sjc_dao service ctx (claim_request request) s))"

definition JobClaim_Exec :: "ext \<Rightarrow> stmt \<Rightarrow> core_JobClaimRequest \<Rightarrow> table \<Rightarrow> core_Job list outcome" where
  "JobClaim_Exec x = core_JobClaim_Exec x (core_NewJobClaim dao_NewJobClaim)"

lemma JobClaim_Exec_eq:
  "JobClaim_Exec x e request t =
     (if \<not> valid_claim x request then (Inl invalid_request, t)
      else via_dao (Wrapf ''claim jobs'') (\<lambda>entities. Inr (map jobToCore entities))
             (dao_JobClaim_Exec e (claim_request request) t))"
  by (simp add: JobClaim_Exec_def core_JobClaim_Exec_def core_NewJobClaim_def dao_NewJobClaim_def)

section \<open>Get\<close>

record core_JobGetRequest =
  cgr_ID :: uuid
  cgr_OwnerID :: uuid

definition valid_get :: "ext \<Rightarrow> core_JobGetRequest \<Rightarrow> bool" where
  "valid_get x r \<longleftrightarrow> x_required_uuid x (cgr_ID r) \<and> x_required_uuid x (cgr_OwnerID r)"

definition get_error :: "gerr \<Rightarrow> gerr" where
  "get_error err =
     (if errors_Is err DaoErrJobGetNotFound then Joined [err, Sentinel ErrJobNotFound]
      else Wrapf ''get job'' err)"

type_synonym ('c, 's) JobGetDao = "('c, dao_JobGetRequest, job, 's) exec"

record ('c, 's) core_JobGet =
  sjg_dao :: "('c, 's) JobGetDao"

definition core_NewJobGet :: "('c, 's) JobGetDao \<Rightarrow> ('c, 's) core_JobGet" where
  "core_NewJobGet dao = \<lparr> sjg_dao = dao \<rparr>"

definition core_JobGet_Exec ::
  "ext \<Rightarrow> ('c, 's) core_JobGet \<Rightarrow> ('c, core_JobGetRequest, core_Job, 's) exec" where
  "core_JobGet_Exec x service ctx request s =
     (if \<not> valid_get x request then (Inl invalid_request, s)
      else via_dao get_error (\<lambda>entity. Inr (jobToCore entity))
             (sjg_dao service ctx \<lparr> dgr_ID = cgr_ID request, dgr_OwnerID = cgr_OwnerID request \<rparr> s))"

definition JobGet_Exec :: "ext \<Rightarrow> stmt \<Rightarrow> core_JobGetRequest \<Rightarrow> table \<Rightarrow> core_Job outcome" where
  "JobGet_Exec x = core_JobGet_Exec x (core_NewJobGet dao_NewJobGet)"

lemma JobGet_Exec_eq:
  "JobGet_Exec x e request t =
     (if \<not> valid_get x request then (Inl invalid_request, t)
      else via_dao get_error (\<lambda>entity. Inr (jobToCore entity))
             (dao_JobGet_Exec e \<lparr> dgr_ID = cgr_ID request, dgr_OwnerID = cgr_OwnerID request \<rparr> t))"
  by (simp add: JobGet_Exec_def core_JobGet_Exec_def core_NewJobGet_def dao_NewJobGet_def)

section \<open>Reap\<close>

text \<open>The bytes of \<open>{"reason":"lease expired"}\<close>.\<close>

definition jobReapError :: bytes where
  "jobReapError = map of_char ''{\"reason\":\"lease expired\"}''"

type_synonym ('c, 's) JobReapDao = "('c, dao_JobReapRequest, job list, 's) exec"

record ('c, 's) core_JobReap =
  sjr_dao :: "('c, 's) JobReapDao"
  sjr_retentionDays :: int

definition core_NewJobReap :: "('c, 's) JobReapDao \<Rightarrow> int \<Rightarrow> ('c, 's) core_JobReap" where
  "core_NewJobReap dao retentionDays = \<lparr> sjr_dao = dao, sjr_retentionDays = retentionDays \<rparr>"

text \<open>A sweep takes no request.\<close>

definition core_JobReap_Exec :: "('c, 's) core_JobReap \<Rightarrow> 'c \<Rightarrow> 's \<Rightarrow> (gerr + core_Job list) \<times> 's" where
  "core_JobReap_Exec service ctx s =
     via_dao (Wrapf ''reap jobs'') (\<lambda>entities. Inr (map jobToCore entities))
       (sjr_dao service ctx
         \<lparr> dpr_Error = Some jobReapError, dpr_RetentionDays = sjr_retentionDays service \<rparr> s)"

definition JobReap_Exec :: "ext \<Rightarrow> stmt \<Rightarrow> int \<Rightarrow> table \<Rightarrow> core_Job list outcome" where
  "JobReap_Exec x e retentionDays = core_JobReap_Exec (core_NewJobReap (dao_NewJobReap x) retentionDays) e"

lemma JobReap_Exec_eq:
  "JobReap_Exec x e retentionDays t =
     via_dao (Wrapf ''reap jobs'') (\<lambda>entities. Inr (map jobToCore entities))
       (dao_JobReap_Exec x e
         \<lparr> dpr_Error = Some jobReapError, dpr_RetentionDays = retentionDays \<rparr> t)"
  by (simp add: JobReap_Exec_def core_JobReap_Exec_def core_NewJobReap_def dao_NewJobReap_def)

section \<open>Every service keeps the table's contract\<close>

interpretation enqueue_core: table_op "JobEnqueue_Exec x e newV7 request"
  for x e newV7 request
proof (cases newV7)
  case None
  then show "table_op (JobEnqueue_Exec x e newV7 request)"
    by unfold_locales (simp_all add: JobEnqueue_Exec_eq)
next
  case (Some u)
  then show "table_op (JobEnqueue_Exec x e newV7 request)"
    by unfold_locales
      (simp_all add: JobEnqueue_Exec_eq enqueue_dao.keeps_wf enqueue_dao.evolves)
qed

interpretation claim_core: table_op "JobClaim_Exec x e request"
  for x e request
  by unfold_locales (simp_all add: JobClaim_Exec_eq claim_dao.keeps_wf claim_dao.evolves)

interpretation get_core: table_op "JobGet_Exec x e request"
  for x e request
  by unfold_locales (simp_all add: JobGet_Exec_eq)

interpretation reap_core: table_op "JobReap_Exec x e days"
  for x e days
  by unfold_locales (simp_all add: JobReap_Exec_eq reap_dao.keeps_wf reap_dao.evolves)

lemma snd_JobGet_Exec [simp]: "snd (JobGet_Exec x e request t) = t"
  by (simp add: JobGet_Exec_eq)

end
