(* ===== verification/CoreSettle.thy ===== *)
theory CoreSettle
  imports CoreJob
begin

text \<open>
  \<open>internal/core/jobSettle.go\<close>: a worker reports the outcome of a run. Success and a failure
  that may not be retried are one guarded write. A retryable failure reads the job and then
  requeues it or gives up, inside a transaction.

  The transactor runs at the database's default isolation (READ COMMITTED), where each
  statement sees what has been committed before it. The record \<^emph>\<open>txn\<close> therefore says, besides
  whether the transaction can be opened and committed, what the other sessions commit between
  its two statements. A rolled-back transaction leaves their work in place.
\<close>

record txn =
  tx_begins :: bool
  tx_commits :: bool
  tx_between :: "table \<Rightarrow> table"

text \<open>A transaction no other session interferes with.\<close>

definition txn_alone :: txn where
  "txn_alone = \<lparr> tx_begins = True, tx_commits = True, tx_between = (\<lambda>t. t) \<rparr>"

lemma txn_alone_simps [simp]:
  "tx_begins txn_alone" "tx_commits txn_alone" "tx_between txn_alone t = t"
  by (simp_all add: txn_alone_def)

section \<open>The requests\<close>

record JobFailure =
  fl_Error :: rawmsg
  fl_Retryable :: bool

record core_JobSettleRequest =
  csr_ID :: uuid
  csr_WorkerID :: string
  csr_Result :: rawmsg
  csr_Failure :: "JobFailure option"

definition valid_settle :: "ext \<Rightarrow> core_JobSettleRequest \<Rightarrow> bool" where
  "valid_settle x r \<longleftrightarrow> x_required_uuid x (csr_ID r) \<and> x_required_string x (csr_WorkerID r)"

section \<open>The service\<close>

type_synonym ('c, 's) JobSettleSettleDao = "('c, dao_JobSettleRequest, job, 's) exec"
type_synonym ('c, 's) JobSettleRequeueDao = "('c, dao_JobRequeueRequest, job, 's) exec"
type_synonym ('c, 's) JobSettleGetDao = "('c, dao_JobGetByIDRequest, job, 's) exec"

text \<open>
  \<open>transaction.Transactor\<close>: it runs a body with a context of its own. The body returns an error or
  leaves its result in a captured variable; here that is one value.
\<close>

type_synonym ('c, 's) Transactor =
  "'c \<Rightarrow> ('c \<Rightarrow> 's \<Rightarrow> (gerr + core_Job) \<times> 's) \<Rightarrow> 's \<Rightarrow> (gerr + core_Job) \<times> 's"

record ('c, 's) core_JobSettle =
  sjs_settleDao :: "('c, 's) JobSettleSettleDao"
  sjs_requeueDao :: "('c, 's) JobSettleRequeueDao"
  sjs_getDao :: "('c, 's) JobSettleGetDao"
  sjs_transactor :: "('c, 's) Transactor"
  sjs_retentionDays :: int

definition core_NewJobSettle ::
  "('c, 's) JobSettleSettleDao \<Rightarrow> ('c, 's) JobSettleRequeueDao \<Rightarrow> ('c, 's) JobSettleGetDao \<Rightarrow>
   ('c, 's) Transactor \<Rightarrow> int \<Rightarrow> ('c, 's) core_JobSettle" where
  "core_NewJobSettle settleDao requeueDao getDao transactor retentionDays =
     \<lparr> sjs_settleDao = settleDao, sjs_requeueDao = requeueDao, sjs_getDao = getDao,
       sjs_transactor = transactor, sjs_retentionDays = retentionDays \<rparr>"

definition settle_request ::
  "int \<Rightarrow> core_JobSettleRequest \<Rightarrow> JobStatus \<Rightarrow> rawmsg \<Rightarrow> rawmsg \<Rightarrow> dao_JobSettleRequest" where
  "settle_request days request status result jobErr =
     \<lparr> dsr_ID = csr_ID request, dsr_WorkerID = csr_WorkerID request, dsr_Status = status,
       dsr_Result = result, dsr_Error = jobErr, dsr_RetentionDays = days \<rparr>"

definition settle_error :: "gerr \<Rightarrow> gerr" where
  "settle_error err =
     (if errors_Is err DaoErrJobSettleNotClaimed then Joined [err, Sentinel ErrJobNotClaimed]
      else Wrapf ''settle job'' err)"

definition core_JobSettle_settle ::
  "('c, 's) core_JobSettle \<Rightarrow> 'c \<Rightarrow> core_JobSettleRequest \<Rightarrow> JobStatus \<Rightarrow> rawmsg \<Rightarrow> rawmsg \<Rightarrow> 's \<Rightarrow>
     (gerr + core_Job) \<times> 's" where
  "core_JobSettle_settle service ctx request status result jobErr s =
     via_dao settle_error (\<lambda>entity. Inr (jobToCore entity))
       (sjs_settleDao service ctx
         (settle_request (sjs_retentionDays service) request status result jobErr) s)"

text \<open>What the retry path makes of its read: the worker must hold the job.\<close>

definition retry_checked :: "core_JobSettleRequest \<Rightarrow> gerr + job \<Rightarrow> gerr + job" where
  "retry_checked request found =
     (case found of
        Inl err \<Rightarrow>
          if errors_Is err DaoErrJobGetByIDNotFound then Inl (Joined [err, Sentinel ErrJobNotClaimed])
          else Inl (Wrapf ''read job'' err)
      | Inr entity \<Rightarrow>
          if job_Status entity \<noteq> JobStatusClaimed \<or> job_ClaimedBy entity \<noteq> Some (csr_WorkerID request)
          then Inl (Sentinel ErrJobNotClaimed)
          else Inr entity)"

text \<open>Its write: requeue while the entity that was read has an attempt left, else give up.\<close>

definition core_retry_write ::
  "('c, 's) core_JobSettle \<Rightarrow> 'c \<Rightarrow> core_JobSettleRequest \<Rightarrow> JobFailure \<Rightarrow> job \<Rightarrow> 's \<Rightarrow>
     (gerr + core_Job) \<times> 's" where
  "core_retry_write service ctx request failure entity s =
     (if job_Attempt entity <s job_MaxAttempts entity
      then via_dao (Wrapf ''requeue job'') (\<lambda>requeued. Inr (jobToCore requeued))
             (sjs_requeueDao service ctx
               \<lparr> drr_ID = csr_ID request, drr_WorkerID = csr_WorkerID request \<rparr> s)
      else via_dao (Wrapf ''settle job'') (\<lambda>settled. Inr (jobToCore settled))
             (sjs_settleDao service ctx
               (settle_request (sjs_retentionDays service) request JobStatusFailed None (fl_Error failure)) s))"

text \<open>The closure that is handed to the transactor, and the call that hands it over.\<close>

definition core_retry_body ::
  "('c, 's) core_JobSettle \<Rightarrow> core_JobSettleRequest \<Rightarrow> JobFailure \<Rightarrow> 'c \<Rightarrow> 's \<Rightarrow> (gerr + core_Job) \<times> 's" where
  "core_retry_body service request failure ctx s =
     (let (found, s') = sjs_getDao service ctx \<lparr> dgi_ID = csr_ID request \<rparr> s in
      case retry_checked request found of
        Inl err \<Rightarrow> (Inl err, s')
      | Inr entity \<Rightarrow> core_retry_write service ctx request failure entity s')"

definition core_JobSettle_retry ::
  "('c, 's) core_JobSettle \<Rightarrow> 'c \<Rightarrow> core_JobSettleRequest \<Rightarrow> JobFailure \<Rightarrow> 's \<Rightarrow> (gerr + core_Job) \<times> 's" where
  "core_JobSettle_retry service ctx request failure s =
     sjs_transactor service ctx (core_retry_body service request failure) s"

definition core_JobSettle_Exec ::
  "ext \<Rightarrow> ('c, 's) core_JobSettle \<Rightarrow> ('c, core_JobSettleRequest, core_Job, 's) exec" where
  "core_JobSettle_Exec x service ctx request s =
     (if \<not> valid_settle x request then (Inl invalid_request, s)
      else case csr_Failure request of
        None \<Rightarrow> core_JobSettle_settle service ctx request JobStatusSucceeded (csr_Result request) None s
      | Some failure \<Rightarrow>
          if \<not> fl_Retryable failure
          then core_JobSettle_settle service ctx request JobStatusFailed None (fl_Error failure) s
          else core_JobSettle_retry service ctx request failure s)"

section \<open>The service over PostgreSQL\<close>

text \<open>
  A session of the database while one call runs: the table as the other sessions have committed it,
  the table as this session sees it, with its own writes, and how many statements it has made. The
  context of the call says what its statements meet and what happens to its transaction. What
  the others commit between the first statement and the second, both tables show.
\<close>

record session =
  sn_others :: table
  sn_own :: table
  sn_ran :: nat

record tx_ctx =
  tc_txn :: txn
  tc_first :: stmt
  tc_second :: stmt

definition open_session :: "table \<Rightarrow> session" where
  "open_session t = \<lparr> sn_others = t, sn_own = t, sn_ran = 0 \<rparr>"

definition on_session :: "(stmt, 'q, 'r, table) exec \<Rightarrow> (tx_ctx, 'q, 'r, session) exec" where
  "on_session f cx q sn =
     (let between = (if sn_ran sn = 0 then (\<lambda>t. t) else tx_between (tc_txn cx));
          (r, t) = f (if sn_ran sn = 0 then tc_first cx else tc_second cx) q (between (sn_own sn))
      in (r, \<lparr> sn_others = between (sn_others sn), sn_own = t, sn_ran = Suc (sn_ran sn) \<rparr>))"

text \<open>A call as a whole: it opens its session on the table, and leaves the table it then sees.\<close>

definition in_session :: "(session \<Rightarrow> 'r \<times> session) \<Rightarrow> table \<Rightarrow> 'r \<times> table" where
  "in_session f t = (let (res, sn) = f (open_session t) in (res, sn_own sn))"

text \<open>
  \<open>postgres.NewTransactor(nil)\<close>: an error of the body or of the commit discards the session's own
  writes and leaves those of the others in place.
\<close>

definition NewTransactor :: "(tx_ctx, session) Transactor" where
  "NewTransactor cx body sn =
     (if \<not> tx_begins (tc_txn cx) then (Inl (Sentinel TransactorFailure), sn)
      else
        let (res, sn') = body cx sn in
        (case res of
           Inl err \<Rightarrow> (Inl err, sn'\<lparr> sn_own := sn_others sn' \<rparr>)
         | Inr v \<Rightarrow>
             if tx_commits (tc_txn cx) then (Inr v, sn')
             else (Inl (Sentinel TransactorFailure), sn'\<lparr> sn_own := sn_others sn' \<rparr>)))"

definition serviceJobSettle :: "ext \<Rightarrow> int \<Rightarrow> (tx_ctx, session) core_JobSettle" where
  "serviceJobSettle x days =
     core_NewJobSettle (on_session (dao_NewJobSettle x)) (on_session dao_NewJobRequeue)
       (on_session dao_NewJobGetByID) NewTransactor days"

definition JobSettle_Exec ::
  "ext \<Rightarrow> txn \<Rightarrow> stmt \<Rightarrow> stmt \<Rightarrow> int \<Rightarrow> core_JobSettleRequest \<Rightarrow> table \<Rightarrow> core_Job outcome" where
  "JobSettle_Exec x tx e1 e2 days request =
     in_session (core_JobSettle_Exec x (serviceJobSettle x days)
       \<lparr> tc_txn = tx, tc_first = e1, tc_second = e2 \<rparr> request)"

section \<open>The retry path statement by statement\<close>

text \<open>
  The same with the read and the write apart, so that an interleaving can be put between them.
  \<open>WithinTx\<close> runs a body that returns its result, the table as the other sessions left it, and
  the table with its own writes.
\<close>

definition WithinTx :: "txn \<Rightarrow> (table \<Rightarrow> (gerr + 'a) \<times> table \<times> table) \<Rightarrow> table \<Rightarrow> 'a outcome" where
  "WithinTx tx body t =
     (if \<not> tx_begins tx then (Inl (Sentinel TransactorFailure), t)
      else
        let (res, others, own) = body t in
        (case res of
           Inl err \<Rightarrow> (Inl err, others)
         | Inr v \<Rightarrow> if tx_commits tx then (Inr v, own) else (Inl (Sentinel TransactorFailure), others)))"

text \<open>The service with each statement on the table itself.\<close>

definition table_JobSettle :: "ext \<Rightarrow> int \<Rightarrow> (stmt, table) core_JobSettle" where
  "table_JobSettle x days =
     core_NewJobSettle (dao_NewJobSettle x) dao_NewJobRequeue dao_NewJobGetByID (\<lambda>ctx body. body ctx) days"

lemma table_JobSettle_simps [simp]:
  "sjs_settleDao (table_JobSettle x days) = dao_JobSettle_Exec x"
  "sjs_requeueDao (table_JobSettle x days) = dao_JobRequeue_Exec"
  "sjs_getDao (table_JobSettle x days) = dao_JobGetByID_Exec"
  "sjs_retentionDays (table_JobSettle x days) = days"
  by (simp_all add: table_JobSettle_def core_NewJobSettle_def dao_NewJobSettle_def dao_NewJobRequeue_def
      dao_NewJobGetByID_def)

definition JobSettle_settle ::
  "ext \<Rightarrow> stmt \<Rightarrow> int \<Rightarrow> core_JobSettleRequest \<Rightarrow> JobStatus \<Rightarrow> rawmsg \<Rightarrow> rawmsg \<Rightarrow> table \<Rightarrow> core_Job outcome" where
  "JobSettle_settle x e days = core_JobSettle_settle (table_JobSettle x days) e"

definition retry_read :: "stmt \<Rightarrow> core_JobSettleRequest \<Rightarrow> table \<Rightarrow> gerr + job" where
  "retry_read e request t =
     retry_checked request (fst (dao_JobGetByID_Exec e \<lparr> dgi_ID = csr_ID request \<rparr> t))"

definition retry_write ::
  "ext \<Rightarrow> stmt \<Rightarrow> int \<Rightarrow> core_JobSettleRequest \<Rightarrow> JobFailure \<Rightarrow> job \<Rightarrow> table \<Rightarrow> core_Job outcome" where
  "retry_write x e days = core_retry_write (table_JobSettle x days) e"

definition retry_body ::
  "ext \<Rightarrow> txn \<Rightarrow> stmt \<Rightarrow> stmt \<Rightarrow> int \<Rightarrow> core_JobSettleRequest \<Rightarrow> JobFailure \<Rightarrow> table
     \<Rightarrow> (gerr + core_Job) \<times> table \<times> table" where
  "retry_body x tx e1 e2 days request failure t =
     (case retry_read e1 request t of
        Inl err \<Rightarrow> (Inl err, t, t)
      | Inr entity \<Rightarrow>
          let others = tx_between tx t;
              (res, own) = retry_write x e2 days request failure entity others
          in (res, others, own))"

definition JobSettle_retry ::
  "ext \<Rightarrow> txn \<Rightarrow> stmt \<Rightarrow> stmt \<Rightarrow> int \<Rightarrow> core_JobSettleRequest \<Rightarrow> JobFailure \<Rightarrow> table \<Rightarrow> core_Job outcome" where
  "JobSettle_retry x tx e1 e2 days request failure t =
     WithinTx tx (retry_body x tx e1 e2 days request failure) t"

lemma JobSettle_settle_eq:
  "JobSettle_settle x e days request status result jobErr t =
     via_dao settle_error (\<lambda>entity. Inr (jobToCore entity))
       (dao_JobSettle_Exec x e (settle_request days request status result jobErr) t)"
  by (simp add: JobSettle_settle_def core_JobSettle_settle_def)

lemma retry_read_eq:
  "retry_read e request t =
     (case fst (dao_JobGetByID_Exec e \<lparr> dgi_ID = csr_ID request \<rparr> t) of
        Inl err \<Rightarrow>
          if errors_Is err DaoErrJobGetByIDNotFound then Inl (Joined [err, Sentinel ErrJobNotClaimed])
          else Inl (Wrapf ''read job'' err)
      | Inr entity \<Rightarrow>
          if job_Status entity \<noteq> JobStatusClaimed \<or> job_ClaimedBy entity \<noteq> Some (csr_WorkerID request)
          then Inl (Sentinel ErrJobNotClaimed)
          else Inr entity)"
  by (simp add: retry_read_def retry_checked_def split: sum.split)

lemma retry_write_eq:
  "retry_write x e days request failure entity t =
     (if job_Attempt entity <s job_MaxAttempts entity
      then via_dao (Wrapf ''requeue job'') (\<lambda>requeued. Inr (jobToCore requeued))
             (dao_JobRequeue_Exec e
               \<lparr> drr_ID = csr_ID request, drr_WorkerID = csr_WorkerID request \<rparr> t)
      else via_dao (Wrapf ''settle job'') (\<lambda>settled. Inr (jobToCore settled))
             (dao_JobSettle_Exec x e
               (settle_request days request JobStatusFailed None (fl_Error failure)) t))"
  by (simp add: retry_write_def core_retry_write_def)

text \<open>
  Over sessions, the service and its parts are those over the table: a single statement is the
  statement itself, and the closure in its transaction is the read and the write around what the
  others commit.
\<close>

lemma on_session_first:
  "on_session f cx q (open_session t) =
     (fst (f (tc_first cx) q t), \<lparr> sn_others = t, sn_own = snd (f (tc_first cx) q t), sn_ran = 1 \<rparr>)"
  by (simp add: on_session_def open_session_def split: prod.split)

lemma on_session_second:
  "on_session f cx q \<lparr> sn_others = a, sn_own = b, sn_ran = Suc 0 \<rparr> =
     (fst (f (tc_second cx) q (tx_between (tc_txn cx) b)),
      \<lparr> sn_others = tx_between (tc_txn cx) a, sn_own = snd (f (tc_second cx) q (tx_between (tc_txn cx) b)),
        sn_ran = 2 \<rparr>)"
  by (simp add: on_session_def Let_def split: prod.split)

lemma serviceJobSettle_simps [simp]:
  "sjs_settleDao (serviceJobSettle x days) = on_session (dao_JobSettle_Exec x)"
  "sjs_requeueDao (serviceJobSettle x days) = on_session dao_JobRequeue_Exec"
  "sjs_getDao (serviceJobSettle x days) = on_session dao_JobGetByID_Exec"
  "sjs_transactor (serviceJobSettle x days) = NewTransactor"
  "sjs_retentionDays (serviceJobSettle x days) = days"
  by (simp_all add: serviceJobSettle_def core_NewJobSettle_def dao_NewJobSettle_def dao_NewJobRequeue_def
      dao_NewJobGetByID_def)

lemma session_settle:
  "in_session (core_JobSettle_settle (serviceJobSettle x days) cx request status result jobErr) t = JobSettle_settle x (tc_first cx) days request status result jobErr t"
  by (simp add: in_session_def core_JobSettle_settle_def JobSettle_settle_eq on_session_first via_dao_def
      split: prod.split sum.split)

lemma session_write:
  "core_retry_write (serviceJobSettle x days) cx request failure entity
     \<lparr> sn_others = t, sn_own = t, sn_ran = Suc 0 \<rparr> =
   (let others = tx_between (tc_txn cx) t;
        (res, own) = retry_write x (tc_second cx) days request failure entity others
    in (res, \<lparr> sn_others = others, sn_own = own, sn_ran = 2 \<rparr>))"
  by (simp add: core_retry_write_def retry_write_eq on_session_second via_dao_def Let_def
      split: prod.split sum.split)

lemma session_body:
  "core_retry_body (serviceJobSettle x days) request failure cx (open_session t) =
   (let (res, others, own) = retry_body x (tc_txn cx) (tc_first cx) (tc_second cx) days request failure t
    in (res, \<lparr> sn_others = others, sn_own = own,
               sn_ran = (case retry_read (tc_first cx) request t of Inl _ \<Rightarrow> 1 | Inr _ \<Rightarrow> 2) \<rparr>))"
  by (simp add: core_retry_body_def retry_body_def retry_read_def on_session_first session_write Let_def
      split: prod.split sum.split)

lemma session_retry:
  "in_session (core_JobSettle_retry (serviceJobSettle x days) cx request failure) t =
   JobSettle_retry x (tc_txn cx) (tc_first cx) (tc_second cx) days request failure t"
proof (cases "retry_body x (tc_txn cx) (tc_first cx) (tc_second cx) days request failure t")
  case (fields res others own)
  then show ?thesis
    by (cases res) (simp_all add: in_session_def core_JobSettle_retry_def NewTransactor_def session_body JobSettle_retry_def
        WithinTx_def, simp_all add: open_session_def)
qed

lemma JobSettle_Exec_eq:
  "JobSettle_Exec x tx e1 e2 days request t =
     (if \<not> valid_settle x request then (Inl invalid_request, t)
      else case csr_Failure request of
        None \<Rightarrow> JobSettle_settle x e1 days request JobStatusSucceeded (csr_Result request) None t
      | Some failure \<Rightarrow>
          if \<not> fl_Retryable failure
          then JobSettle_settle x e1 days request JobStatusFailed None (fl_Error failure) t
          else JobSettle_retry x tx e1 e2 days request failure t)"
  using session_settle [of x days "\<lparr> tc_txn = tx, tc_first = e1, tc_second = e2 \<rparr>" request]
    session_retry [of x days "\<lparr> tc_txn = tx, tc_first = e1, tc_second = e2 \<rparr>" request]
  by (simp add: JobSettle_Exec_def core_JobSettle_Exec_def in_session_def open_session_def split: option.split)

text \<open>What a settle leaves when no other session writes inside its transaction.\<close>

lemma JobSettle_Exec_alone:
  assumes "tx_between tx = (\<lambda>t. t)"
  obtains (same) "snd (JobSettle_Exec x tx e1 e2 days request t) = t"
  | (settled) s a b where
      "snd (JobSettle_Exec x tx e1 e2 days request t) =
         snd (dao_JobSettle_Exec x e1 (settle_request days request s a b) t)"
      "csr_Failure request = None \<and> s = JobStatusSucceeded \<and> b = None \<or>
       (\<exists>f. csr_Failure request = Some f \<and> \<not> fl_Retryable f) \<and> s = JobStatusFailed \<and> a = None"
  | (retried) f entity where
      "csr_Failure request = Some f" "fl_Retryable f" "retry_read e1 request t = Inr entity"
      "snd (JobSettle_Exec x tx e1 e2 days request t) = snd (retry_write x e2 days request f entity t)"
proof (cases "csr_Failure request")
  case None
  then show ?thesis
    by (cases "valid_settle x request") (auto simp: JobSettle_Exec_eq JobSettle_settle_eq intro: same settled)
next
  case (Some f)
  show ?thesis
  proof (cases "valid_settle x request \<and> fl_Retryable f")
    case True
    then have exec: "JobSettle_Exec x tx e1 e2 days request t = JobSettle_retry x tx e1 e2 days request f t"
      using Some by (simp add: JobSettle_Exec_eq)
    show ?thesis
    proof (cases "retry_read e1 request t")
      case (Inl err)
      then show ?thesis by (intro same) (simp add: exec JobSettle_retry_def WithinTx_def retry_body_def)
    next
      case (Inr entity)
      obtain res own where w: "retry_write x e2 days request f entity t = (res, own)" by fastforce
      have "snd (JobSettle_retry x tx e1 e2 days request f t) \<in> {t, own}"
        using Inr w assms by (auto simp: JobSettle_retry_def WithinTx_def retry_body_def split: sum.split)
      then show ?thesis using same retried [OF Some _ Inr] True by (auto simp: exec w)
    qed
  next
    case False
    then show ?thesis using Some
      by (cases "valid_settle x request") (auto simp: JobSettle_Exec_eq JobSettle_settle_eq intro: same settled)
  qed
qed

section \<open>The table's contract\<close>

lemma retry_write_op: "table_op (retry_write x e days request failure entity)"
  by unfold_locales
    (simp_all add: retry_write_eq requeue_dao.keeps_wf requeue_dao.evolves
      settle_dao.keeps_wf settle_dao.evolves)

text \<open>
  Whatever the other sessions do between the two statements, if they keep the contract the
  whole settle does.
\<close>

lemma retry_tables:
  assumes "table_wf t"
    and "table_wf (tx_between tx t)" "table_evolves t (tx_between tx t)"
  shows "table_wf (snd (JobSettle_retry x tx e1 e2 days request failure t)) \<and>
    table_evolves t (snd (JobSettle_retry x tx e1 e2 days request failure t))"
proof (cases "retry_read e1 request t")
  case (Inl err)
  then show ?thesis using assms(1) by (simp add: JobSettle_retry_def WithinTx_def retry_body_def)
next
  case (Inr entity)
  obtain res own where w: "retry_write x e2 days request failure entity (tx_between tx t) = (res, own)"
    by fastforce
  have own: "table_wf own" "table_evolves t own"
    using table_op.keeps_wf [OF retry_write_op assms(2), of x e2 days request failure entity]
      table_op.evolves [OF retry_write_op assms(2), of x e2 days request failure entity]
      table_evolves_trans [OF assms(3)] by (simp_all add: w)
  have "snd (JobSettle_retry x tx e1 e2 days request failure t) \<in> {t, tx_between tx t, own}"
    using Inr w by (auto simp: JobSettle_retry_def WithinTx_def retry_body_def Let_def split: sum.splits)
  then show ?thesis using own assms by auto
qed

lemma JobSettle_Exec_tables:
  assumes "table_wf t" "table_wf (tx_between tx t)" "table_evolves t (tx_between tx t)"
  shows "table_wf (snd (JobSettle_Exec x tx e1 e2 days request t)) \<and>
    table_evolves t (snd (JobSettle_Exec x tx e1 e2 days request t))"
  using retry_tables [OF assms] assms(1)
  by (auto simp: JobSettle_Exec_eq JobSettle_settle_eq settle_dao.keeps_wf settle_dao.evolves
      split: option.splits)

interpretation settle_core: table_op "JobSettle_Exec x txn_alone e1 e2 days request"
  for x e1 e2 days request
  using JobSettle_Exec_tables [of _ txn_alone] by unfold_locales simp_all

end
