(* ===== verification/QueueInv.thy ===== *)
theory QueueInv
  imports CoreQueue CoreSettle
begin

text \<open>
  The invariant of the queue and its preservation by every operation. Beyond the constraints
  the database enforces, it says what the code alone maintains: the attempt count stays under
  its cap (and strictly under it while the job waits), exactly the claimed rows name a holder,
  a result is recorded on success only and an error on failure or abandonment only, and a
  settled row, and no other, has its times set, the retention a full horizon.
\<close>

section \<open>The invariant of a row\<close>

definition row_inv :: "int \<Rightarrow> job \<Rightarrow> bool" where
  "row_inv days r \<longleftrightarrow>
     row_ok r \<and>
     sint (job_Attempt r) \<le> sint (job_MaxAttempts r) \<and>
     (job_Status r = JobStatusPending \<longrightarrow> sint (job_Attempt r) < sint (job_MaxAttempts r)) \<and>
     (job_Status r \<noteq> JobStatusPending \<longrightarrow> 1 \<le> sint (job_Attempt r)) \<and>
     (job_Status r = JobStatusClaimed \<longleftrightarrow> job_ClaimedBy r \<noteq> None) \<and>
     (job_Result r \<noteq> None \<longrightarrow> job_Status r = JobStatusSucceeded) \<and>
     (job_Error r \<noteq> None \<longrightarrow> job_Status r \<in> {JobStatusFailed, JobStatusAbandoned}) \<and>
     job_Status r \<noteq> JobStatusCancelled \<and>
     (\<not> sql_terminal (job_Status r) \<longrightarrow> job_SettledAt r = None \<and> job_ExpiresAt r = None) \<and>
     (\<forall>a b. job_SettledAt r = Some a \<longrightarrow> job_ExpiresAt r = Some b \<longrightarrow> a + interval_days days \<le> b)"

text \<open>
  The same with an allowance: \<open>k u\<close> attempts of the job \<open>u\<close> are granted over its cap. With no
  allowance it is the invariant above.
\<close>

definition row_within :: "int \<Rightarrow> (uuid \<Rightarrow> nat) \<Rightarrow> job \<Rightarrow> bool" where
  "row_within days k r \<longleftrightarrow>
     row_ok r \<and>
     sint (job_Attempt r) \<le> sint (job_MaxAttempts r) + int (k (job_ID r)) \<and>
     (job_Status r = JobStatusPending \<longrightarrow>
        sint (job_Attempt r) < sint (job_MaxAttempts r) + int (k (job_ID r))) \<and>
     (job_Status r \<noteq> JobStatusPending \<longrightarrow> 1 \<le> sint (job_Attempt r)) \<and>
     (job_Status r = JobStatusClaimed \<longleftrightarrow> job_ClaimedBy r \<noteq> None) \<and>
     (job_Result r \<noteq> None \<longrightarrow> job_Status r = JobStatusSucceeded) \<and>
     (job_Error r \<noteq> None \<longrightarrow> job_Status r \<in> {JobStatusFailed, JobStatusAbandoned}) \<and>
     job_Status r \<noteq> JobStatusCancelled \<and>
     (\<not> sql_terminal (job_Status r) \<longrightarrow> job_SettledAt r = None \<and> job_ExpiresAt r = None) \<and>
     (\<forall>a b. job_SettledAt r = Some a \<longrightarrow> job_ExpiresAt r = Some b \<longrightarrow> a + interval_days days \<le> b)"

lemma row_within_none: "row_within days (\<lambda>_. 0) = row_inv days"
  by (simp add: fun_eq_iff row_within_def row_inv_def)

lemma row_within_mono: "row_within days k r \<Longrightarrow> (\<And>u. k u \<le> k' u) \<Longrightarrow> row_within days k' r"
  unfolding row_within_def by (smt (verit) of_nat_mono)

text \<open>A table whose rows all have a property.\<close>

definition rows_hold :: "(job \<Rightarrow> bool) \<Rightarrow> table \<Rightarrow> bool" where
  "rows_hold ok t \<longleftrightarrow> table_wf t \<and> (\<forall>r\<in>set t. ok r)"

lemma rows_hold_wf: "rows_hold ok t \<Longrightarrow> table_wf t"
  by (simp add: rows_hold_def)

lemma rows_hold_Nil [simp]: "rows_hold ok []"
  by (simp add: rows_hold_def)

lemma rows_hold_find: "rows_hold ok t \<Longrightarrow> find_job t u = Some r \<Longrightarrow> ok r"
  using find_job_SomeD by (fastforce simp: rows_hold_def)

lemma rows_hold_mono: "rows_hold ok t \<Longrightarrow> (\<And>r. ok r \<Longrightarrow> ok' r) \<Longrightarrow> rows_hold ok' t"
  by (simp add: rows_hold_def)

definition queue_inv :: "int \<Rightarrow> table \<Rightarrow> bool" where
  "queue_inv days t \<longleftrightarrow> table_wf t \<and> (\<forall>r\<in>set t. row_inv days r)"

lemma queue_inv_Nil [simp]: "queue_inv days []"
  by (simp add: queue_inv_def)

lemma queue_inv_wf: "queue_inv days t \<Longrightarrow> table_wf t"
  by (simp add: queue_inv_def)

lemma queue_inv_row: "queue_inv days t \<Longrightarrow> r \<in> set t \<Longrightarrow> row_inv days r"
  by (simp add: queue_inv_def)

lemma queue_inv_find: "queue_inv days t \<Longrightarrow> find_job t u = Some r \<Longrightarrow> row_inv days r"
  using find_job_SomeD queue_inv_row by blast

lemma row_inv_attempt_range: "row_inv days r \<Longrightarrow> job_Status r = JobStatusPending \<Longrightarrow> sint (job_Attempt r) < 32767"
  using sint16_range(2) [of "job_MaxAttempts r"] by (simp add: row_inv_def)

lemma queue_inv_rows: "queue_inv days t \<longleftrightarrow> rows_hold (row_inv days) t"
  by (simp add: queue_inv_def rows_hold_def)

section \<open>The SET lists keep it\<close>

lemma claim_row_within:
  assumes "row_within days k r" "job_Status r = JobStatusPending" "claim_arith r = None"
  shows "row_within days k (claim_row e w l r)"
proof -
  have "sint (job_Attempt r) < 32767"
    using assms(3) by (simp add: claim_arith_None_iff)
  then have "sint (job_Attempt r + 1) = sint (job_Attempt r) + 1" by (rule sint16_succ)
  then show ?thesis
    using assms by (auto simp: row_within_def row_ok_iff row_simps)
qed

lemma requeue_row_within:
  "row_within days k r \<Longrightarrow> job_Status r = JobStatusClaimed
     \<Longrightarrow> sint (job_Attempt r) < sint (job_MaxAttempts r) + int (k (job_ID r))
     \<Longrightarrow> row_within days k (requeue_row e r)"
  by (auto simp: row_within_def row_ok_iff row_simps)

lemma settle_row_within:
  assumes "row_within days k r" "job_Status r = JobStatusClaimed" "clock_within e t0 t1"
    and "s = JobStatusSucceeded \<and> b = None \<or> s = JobStatusFailed \<and> a = None"
  shows "row_within days k (settle_row e s a b days r)"
  using assms clock_within_bounds(3) [OF assms(3), of 1 2 "job_ID r"]
  by (auto simp: row_within_def row_ok_iff row_simps)

lemma reap_row_within:
  assumes "row_within days k r" "job_Status r = JobStatusClaimed" "clock_within e t0 t1"
  shows "row_within days k (reap_row e a days r)"
  using assms clock_within_bounds(3) [OF assms(3), of 3 4 "job_ID r"]
  by (auto simp: row_within_def row_ok_iff row_simps attempt_left_iff)

lemma inserted_row_within: "enqueue_accepted request p \<Longrightarrow> row_within days k (inserted_row e request p)"
  by (auto simp: row_within_def inserted_row_ok) (auto simp: inserted_row_def enqueue_accepted_def)

section \<open>The operations keep it\<close>

text \<open>
  The interface between a property of rows and the operations: if every SET list and the insert
  keep the property, every service does. A requeue keeps it on a row with an attempt left.
\<close>

lemma dao_query_holds:
  "rows_hold ok t \<Longrightarrow> rows_hold ok (snd (q t)) \<Longrightarrow> rows_hold ok (snd (dao_query e f scan q t))"
  using dao_query_table [of e f scan q t] by auto

lemma update_returning_holds:
  assumes "rows_hold ok t" "guarded_update t p arith g"
    and "\<And>r. r \<in> set t \<Longrightarrow> p r \<Longrightarrow> arith r = None \<Longrightarrow> ok r \<Longrightarrow> ok (g r)"
  shows "rows_hold ok (snd (update_returning ord p arith g t))"
proof (rule update_returning_cases [of ord p arith g t])
  fix err
  assume "update_returning ord p arith g t = (Inl err, t)"
  then show ?thesis using assms(1) by simp
next
  assume u: "update_returning ord p arith g t =
      (Inr (permuted ord (map g (filter p t))), update_rows p g t)"
    and arith: "\<forall>r\<in>set t. p r \<longrightarrow> arith r = None \<and> row_ok (g r)"
  have "table_wf (update_rows p g t)"
    using guarded_update.statement_wf [OF assms(2) rows_hold_wf [OF assms(1)], of ord] by (simp add: u)
  moreover have "\<forall>r\<in>set (update_rows p g t). ok r"
    using assms(1,3) arith by (auto simp: rows_hold_def update_rows_member)
  ultimately show ?thesis by (simp add: u rows_hold_def)
qed

lemma retry_read_held:
  assumes "table_wf t" "retry_read e request t = Inr entity"
  shows "held_job t (csr_ID request) (csr_WorkerID request) = Some entity"
proof -
  obtain t' where "dao_JobGetByID_Exec e \<lparr> dgi_ID = csr_ID request \<rparr> t = (Inr entity, t')"
    using assms(2) by (cases "dao_JobGetByID_Exec e \<lparr> dgi_ID = csr_ID request \<rparr> t")
      (auto simp: retry_read_eq split: sum.splits if_splits)
  then have "find_job t (csr_ID request) = Some entity"
    "dao_JobGetByID_Exec e \<lparr> dgi_ID = csr_ID request \<rparr> t = (Inr entity, t')"
    using dao_JobGetByID_Exec_Inr [OF assms(1)] by blast+
  then show ?thesis
    using assms(2) find_job_SomeD [of t "csr_ID request" entity]
    by (auto simp: retry_read_eq held_job_def holds_claim_def split: if_splits)
qed

locale row_contract =
  fixes days :: int and ok :: "job \<Rightarrow> bool"
  assumes inserted: "enqueue_accepted request p \<Longrightarrow> ok (inserted_row e request p)"
    and claimed: "ok r \<Longrightarrow> job_Status r = JobStatusPending \<Longrightarrow> claim_arith r = None \<Longrightarrow> ok (claim_row e w l r)"
    and settled: "ok r \<Longrightarrow> job_Status r = JobStatusClaimed \<Longrightarrow> clock_within e t0 t1 \<Longrightarrow>
      s = JobStatusSucceeded \<and> b = None \<or> s = JobStatusFailed \<and> a = None \<Longrightarrow> ok (settle_row e s a b days r)"
    and reaped: "ok r \<Longrightarrow> job_Status r = JobStatusClaimed \<Longrightarrow> clock_within e t0 t1 \<Longrightarrow> ok (reap_row e a days r)"
    and requeued: "ok r \<Longrightarrow> job_Status r = JobStatusClaimed \<Longrightarrow>
      sint (job_Attempt r) < sint (job_MaxAttempts r) \<Longrightarrow> ok (requeue_row e r)"
begin

lemma sql_jobSettle_holds:
  assumes "rows_hold ok t" "clock_within e t0 t1"
    and "s = JobStatusSucceeded \<and> b = None \<or> s = JobStatusFailed \<and> a = None" "json_documented x"
  shows "rows_hold ok (snd (sql_jobSettle x e u w s a b days t))"
  unfolding sql_jobSettle_def
  using assms
  by (auto split: option.split intro!: update_returning_holds [OF _ settle_guarded] settled
      simp: holds_claim_def)

lemma enqueue_holds: "rows_hold ok t \<Longrightarrow> rows_hold ok (snd (JobEnqueue_Exec x e v request t))"
proof -
  assume t: "rows_hold ok t"
  have "rows_hold ok (snd (sql_jobEnqueue x e q t))" for q
    by (rule sql_jobEnqueue_table [of x e q t])
      (use t in \<open>auto simp: rows_hold_def intro: insert_wf inserted\<close>)
  then show ?thesis
    using t by (auto simp: JobEnqueue_Exec_eq dao_JobEnqueue_Exec_def intro: dao_query_holds split: option.split)
qed

lemma claim_holds: "rows_hold ok t \<Longrightarrow> rows_hold ok (snd (JobClaim_Exec x e request t))"
proof -
  assume t: "rows_hold ok t"
  have "rows_hold ok (snd (sql_jobClaim e k n w l t))" for k n w l
    unfolding sql_jobClaim_def
    by (rule update_returning_holds [OF t claim_guarded])
      (auto intro: claimed dest!: claim_guard_due(1) [OF rows_hold_wf [OF t]] simp: claim_due_def)
  then show ?thesis
    using t by (auto simp: JobClaim_Exec_eq dao_JobClaim_Exec_def intro: dao_query_holds)
qed

lemma reap_holds:
  "rows_hold ok t \<Longrightarrow> clock_within e t0 t1 \<Longrightarrow> rows_hold ok (snd (JobReap_Exec x e days t))"
proof -
  assume t: "rows_hold ok t" and clock: "clock_within e t0 t1"
  have "rows_hold ok (snd (sql_jobReap x e a days t))" for a
    unfolding sql_jobReap_def
    using t clock by (auto split: option.split intro!: update_returning_holds [OF _ reap_guarded] reaped
        simp: reapable_def)
  then show ?thesis
    using t by (auto simp: JobReap_Exec_eq dao_JobReap_Exec_def intro: dao_query_holds)
qed

lemma settle_holds:
  assumes "rows_hold ok t" "clock_within e t0 t1" "json_documented x"
    and "s = JobStatusSucceeded \<and> b = None \<or> s = JobStatusFailed \<and> a = None"
  shows "rows_hold ok (snd (JobSettle_settle x e days request s a b t))"
  unfolding JobSettle_settle_eq dao_JobSettle_Exec_def settle_request_def
  using assms by (auto intro!: dao_query_holds intro: sql_jobSettle_holds)

lemma purge_holds: "rows_hold ok t \<Longrightarrow> rows_hold ok (sql_purge e t)"
  by (auto simp: rows_hold_def sql_purge_wf) (simp add: sql_purge_def)

text \<open>A requeue keeps it if it does so on the row the worker holds, and so does the retry's second statement.\<close>

lemma requeue_holds:
  assumes "rows_hold ok t" "\<And>r. held_job t u w = Some r \<Longrightarrow> ok r \<Longrightarrow> ok (requeue_row e r)"
  shows "rows_hold ok (snd (sql_jobRequeue e u w t))"
proof (cases "held_job t u w")
  case None
  then show ?thesis using assms(1) sql_jobRequeue_cases [OF rows_hold_wf [OF assms(1)]] by simp
next
  case (Some r)
  have "s = r" if "s \<in> set t" "holds_claim u w s" for s
    using that held_job_SomeD [OF Some] table_wf_unique [OF rows_hold_wf [OF assms(1)], of s r]
    by (simp add: holds_claim_def)
  then show ?thesis
    unfolding sql_jobRequeue_def using assms(1,2) Some
    by (intro update_returning_holds [OF _ requeue_guarded]) auto
qed

lemma retry_write_holds:
  assumes "rows_hold ok t" "clock_within e t0 t1" "json_documented x"
    and "\<And>r. held_job t (csr_ID request) (csr_WorkerID request) = Some r
      \<Longrightarrow> sint (job_Attempt entity) < sint (job_MaxAttempts entity) \<Longrightarrow> ok r \<Longrightarrow> ok (requeue_row e r)"
  shows "rows_hold ok (snd (retry_write x e days request failure entity t))"
proof (cases "job_Attempt entity <s job_MaxAttempts entity")
  case True
  then show ?thesis
    using assms(1,4) by (auto simp: retry_write_eq dao_JobRequeue_Exec_def sless_sint
        intro!: dao_query_holds requeue_holds)
next
  case False
  then show ?thesis
    using assms(1-3) by (auto simp: retry_write_eq dao_JobSettle_Exec_def settle_request_def
        intro!: dao_query_holds intro: sql_jobSettle_holds)
qed

text \<open>
  When no other session writes in between, the job the second statement meets is the one the first
  read, so the attempt check speaks about the row it is applied to.
\<close>

lemma settle_exec_holds:
  assumes "rows_hold ok t" "clock_within e1 t0 t1" "clock_within e2 t1 t2" "json_documented x"
    and "tx_between tx = (\<lambda>t. t)"
  shows "rows_hold ok (snd (JobSettle_Exec x tx e1 e2 days request t))"
proof (rule JobSettle_Exec_alone [OF assms(5), of x e1 e2 days request t])
  fix s a b
  assume "snd (JobSettle_Exec x tx e1 e2 days request t) =
      snd (dao_JobSettle_Exec x e1 (settle_request days request s a b) t)"
    "csr_Failure request = None \<and> s = JobStatusSucceeded \<and> b = None \<or>
      (\<exists>f. csr_Failure request = Some f \<and> \<not> fl_Retryable f) \<and> s = JobStatusFailed \<and> a = None"
  then show ?thesis
    using settle_holds [OF assms(1,2,4), of s b a request] by (auto simp: JobSettle_settle_eq)
next
  fix f entity
  assume read: "retry_read e1 request t = Inr entity"
    and exec: "snd (JobSettle_Exec x tx e1 e2 days request t) = snd (retry_write x e2 days request f entity t)"
  note held = retry_read_held [OF rows_hold_wf [OF assms(1)] read]
  show ?thesis
    unfolding exec using held_job_SomeD [OF held] held
    by (intro retry_write_holds [OF assms(1,3,4)]) (auto intro: requeued simp: holds_claim_def)
qed (use assms(1) in simp)

end

interpretation within_rows: row_contract days "row_within days k"
  for days k
proof
  show "sint (job_Attempt r) < sint (job_MaxAttempts r) \<Longrightarrow> row_within days k (requeue_row e r)"
    if "row_within days k r" "job_Status r = JobStatusClaimed" for r e
    using that by (simp add: requeue_row_within)
qed (fact inserted_row_within claim_row_within settle_row_within reap_row_within)+

interpretation inv_rows: row_contract days "row_inv days"
  for days
  using within_rows.row_contract_axioms [of days "\<lambda>_. 0"] by (simp add: row_within_none)

lemma sql_purge_inv: "queue_inv days t \<Longrightarrow> queue_inv days (sql_purge e t)"
  unfolding queue_inv_rows by (rule inv_rows.purge_holds)

lemma JobEnqueue_Exec_inv: "queue_inv days t \<Longrightarrow> queue_inv days (snd (JobEnqueue_Exec x e v request t))"
  unfolding queue_inv_rows by (rule inv_rows.enqueue_holds)

lemma JobClaim_Exec_inv: "queue_inv days t \<Longrightarrow> queue_inv days (snd (JobClaim_Exec x e request t))"
  unfolding queue_inv_rows by (rule inv_rows.claim_holds)

lemma JobReap_Exec_inv:
  "queue_inv days t \<Longrightarrow> clock_within e t0 t1 \<Longrightarrow> queue_inv days (snd (JobReap_Exec x e days t))"
  unfolding queue_inv_rows by (rule inv_rows.reap_holds)

lemma JobSettle_Exec_inv:
  assumes "queue_inv days t" "clock_within e1 t0 t1" "clock_within e2 t1 t2" "json_documented x"
    and "tx_between tx = (\<lambda>t. t)"
  shows "queue_inv days (snd (JobSettle_Exec x tx e1 e2 days request t))"
  using assms unfolding queue_inv_rows by (rule inv_rows.settle_exec_holds)

end
