(* ===== verification/QueueSystem.thy ===== *)
theory QueueSystem
  imports QueueInv
begin

text \<open>
  The queue as a whole: the services of \<open>internal/core\<close> composed as \<open>cmd/grpc/main.go\<close> wires
  them, run in any order by any number of callers, workers and reapers over one table, with
  the purge the database schedules. A world is the table, the database clock and the
  identifiers minted so far. \<open>uuid.NewV7\<close> never mints an identifier twice. Here the retry
  path's transaction runs alone; what happens when it does not is in \<^emph>\<open>RetryRace\<close>.
\<close>

definition jobRetentionDays :: int where
  "jobRetentionDays = 7"

record world =
  w_table :: table
  w_now :: time
  w_minted :: "uuid list"

datatype event =
    EvEnqueue core_JobEnqueueRequest "gerr + JobEnqueueResult"
  | EvClaim core_JobClaimRequest "gerr + core_Job list"
  | EvSettle core_JobSettleRequest "gerr + core_Job"
  | EvReap "gerr + core_Job list"
  | EvPurge

inductive queue_step :: "ext \<Rightarrow> world \<Rightarrow> event \<Rightarrow> world \<Rightarrow> bool" for x where
  enqueue: "clock_within e (w_now w) now' \<Longrightarrow> u \<notin> set (w_minted w) \<Longrightarrow>
     JobEnqueue_Exec x e (Some u) request (w_table w) = (res, t') \<Longrightarrow>
     queue_step x w (EvEnqueue request res) \<lparr> w_table = t', w_now = now', w_minted = u # w_minted w \<rparr>"
| claim: "clock_within e (w_now w) now' \<Longrightarrow>
     JobClaim_Exec x e request (w_table w) = (res, t') \<Longrightarrow>
     queue_step x w (EvClaim request res) \<lparr> w_table = t', w_now = now', w_minted = w_minted w \<rparr>"
| settle: "clock_within e1 (w_now w) mid \<Longrightarrow> clock_within e2 mid now' \<Longrightarrow>
     tx_between tx = (\<lambda>t. t) \<Longrightarrow>
     JobSettle_Exec x tx e1 e2 jobRetentionDays request (w_table w) = (res, t') \<Longrightarrow>
     queue_step x w (EvSettle request res) \<lparr> w_table = t', w_now = now', w_minted = w_minted w \<rparr>"
| reap: "clock_within e (w_now w) now' \<Longrightarrow>
     JobReap_Exec x e jobRetentionDays (w_table w) = (res, t') \<Longrightarrow>
     queue_step x w (EvReap res) \<lparr> w_table = t', w_now = now', w_minted = w_minted w \<rparr>"
| purge: "clock_within e (w_now w) now' \<Longrightarrow>
     queue_step x w EvPurge \<lparr> w_table = sql_purge e (w_table w), w_now = now', w_minted = w_minted w \<rparr>"

inductive_cases queue_step_enqueueE: "queue_step x w (EvEnqueue request res) w'"
inductive_cases queue_step_claimE: "queue_step x w (EvClaim request res) w'"
inductive_cases queue_step_purgeE: "queue_step x w EvPurge w'"

text \<open>A run records its events, oldest first.\<close>

inductive queue_run :: "ext \<Rightarrow> world \<Rightarrow> event list \<Rightarrow> world \<Rightarrow> bool" for x w where
  start: "queue_run x w [] w"
| step: "queue_run x w es w1 \<Longrightarrow> queue_step x w1 ev w2 \<Longrightarrow> queue_run x w (es @ [ev]) w2"

definition empty_world :: "time \<Rightarrow> world" where
  "empty_world now = \<lparr> w_table = [], w_now = now, w_minted = [] \<rparr>"

section \<open>The invariant in every reachable world\<close>

definition world_inv :: "world \<Rightarrow> bool" where
  "world_inv w \<longleftrightarrow>
     queue_inv jobRetentionDays (w_table w) \<and> set (map job_ID (w_table w)) \<subseteq> set (w_minted w)"

lemma world_inv_empty [simp]: "world_inv (empty_world now)"
  by (simp add: world_inv_def empty_world_def)

text \<open>Rows keep their identifiers, and only an enqueue adds one, the minted one.\<close>

lemma update_returning_ids:
  "(\<And>r. job_ID (g r) = job_ID r) \<Longrightarrow> map job_ID (snd (update_returning ord p arith g t)) = map job_ID t"
  by (rule update_returning_cases [of ord p arith g t]) (simp_all add: update_rows_ids)

lemma dao_query_ids:
  "set (map job_ID (snd (q t))) \<subseteq> A \<Longrightarrow> set (map job_ID t) \<subseteq> A
     \<Longrightarrow> set (map job_ID (snd (dao_query e f scan q t))) \<subseteq> A"
  using dao_query_table [of e f scan q t] by auto

lemma JobEnqueue_Exec_ids:
  "set (map job_ID (snd (JobEnqueue_Exec x e (Some u) request t))) \<subseteq> insert u (set (map job_ID t))"
proof -
  have "set (map job_ID (snd (sql_jobEnqueue x e r t))) \<subseteq> insert (der_ID r) (set (map job_ID t))" for r
    by (rule sql_jobEnqueue_table [of x e r t]) (auto simp: inserted_row_def)
  then have *: "set (map job_ID (snd (dao_JobEnqueue_Exec x e r t))) \<subseteq> insert (der_ID r) (set (map job_ID t))" for r
    unfolding dao_JobEnqueue_Exec_def by (rule dao_query_ids) auto
  from * [of "enqueue_request u request"] show ?thesis by (auto simp: JobEnqueue_Exec_eq)
qed

lemma sql_jobSettle_ids: "map job_ID (snd (sql_jobSettle x e u w s a b d t)) = map job_ID t"
  by (simp add: sql_jobSettle_def update_returning_ids row_simps split: option.split)

lemma sql_jobRequeue_ids: "map job_ID (snd (sql_jobRequeue e u w t)) = map job_ID t"
  by (simp add: sql_jobRequeue_def update_returning_ids row_simps)

lemma dao_query_same_ids:
  "map job_ID (snd (q t)) = map job_ID t \<Longrightarrow> map job_ID (snd (dao_query e f scan q t)) = map job_ID t"
  using dao_query_table [of e f scan q t] by auto

lemma JobClaim_Exec_ids: "map job_ID (snd (JobClaim_Exec x e request t)) = map job_ID t"
  by (simp add: JobClaim_Exec_eq dao_JobClaim_Exec_def dao_query_same_ids sql_jobClaim_def
      update_returning_ids row_simps)

lemma JobReap_Exec_ids: "map job_ID (snd (JobReap_Exec x e days t)) = map job_ID t"
  by (simp add: JobReap_Exec_eq dao_JobReap_Exec_def dao_query_same_ids sql_jobReap_def
      update_returning_ids row_simps split: option.split)

lemma retry_write_ids: "map job_ID (snd (retry_write x e days request failure entity t)) = map job_ID t"
  by (simp add: retry_write_eq dao_JobRequeue_Exec_def dao_JobSettle_Exec_def dao_query_same_ids
      sql_jobSettle_ids sql_jobRequeue_ids)

lemma JobSettle_Exec_ids:
  assumes "tx_between tx = (\<lambda>t. t)"
  shows "map job_ID (snd (JobSettle_Exec x tx e1 e2 days request t)) = map job_ID t"
  by (rule JobSettle_Exec_alone [OF assms, of x e1 e2 days request t])
    (simp_all add: retry_write_ids dao_JobSettle_Exec_def dao_query_same_ids sql_jobSettle_ids)

lemma sql_purge_ids: "set (map job_ID (sql_purge e t)) \<subseteq> set (map job_ID t)"
  by (auto simp: sql_purge_def)

lemma queue_step_inv:
  assumes "queue_step x w ev w'" "world_inv w" "json_documented x"
  shows "world_inv w'"
  using assms
proof (induction rule: queue_step.induct)
  case (enqueue e w now' u request res t')
  then have "t' = snd (JobEnqueue_Exec x e (Some u) request (w_table w))" by simp
  moreover have "set (map job_ID t') \<subseteq> insert u (set (w_minted w))"
    using enqueue.prems(1) JobEnqueue_Exec_ids [of x e u request "w_table w"]
    unfolding calculation world_inv_def by (meson insert_mono order_trans)
  ultimately show ?case
    using enqueue.prems(1) by (simp add: world_inv_def JobEnqueue_Exec_inv)
next
  case (claim e w now' request res t')
  then have "t' = snd (JobClaim_Exec x e request (w_table w))" by simp
  then show ?case
    using claim.prems JobClaim_Exec_inv JobClaim_Exec_ids [of x e request "w_table w"]
    by (simp add: world_inv_def flip: set_map)
next
  case (settle e1 w mid e2 now' tx request res t')
  then have t': "t' = snd (JobSettle_Exec x tx e1 e2 jobRetentionDays request (w_table w))" by simp
  have "queue_inv jobRetentionDays t'"
    unfolding t'
    by (rule JobSettle_Exec_inv [OF _ settle(1,2) settle.prems(2) settle(3)])
      (use settle.prems(1) in \<open>simp add: world_inv_def\<close>)
  then show ?case
    using settle.prems(1) JobSettle_Exec_ids [OF settle(3), of x e1 e2 jobRetentionDays request "w_table w"]
    unfolding world_inv_def t' by simp
next
  case (reap e w now' res t')
  then have t': "t' = snd (JobReap_Exec x e jobRetentionDays (w_table w))" by simp
  have "queue_inv jobRetentionDays t'"
    unfolding t'
    by (rule JobReap_Exec_inv [OF _ reap(1)]) (use reap.prems(1) in \<open>simp add: world_inv_def\<close>)
  then show ?case
    using reap.prems(1) JobReap_Exec_ids [of x e jobRetentionDays "w_table w"]
    unfolding world_inv_def t' by simp
next
  case (purge e w now')
  then show ?case
    using sql_purge_inv order_trans [OF sql_purge_ids [of e "w_table w"]]
    by (simp add: world_inv_def del: set_map)
qed

lemma queue_run_inv:
  "queue_run x w es w' \<Longrightarrow> world_inv w \<Longrightarrow> json_documented x \<Longrightarrow> world_inv w'"
  by (induction rule: queue_run.induct) (auto intro: queue_step_inv)

end
