(* ===== verification/QueueRuns.thy ===== *)
theory QueueRuns
  imports QueueSystem
begin

text \<open>
  What holds along every run of the queue: how a job moves from one world to the next, how
  many runs a job can get, and how long a settled record lives.
\<close>

section \<open>One job across one step\<close>

lemma world_inv_wf: "world_inv w \<Longrightarrow> table_wf (w_table w)"
  unfolding world_inv_def by (blast intro: queue_inv_wf)

lemma queue_step_job_wf:
  assumes "queue_step x w ev w'" "table_wf (w_table w)" "ev \<noteq> EvPurge" "find_job (w_table w) u = Some r"
  shows "\<exists>s. find_job (w_table w') u = Some s \<and> job_evolves r s"
  using assms
proof (induction rule: queue_step.induct)
  case (enqueue e w now' v request res t')
  then have "t' = snd (JobEnqueue_Exec x e (Some v) request (w_table w))" by simp
  then show ?case
    using enqueue_core.keeps_job [OF enqueue.prems(1,3)] by simp
next
  case (claim e w now' request res t')
  then have "t' = snd (JobClaim_Exec x e request (w_table w))" by simp
  then show ?case
    using claim_core.keeps_job [OF claim.prems(1,3)] by simp
next
  case (settle e1 w mid e2 now' tx request res t')
  then have t': "t' = snd (JobSettle_Exec x tx e1 e2 jobRetentionDays request (w_table w))" by simp
  note wf = settle.prems(1)
  have "table_wf t'" "table_evolves (w_table w) t'"
    using JobSettle_Exec_tables [OF wf, of tx x e1 e2 jobRetentionDays request] wf settle(3)
    by (simp_all add: t')
  then show ?case using table_evolves_find settle.prems by simp
next
  case (reap e w now' res t')
  then have "t' = snd (JobReap_Exec x e jobRetentionDays (w_table w))" by simp
  then show ?case
    using reap_core.keeps_job [OF reap.prems(1,3)] by simp
qed simp

lemma queue_step_job:
  "queue_step x w ev w' \<Longrightarrow> world_inv w \<Longrightarrow> ev \<noteq> EvPurge \<Longrightarrow> find_job (w_table w) u = Some r
     \<Longrightarrow> \<exists>s. find_job (w_table w') u = Some s \<and> job_evolves r s"
  using queue_step_job_wf world_inv_wf by blast

lemma find_job_None_iff: "find_job t u = None \<longleftrightarrow> u \<notin> set (map job_ID t)"
  by (auto simp: find_job_def find_None_iff)

text \<open>A job appears only when its identifier is minted, and never again after that.\<close>

lemma queue_step_absent:
  assumes "queue_step x w ev w'" "u \<in> set (w_minted w)" "find_job (w_table w) u = None"
  shows "find_job (w_table w') u = None"
  using assms
proof (induction rule: queue_step.induct)
  case (enqueue e w now' v request res t')
  then have "t' = snd (JobEnqueue_Exec x e (Some v) request (w_table w))" by simp
  then show ?case
    using enqueue JobEnqueue_Exec_ids [of x e v request "w_table w"]
    by (auto simp: find_job_None_iff simp del: set_map)
next
  case (claim e w now' request res t')
  then have "t' = snd (JobClaim_Exec x e request (w_table w))" by simp
  then show ?case using claim.prems by (simp add: find_job_None_iff JobClaim_Exec_ids del: set_map)
next
  case (settle e1 w mid e2 now' tx request res t')
  then have "t' = snd (JobSettle_Exec x tx e1 e2 jobRetentionDays request (w_table w))" by simp
  then show ?case
    using settle.prems settle(3) by (simp add: find_job_None_iff JobSettle_Exec_ids del: set_map)
next
  case (reap e w now' res t')
  then have "t' = snd (JobReap_Exec x e jobRetentionDays (w_table w))" by simp
  then show ?case using reap.prems by (simp add: find_job_None_iff JobReap_Exec_ids del: set_map)
next
  case (purge e w now')
  then show ?case using sql_purge_ids [of e "w_table w"] by (auto simp: find_job_None_iff simp del: set_map)
qed

lemma queue_step_absent_or_minted:
  "queue_step x w ev w' \<Longrightarrow> find_job (w_table w') u \<noteq> None \<Longrightarrow> u \<notin> set (map job_ID (w_table w))
     \<Longrightarrow> u \<notin> set (w_minted w) \<Longrightarrow> u \<in> set (w_minted w')"
proof (induction rule: queue_step.induct)
  case (enqueue e w now' v request res t')
  then have "t' = snd (JobEnqueue_Exec x e (Some v) request (w_table w))" by simp
  then show ?case
    using enqueue.prems JobEnqueue_Exec_ids [of x e v request "w_table w"]
    by (auto simp: find_job_None_iff simp del: set_map)
next
  case (claim e w now' request res t')
  then have "t' = snd (JobClaim_Exec x e request (w_table w))" by simp
  then show ?case using claim.prems by (simp add: find_job_None_iff JobClaim_Exec_ids del: set_map)
next
  case (settle e1 w mid e2 now' tx request res t')
  then have "t' = snd (JobSettle_Exec x tx e1 e2 jobRetentionDays request (w_table w))" by simp
  then show ?case
    using settle.prems settle(3) by (simp add: find_job_None_iff JobSettle_Exec_ids del: set_map)
next
  case (reap e w now' res t')
  then have "t' = snd (JobReap_Exec x e jobRetentionDays (w_table w))" by simp
  then show ?case using reap.prems by (simp add: find_job_None_iff JobReap_Exec_ids del: set_map)
next
  case (purge e w now')
  then show ?case using sql_purge_ids [of e "w_table w"] by (auto simp: find_job_None_iff simp del: set_map)
qed

lemma queue_step_minted: "queue_step x w ev w' \<Longrightarrow> set (w_minted w) \<subseteq> set (w_minted w')"
  by (induction rule: queue_step.induct) auto

lemma queue_step_clock: "queue_step x w ev w' \<Longrightarrow> w_now w \<le> w_now w'"
proof (induction rule: queue_step.induct)
  case (settle e1 w mid e2 now' tx request res t')
  have "w_now w \<le> mid" "mid \<le> now'"
    using clock_within_bounds(1,2) [OF settle(1), of 0 0] clock_within_bounds(1,2) [OF settle(2), of 0 0]
    by simp_all
  then show ?case by simp
next
  case (enqueue e w now' u request res t')
  then show ?case using clock_within_bounds(1,2) [OF enqueue(1), of 0 0] by simp
next
  case (claim e w now' request res t')
  then show ?case using clock_within_bounds(1,2) [OF claim(1), of 0 0] by simp
next
  case (reap e w now' res t')
  then show ?case using clock_within_bounds(1,2) [OF reap(1), of 0 0] by simp
next
  case (purge e w now')
  then show ?case using clock_within_bounds(1,2) [OF purge, of 0 0] by simp
qed

lemma queue_step_purge_job_wf:
  assumes "queue_step x w EvPurge w'" "table_wf (w_table w)" "find_job (w_table w) u = Some r"
  shows "find_job (w_table w') u = Some r \<or>
    find_job (w_table w') u = None \<and> (\<exists>l. job_ExpiresAt r = Some l \<and> l < w_now w')"
proof (rule queue_step_purgeE [OF assms(1)])
  fix e now'
  assume w': "w' = \<lparr>w_table = sql_purge e (w_table w), w_now = now', w_minted = w_minted w\<rparr>"
    and clock: "clock_within e (w_now w) now'"
  note wf = assms(2)
  show ?thesis
    using assms(3) w' clock_within_bounds(2) [OF clock, of "job_ID r" 0]
    by (auto simp: find_job_purge [OF wf] purgeable_def split: option.splits)
qed

lemma queue_step_purge_job:
  "queue_step x w EvPurge w' \<Longrightarrow> world_inv w \<Longrightarrow> find_job (w_table w) u = Some r
     \<Longrightarrow> find_job (w_table w') u = Some r \<or>
       find_job (w_table w') u = None \<and> (\<exists>l. job_ExpiresAt r = Some l \<and> l < w_now w')"
  using queue_step_purge_job_wf world_inv_wf by blast

section \<open>Claims\<close>

lemma JobClaim_Exec_Inr:
  assumes "table_wf t" "JobClaim_Exec x e request t = (Inr js, t')"
  shows "valid_claim x request" "js = map jobToCore (claim_batch e (claim_request request) t)"
    and "t' = update_rows (claim_guard e (ccr_Kinds request) (ccr_Limit request) t)
      (claim_row e (ccr_WorkerID request) (ccr_LeaseSeconds request)) t"
proof -
  from assms(2) have v: "valid_claim x request" by (auto simp: JobClaim_Exec_eq split: if_splits)
  with assms(2) obtain batch where b: "dao_JobClaim_Exec e (claim_request request) t = (Inr batch, t')"
    and js: "js = map jobToCore batch"
    by (auto simp: JobClaim_Exec_eq via_dao_Inr)
  show "valid_claim x request" by (rule v)
  show "js = map jobToCore (claim_batch e (claim_request request) t)"
    using js dao_JobClaim_Exec_Inr(1) [OF assms(1) b] by simp
  show "t' = update_rows (claim_guard e (ccr_Kinds request) (ccr_Limit request) t)
      (claim_row e (ccr_WorkerID request) (ccr_LeaseSeconds request)) t"
    using dao_JobClaim_Exec_Inr(2) [OF assms(1) b] by (simp add: claim_request_def)
qed

lemma claim_request_simps [simp]:
  "dcr_Kinds (claim_request r) = ccr_Kinds r" "dcr_WorkerID (claim_request r) = ccr_WorkerID r"
  "dcr_Limit (claim_request r) = ccr_Limit r" "dcr_LeaseSeconds (claim_request r) = ccr_LeaseSeconds r"
  by (simp_all add: claim_request_def)

text \<open>A claim that answers met no attempt count at the end of its range.\<close>

lemma JobClaim_Exec_arith:
  assumes "JobClaim_Exec x e request t = (Inr js, t')" "r \<in> set t"
    and "claim_guard e (ccr_Kinds request) (ccr_Limit request) t r"
  shows "claim_arith r = None"
proof -
  from assms(1) obtain batch where "dao_JobClaim_Exec e (claim_request request) t = (Inr batch, t')"
    by (auto simp: JobClaim_Exec_eq via_dao_Inr split: if_splits)
  then have u: "update_returning (st_order e) (claim_guard e (ccr_Kinds request) (ccr_Limit request) t)
      claim_arith (claim_row e (ccr_WorkerID request) (ccr_LeaseSeconds request)) t = (Inr batch, t')"
    by (auto simp: dao_JobClaim_Exec_def sql_jobClaim_def claim_request_def split: if_splits elim!: dao_query_Inr)
  show ?thesis
    by (rule update_returning_cases [of "st_order e" "claim_guard e (ccr_Kinds request) (ccr_Limit request) t"
        claim_arith "claim_row e (ccr_WorkerID request) (ccr_LeaseSeconds request)" t])
      (use u assms(2,3) in auto)
qed

text \<open>A job in a batch was pending before, and is the claimed row after.\<close>

lemma claimed_job:
  assumes "table_wf t" "JobClaim_Exec x e request t = (Inr js, t')" "u \<in> set (map cj_ID js)"
  obtains r where "find_job t u = Some r" "claim_due e (ccr_Kinds request) r"
    "\<not> st_locked e u" "claim_arith r = None"
    "find_job t' u = Some (claim_row e (ccr_WorkerID request) (ccr_LeaseSeconds request) r)"
proof -
  note inr = JobClaim_Exec_Inr [OF assms(1,2)]
  have "cj_ID \<circ> jobToCore = job_ID" by (simp add: fun_eq_iff)
  then have "u \<in> job_ID ` set (claim_batch e (claim_request request) t)"
    using assms(3) by (simp add: inr(2) image_image)
  then obtain r where r: "r \<in> set (claimable e (ccr_Kinds request) (ccr_Limit request) t)" "job_ID r = u"
    by (auto simp: claim_batch_set [OF assms(1)] row_simps)
  then have due: "r \<in> set t" "claim_due e (ccr_Kinds request) r" "\<not> st_locked e u"
    using claimable_in_table [OF r(1)] by auto
  then have f: "find_job t u = Some r" using find_job_eq [OF assms(1), of r] r(2) by simp
  have guard: "claim_guard e (ccr_Kinds request) (ccr_Limit request) t r"
    using claim_guard_iff [OF assms(1) due(1)] r(1) by simp
  then have "find_job t' u = Some (claim_row e (ccr_WorkerID request) (ccr_LeaseSeconds request) r)"
    using f by (simp add: inr(3) find_job_update row_simps)
  moreover have "claim_arith r = None" using JobClaim_Exec_arith [OF assms(2) due(1) guard] .
  ultimately show ?thesis using that f due by blast
qed

definition claims_job :: "uuid \<Rightarrow> event \<Rightarrow> bool" where
  "claims_job u ev \<longleftrightarrow> (case ev of EvClaim _ (Inr js) \<Rightarrow> u \<in> set (map cj_ID js) | _ \<Rightarrow> False)"

definition claims_in :: "uuid \<Rightarrow> event list \<Rightarrow> nat" where
  "claims_in u es = length (filter (claims_job u) es)"

lemma claims_in_simps [simp]:
  "claims_in u [] = 0"
  "claims_in u (es @ [ev]) = (if claims_job u ev then Suc (claims_in u es) else claims_in u es)"
  by (simp_all add: claims_in_def)

lemma claims_job_step:
  assumes "queue_step x w ev w'" "table_wf (w_table w)" "claims_job u ev"
  shows "\<exists>r s. find_job (w_table w) u = Some r \<and> find_job (w_table w') u = Some s \<and>
    sint (job_Attempt s) = sint (job_Attempt r) + 1"
proof -
  obtain request js where ev: "ev = EvClaim request (Inr js)" "u \<in> set (map cj_ID js)"
    using assms(3) by (auto simp: claims_job_def split: event.splits sum.splits)
  show ?thesis
  proof (rule queue_step_claimE [OF assms(1) [unfolded ev(1)]])
    fix e now' t'
    assume w': "w' = \<lparr>w_table = t', w_now = now', w_minted = w_minted w\<rparr>"
      and exec: "JobClaim_Exec x e request (w_table w) = (Inr js, t')"
    obtain r where r: "find_job (w_table w) u = Some r"
        "find_job t' u = Some (claim_row e (ccr_WorkerID request) (ccr_LeaseSeconds request) r)"
        "claim_arith r = None"
      using claimed_job [OF assms(2) exec ev(2)] by blast
    then show ?thesis using w' by (simp add: row_simps sint16_succ claim_arith_None_iff)
  qed
qed

text \<open>The claims of a run are counted by the attempt column of the record.\<close>

definition claims_counted :: "event list \<Rightarrow> world \<Rightarrow> bool" where
  "claims_counted es w \<longleftrightarrow>
     (\<forall>u. u \<notin> set (w_minted w) \<longrightarrow> claims_in u es = 0) \<and>
     (\<forall>u r. find_job (w_table w) u = Some r \<longrightarrow> int (claims_in u es) \<le> sint (job_Attempt r))"

lemma claims_counted_step:
  assumes step: "queue_step x w ev w'" and wf: "table_wf (w_table w)" "table_wf (w_table w')"
    and ids: "set (map job_ID (w_table w)) \<subseteq> set (w_minted w)" and IH: "claims_counted es w"
  shows "claims_counted (es @ [ev]) w'"
  unfolding claims_counted_def
proof (intro conjI allI impI)
  fix u
  assume "u \<notin> set (w_minted w')"
  then have u: "u \<notin> set (w_minted w)" using queue_step_minted [OF step] by blast
  then have "find_job (w_table w) u = None"
    using ids by (auto simp: find_job_None_iff)
  then show "claims_in u (es @ [ev]) = 0"
    using claims_job_step [OF step wf(1), of u] IH u by (auto simp: claims_counted_def)
next
  fix u s
  assume s: "find_job (w_table w') u = Some s"
  show "int (claims_in u (es @ [ev])) \<le> sint (job_Attempt s)"
  proof (cases "find_job (w_table w) u")
    case None
    then have "u \<notin> set (w_minted w)" using queue_step_absent [OF step _ None] s by auto
    moreover have "\<not> claims_job u ev" using claims_job_step [OF step wf(1), of u] None by auto
    moreover have "0 \<le> sint (job_Attempt s)"
      using table_wf_row [OF wf(2), of s] find_job_SomeD [OF s] by (simp add: row_ok_iff)
    ultimately show ?thesis using IH by (simp add: claims_counted_def)
  next
    case (Some r)
    then have le: "int (claims_in u es) \<le> sint (job_Attempt r)" using IH by (simp add: claims_counted_def)
    show ?thesis
    proof (cases "claims_job u ev")
      case True
      then show ?thesis using claims_job_step [OF step wf(1) True] Some s le by auto
    next
      case False
      have "sint (job_Attempt r) \<le> sint (job_Attempt s)"
      proof (cases "ev = EvPurge")
        case True
        then show ?thesis using queue_step_purge_job_wf [of x w w' u r] step wf(1) Some s by auto
      next
        case False
        then show ?thesis using queue_step_job_wf [OF step wf(1) False Some] s by (auto simp: job_evolves_def)
      qed
      then show ?thesis using False le by simp
    qed
  qed
qed

lemma queue_run_claims:
  "queue_run x (empty_world now) es w \<Longrightarrow> json_documented x \<Longrightarrow> claims_counted es w"
proof (induction rule: queue_run.induct)
  case start
  show ?case by (simp add: claims_counted_def empty_world_def find_job_def)
next
  case (step es w1 ev w2)
  have inv: "world_inv w1" "world_inv w2"
    using queue_run_inv [OF step(1)] queue_step_inv [OF step(2)] step.prems by simp_all
  then show ?case
    using step.IH step.prems
    by (intro claims_counted_step [OF step(2)]) (simp_all add: world_inv_wf, simp add: world_inv_def)
qed

section \<open>Terminal records\<close>

lemma queue_run_terminal:
  assumes "queue_run x w es w'" "world_inv w" "json_documented x"
    and "find_job (w_table w) u = Some r" "sql_terminal (job_Status r)"
  shows "find_job (w_table w') u = Some r \<or>
    find_job (w_table w') u = None \<and> EvPurge \<in> set es \<and>
      (\<exists>l. job_ExpiresAt r = Some l \<and> l < w_now w') \<and> u \<in> set (w_minted w')"
  using assms
proof (induction rule: queue_run.induct)
  case start
  then show ?case by simp
next
  case (step es w1 ev w2)
  have inv: "world_inv w1" by (rule queue_run_inv [OF step(1) step.prems(1,2)])
  from step.IH [OF step.prems] show ?case
  proof
    assume here: "find_job (w_table w1) u = Some r"
    then have minted: "u \<in> set (w_minted w1)"
      using inv find_job_SomeD [OF here] by (auto simp: world_inv_def)
    show ?thesis
    proof (cases "ev = EvPurge")
      case True
      then show ?thesis
        using queue_step_purge_job [of x w1 w2 u r] step(2) inv here minted queue_step_minted [OF step(2)]
        by auto
    next
      case False
      then show ?thesis
        using queue_step_job [OF step(2) inv False here] step.prems(4) by (auto simp: job_evolves_def)
    qed
  next
    assume "find_job (w_table w1) u = None \<and> EvPurge \<in> set es \<and>
      (\<exists>l. job_ExpiresAt r = Some l \<and> l < w_now w1) \<and> u \<in> set (w_minted w1)"
    then show ?thesis
      using queue_step_absent [OF step(2)] queue_step_clock [OF step(2)] queue_step_minted [OF step(2)]
      by (auto intro: less_le_trans)
  qed
qed

end
