(* ===== verification/Scenario.thy ===== *)
theory Scenario
  imports QueueRuns
begin

text \<open>
  One concrete story, for the witnesses: a job is enqueued under a key, claimed, handed back,
  claimed again and settled. Every step is the code's own service, run on \<^const>\<open>ext0\<close> at a
  fixed instant.
\<close>

definition story_enqueue :: core_JobEnqueueRequest where
  "story_enqueue =
     \<lparr> cer_Kind = ''k'', cer_Payload = None, cer_OwnerID = 7, cer_IdempotencyKey = Some ''a'',
       cer_MaxAttempts = 2 \<rparr>"

definition story_claim :: core_JobClaimRequest where
  "story_claim = \<lparr> ccr_Kinds = [''k''], ccr_WorkerID = ''w'', ccr_Limit = 1, ccr_LeaseSeconds = 30 \<rparr>"

definition story_success :: core_JobSettleRequest where
  "story_success =
     \<lparr> csr_ID = 1, csr_WorkerID = ''w'', csr_Result = Some [0x31], csr_Failure = None \<rparr>"

definition story_failure :: "bool \<Rightarrow> core_JobSettleRequest" where
  "story_failure retryable =
     \<lparr> csr_ID = 1, csr_WorkerID = ''w'', csr_Result = None,
       csr_Failure = Some \<lparr> fl_Error = Some [0x32], fl_Retryable = retryable \<rparr> \<rparr>"

text \<open>The record at each point of the story.\<close>

definition row_pending :: job where
  "row_pending =
     \<lparr> job_ID = 1, job_Kind = ''k'', job_Payload = Some [0x7B, 0x7D], job_OwnerID = 7,
       job_IdempotencyKey = Some ''a'', job_RequestFingerprint = fingerprintOf None,
       job_Status = JobStatusPending, job_Attempt = 0, job_MaxAttempts = 2, job_RunAt = 10,
       job_LeaseExpiresAt = None, job_ClaimedBy = None, job_CancelRequestedAt = None,
       job_ProviderCallID = None, job_Result = None, job_Error = None, job_CreatedAt = 10,
       job_UpdatedAt = 10, job_SettledAt = None, job_ExpiresAt = None \<rparr>"

definition row_claimed :: job where
  "row_claimed = row_pending\<lparr> job_Status := JobStatusClaimed, job_Attempt := 1,
     job_ClaimedBy := Some ''w'', job_LeaseExpiresAt := Some 30000020, job_UpdatedAt := 20 \<rparr>"

definition row_requeued :: job where
  "row_requeued = row_pending\<lparr> job_Attempt := 1, job_RunAt := 30, job_UpdatedAt := 30 \<rparr>"

definition row_last :: job where
  "row_last = row_pending\<lparr> job_Status := JobStatusClaimed, job_Attempt := 2,
     job_ClaimedBy := Some ''w'', job_RunAt := 30, job_LeaseExpiresAt := Some 30000040,
     job_UpdatedAt := 40 \<rparr>"

definition row_succeeded :: job where
  "row_succeeded = row_pending\<lparr> job_Status := JobStatusSucceeded, job_Attempt := 2,
     job_RunAt := 30, job_Result := Some [0x31], job_SettledAt := Some 50,
     job_ExpiresAt := Some 604800000050, job_UpdatedAt := 50 \<rparr>"

lemmas story_rows = row_pending_def row_claimed_def row_requeued_def row_last_def row_succeeded_def

lemma story_ids [simp]:
  "job_ID row_pending = 1" "job_ID row_claimed = 1" "job_ID row_requeued = 1" "job_ID row_last = 1"
  "job_ID row_succeeded = 1"
  by (simp_all add: story_rows)

lemma story_wf [simp]:
  "table_wf [row_pending]" "table_wf [row_claimed]" "table_wf [row_requeued]" "table_wf [row_last]"
  "table_wf [row_succeeded]"
  by (simp_all add: table_wf_def row_ok_iff story_rows)

lemma story_valid [simp]:
  "valid_enqueue ext0 story_enqueue" "valid_claim ext0 story_claim"
  "valid_settle ext0 story_success" "valid_settle ext0 (story_failure retryable)"
proof -
  have "ValidateNotBlank ''k''" by code_simp
  then show "valid_enqueue ext0 story_enqueue" by (simp add: valid_enqueue_def story_enqueue_def ext0_def)
qed (simp_all add: valid_claim_def story_claim_def valid_settle_def story_success_def
    story_failure_def ext0_def)

lemma story_enqueues:
  "JobEnqueue_Exec ext0 (stmt_at 10) (Some 1) story_enqueue [] =
     (Inr \<lparr> res_Job = jobToCore row_pending, res_Created = True \<rparr>, [row_pending])"
proof -
  have "sql_jobEnqueue ext0 (stmt_at 10) (enqueue_request 1 story_enqueue) [] =
      (Inr [row_pending], [row_pending])"
    by (subst sql_jobEnqueue_cases [of _ _ "Some [0x7B, 0x7D]"])
      (simp_all add: enqueue_accepted_def story_enqueue_def payloadOr_def inserted_row_def
        row_pending_def recorded_under_def)
  then show ?thesis
    by (simp add: JobEnqueue_Exec_eq dao_JobEnqueue_Exec_def dao_query_delivered enqueue_result_def)
qed

lemma story_claim_row:
  assumes "table_wf [r]" "claim_due (stmt_at now) [''k''] r" "sint (job_Attempt r) < 32767"
  shows "JobClaim_Exec ext0 (stmt_at now) story_claim [r] =
    (Inr [jobToCore (claim_row (stmt_at now) ''w'' 30 r)], [claim_row (stmt_at now) ''w'' 30 r])"
proof -
  have fields: "ccr_Kinds story_claim = [''k'']" "ccr_WorkerID story_claim = ''w''"
    "ccr_Limit story_claim = 1" "ccr_LeaseSeconds story_claim = 30"
    by (simp_all add: story_claim_def)
  have "claimable (stmt_at now) [''k''] 1 [r] = [r]" using assms(2) by (simp add: claimable_def)
  then have "claim_guard (stmt_at now) [''k''] 1 [r] r" by (simp add: claim_guard_def)
  then show ?thesis
    using assms by (simp add: JobClaim_Exec_eq dao_JobClaim_Exec_ok claim_batch_def update_rows_def fields)
qed

lemma story_claims:
  "JobClaim_Exec ext0 (stmt_at 20) story_claim [row_pending] = (Inr [jobToCore row_claimed], [row_claimed])"
  "JobClaim_Exec ext0 (stmt_at 40) story_claim [row_requeued] = (Inr [jobToCore row_last], [row_last])"
proof -
  have "claim_due (stmt_at 20) [''k''] row_pending" "sint (job_Attempt row_pending) < 32767"
    "claim_row (stmt_at 20) ''w'' 30 row_pending = row_claimed"
    "claim_due (stmt_at 40) [''k''] row_requeued" "sint (job_Attempt row_requeued) < 32767"
    "claim_row (stmt_at 40) ''w'' 30 row_requeued = row_last"
    by (simp_all add: claim_due_def story_rows claim_row_def interval_secs_def)
  then show "JobClaim_Exec ext0 (stmt_at 20) story_claim [row_pending] =
      (Inr [jobToCore row_claimed], [row_claimed])"
    and "JobClaim_Exec ext0 (stmt_at 40) story_claim [row_requeued] =
      (Inr [jobToCore row_last], [row_last])"
    by (simp_all add: story_claim_row)
qed

lemma story_held [simp]:
  "held_job [row_claimed] 1 ''w'' = Some row_claimed" "held_job [row_last] 1 ''w'' = Some row_last"
  by (simp_all add: held_job_def find_job_def holds_claim_def)
    (simp_all add: story_rows)

lemma story_requeues:
  "JobSettle_Exec ext0 txn_alone (stmt_at 30) (stmt_at 30) 7 (story_failure True) [row_claimed] =
     (Inr (jobToCore row_requeued), [row_requeued])"
proof -
  have "find_job [row_claimed] 1 = Some row_claimed" by (simp add: find_job_def)
  moreover have "job_Status row_claimed = JobStatusClaimed" "job_ClaimedBy row_claimed = Some ''w''"
    "job_Attempt row_claimed <s job_MaxAttempts row_claimed"
    "requeue_row (stmt_at 30) row_claimed = row_requeued"
    "update_rows (holds_claim 1 ''w'') (requeue_row (stmt_at 30)) [row_claimed] = [row_requeued]"
    by (simp_all add: story_rows sless_sint requeue_row_def update_rows_def holds_claim_def)
  moreover have "csr_ID (story_failure True) = 1" "csr_WorkerID (story_failure True) = ''w''"
    "csr_Failure (story_failure True) = Some \<lparr> fl_Error = Some [0x32], fl_Retryable = True \<rparr>"
    by (simp_all add: story_failure_def)
  ultimately show ?thesis
    by (simp add: JobSettle_Exec_eq JobSettle_retry_def WithinTx_def retry_body_def retry_read_eq
        retry_write_eq dao_JobGetByID_Exec_delivered dao_JobRequeue_Exec_delivered)
qed

lemma story_succeeds:
  "JobSettle_Exec ext0 tx (stmt_at 50) e2 7 story_success [row_last] =
     (Inr (jobToCore row_succeeded), [row_succeeded])"
proof -
  have "settle_row (stmt_at 50) JobStatusSucceeded (Some [0x31]) None 7 row_last = row_succeeded"
    "holds_claim 1 ''w'' row_last"
    by (simp_all add: story_rows settle_row_def interval_days_def holds_claim_def)
  moreover have "csr_ID story_success = 1" "csr_WorkerID story_success = ''w''"
    "csr_Failure story_success = None" "csr_Result story_success = Some [0x31]"
    by (simp_all add: story_success_def)
  ultimately show ?thesis
    by (simp add: JobSettle_Exec_eq JobSettle_settle_eq settle_request_def
        dao_JobSettle_Exec_delivered update_rows_def)
qed

section \<open>The story as a run\<close>

definition story_events :: "event list" where
  "story_events =
     [EvEnqueue story_enqueue (Inr \<lparr> res_Job = jobToCore row_pending, res_Created = True \<rparr>),
      EvClaim story_claim (Inr [jobToCore row_claimed]),
      EvSettle (story_failure True) (Inr (jobToCore row_requeued)),
      EvClaim story_claim (Inr [jobToCore row_last]),
      EvSettle story_success (Inr (jobToCore row_succeeded))]"

definition story_world :: "job \<Rightarrow> time \<Rightarrow> world" where
  "story_world r now = \<lparr> w_table = [r], w_now = now, w_minted = [1] \<rparr>"

lemma story_world_simps [simp]:
  "w_table (story_world r now) = [r]" "w_now (story_world r now) = now" "w_minted (story_world r now) = [1]"
  by (simp_all add: story_world_def)

lemma clock_stmt_at: "t0 \<le> now \<Longrightarrow> now \<le> t1 \<Longrightarrow> clock_within (stmt_at now) t0 t1"
  by (simp add: clock_within_def)

lemma story_steps:
  "queue_step ext0 (empty_world 0) (story_events ! 0) (story_world row_pending 10)"
  "queue_step ext0 (story_world row_pending 10) (story_events ! 1) (story_world row_claimed 20)"
  "queue_step ext0 (story_world row_claimed 20) (story_events ! 2) (story_world row_requeued 30)"
  "queue_step ext0 (story_world row_requeued 30) (story_events ! 3) (story_world row_last 40)"
  "queue_step ext0 (story_world row_last 40) (story_events ! 4) (story_world row_succeeded 50)"
proof -
  have 0: "queue_step ext0 (empty_world 0) (story_events ! 0)
      \<lparr> w_table = [row_pending], w_now = 10, w_minted = 1 # w_minted (empty_world 0) \<rparr>"
    unfolding story_events_def
    by (simp, rule queue_step.enqueue [where e = "stmt_at 10"])
      (simp_all add: story_enqueues empty_world_def clock_stmt_at)
  then show "queue_step ext0 (empty_world 0) (story_events ! 0) (story_world row_pending 10)"
    by (simp add: story_world_def empty_world_def)
  show "queue_step ext0 (story_world row_pending 10) (story_events ! 1) (story_world row_claimed 20)"
    unfolding story_events_def story_world_def [of row_claimed]
    using queue_step.claim [of "stmt_at 20" "story_world row_pending 10" 20 ext0 story_claim]
    by (simp add: story_claims clock_stmt_at)
  show "queue_step ext0 (story_world row_claimed 20) (story_events ! 2) (story_world row_requeued 30)"
    unfolding story_events_def story_world_def [of row_requeued]
    using queue_step.settle [of "stmt_at 30" "story_world row_claimed 20" 30 "stmt_at 30" 30 txn_alone
        ext0 "story_failure True"]
    by (simp add: story_requeues clock_stmt_at jobRetentionDays_def fun_eq_iff)
  show "queue_step ext0 (story_world row_requeued 30) (story_events ! 3) (story_world row_last 40)"
    unfolding story_events_def story_world_def [of row_last]
    using queue_step.claim [of "stmt_at 40" "story_world row_requeued 30" 40 ext0 story_claim]
    by (simp add: story_claims clock_stmt_at)
  show "queue_step ext0 (story_world row_last 40) (story_events ! 4) (story_world row_succeeded 50)"
    unfolding story_events_def story_world_def [of row_succeeded]
    using queue_step.settle [of "stmt_at 50" "story_world row_last 40" 50 "stmt_at 50" 50 txn_alone
        ext0 "story_success"]
    by (simp add: story_succeeds clock_stmt_at jobRetentionDays_def fun_eq_iff)
qed

lemma story_run: "queue_run ext0 (empty_world 0) story_events (story_world row_succeeded 50)"
proof -
  have "queue_run ext0 (empty_world 0)
      ((((([] @ [story_events ! 0]) @ [story_events ! 1]) @ [story_events ! 2]) @ [story_events ! 3]) @ [story_events ! 4])
      (story_world row_succeeded 50)"
    by (rule queue_run.step [OF queue_run.step [OF queue_run.step [OF queue_run.step [OF queue_run.step
      [OF queue_run.start story_steps(1)] story_steps(2)] story_steps(3)] story_steps(4)] story_steps(5)])
  then show ?thesis by (simp add: story_events_def)
qed

end
