(* ===== verification/LifeCycle.thy ===== *)
theory LifeCycle
  imports Scenario
begin

text \<open>
  The abstract specification of the queue: the life of one job as a small machine, and the
  proof that every step of the queue either leaves a job's life alone or takes one edge of the
  machine. The abstraction forgets everything but the phase, the holder and the attempt count.
\<close>

section \<open>The machine\<close>

datatype phase = Waiting | Running string | Settled JobStatus

type_synonym life = "(phase \<times> int \<times> int) option"

definition phase_of :: "job \<Rightarrow> phase" where
  "phase_of r =
     (case job_Status r of
        JobStatusPending \<Rightarrow> Waiting
      | JobStatusClaimed \<Rightarrow> Running (case job_ClaimedBy r of None \<Rightarrow> '''' | Some w \<Rightarrow> w)
      | s \<Rightarrow> Settled s)"

definition life_of_row :: "job \<Rightarrow> phase \<times> int \<times> int" where
  "life_of_row r = (phase_of r, sint (job_Attempt r), sint (job_MaxAttempts r))"

definition life_of :: "table \<Rightarrow> uuid \<Rightarrow> life" where
  "life_of t u = map_option life_of_row (find_job t u)"

inductive life_edge :: "event \<Rightarrow> uuid \<Rightarrow> life \<Rightarrow> life \<Rightarrow> bool" where
  admitted: "1 \<le> m \<Longrightarrow> life_edge (EvEnqueue request res) u None (Some (Waiting, 0, m))"
| claimed: "a < m \<Longrightarrow> life_edge (EvClaim request res) u
     (Some (Waiting, a, m)) (Some (Running (ccr_WorkerID request), a + 1, m))"
| succeeded: "csr_ID request = u \<Longrightarrow> csr_Failure request = None \<Longrightarrow>
     life_edge (EvSettle request res) u
       (Some (Running (csr_WorkerID request), a, m)) (Some (Settled JobStatusSucceeded, a, m))"
| failed: "csr_ID request = u \<Longrightarrow> csr_Failure request = Some f \<Longrightarrow> \<not> fl_Retryable f \<or> a = m \<Longrightarrow>
     life_edge (EvSettle request res) u
       (Some (Running (csr_WorkerID request), a, m)) (Some (Settled JobStatusFailed, a, m))"
| requeued: "csr_ID request = u \<Longrightarrow> csr_Failure request = Some f \<Longrightarrow> fl_Retryable f \<Longrightarrow> a < m \<Longrightarrow>
     life_edge (EvSettle request res) u
       (Some (Running (csr_WorkerID request), a, m)) (Some (Waiting, a, m))"
| recovered: "a < m \<Longrightarrow> life_edge (EvReap res) u (Some (Running w, a, m)) (Some (Waiting, a, m))"
| abandoned: "a = m \<Longrightarrow> life_edge (EvReap res) u
     (Some (Running w, a, m)) (Some (Settled JobStatusAbandoned, a, m))"
| purged: "life_edge EvPurge u (Some (Settled s, a, m)) None"

text \<open>A job's life stays, or takes one edge.\<close>

definition life_moves :: "event \<Rightarrow> uuid \<Rightarrow> table \<Rightarrow> table \<Rightarrow> bool" where
  "life_moves ev u t t' \<longleftrightarrow> life_of t' u = life_of t u \<or> life_edge ev u (life_of t u) (life_of t' u)"

lemma life_moves_same [simp]: "life_moves ev u t t"
  by (simp add: life_moves_def)

section \<open>Simulation\<close>

text \<open>An UPDATE moves lives along edges if its SET list does on the rows it selects.\<close>

lemma update_rows_moves:
  assumes ids: "\<And>r. job_ID (g r) = job_ID r"
    and edge: "\<And>r. find_job t u = Some r \<Longrightarrow> p r \<Longrightarrow>
      life_edge ev u (Some (life_of_row r)) (Some (life_of_row (g r)))"
  shows "life_moves ev u t (update_rows p g t)"
  using edge find_job_update [of g p t u, OF ids]
  by (cases "find_job t u") (auto simp: life_moves_def life_of_def)

lemma update_returning_moves:
  assumes "\<And>r. job_ID (g r) = job_ID r"
    and "\<And>r. find_job t u = Some r \<Longrightarrow> p r \<Longrightarrow>
      life_edge ev u (Some (life_of_row r)) (Some (life_of_row (g r)))"
  shows "life_moves ev u t (snd (update_returning ord p arith g t))"
  by (rule update_returning_cases [of ord p arith g t]) (simp_all add: update_rows_moves assms)

lemma dao_query_moves:
  "life_moves ev u t (snd (q t)) \<Longrightarrow> life_moves ev u t (snd (dao_query e f scan q t))"
  using dao_query_table [of e f scan q t] by auto

text \<open>The edges the SET lists take, row by row.\<close>

lemma claim_row_edge:
  assumes "row_inv d r" "job_Status r = JobStatusPending"
  shows "life_edge (EvClaim request res) u (Some (life_of_row r))
    (Some (life_of_row (claim_row e (ccr_WorkerID request) l r)))"
proof -
  have "sint (job_Attempt r) < sint (job_MaxAttempts r)" using assms by (simp add: row_inv_def)
  then show ?thesis
    using life_edge.claimed sint16_succ row_inv_attempt_range [OF assms]
    by (simp add: life_of_row_def phase_of_def assms(2) row_simps)
qed

lemma reap_row_edge:
  assumes "row_inv d r" "job_Status r = JobStatusClaimed"
  shows "life_edge (EvReap res) u (Some (life_of_row r)) (Some (life_of_row (reap_row e a d' r)))"
proof -
  have "sint (job_Attempt r) \<le> sint (job_MaxAttempts r)" using assms by (simp add: row_inv_def)
  then show ?thesis
    using assms(2) by (auto simp: life_of_row_def phase_of_def row_simps attempt_left_iff
        intro: life_edge.recovered life_edge.abandoned)
qed

lemma held_life:
  "holds_claim u w r \<Longrightarrow> life_of_row r = (Running w, sint (job_Attempt r), sint (job_MaxAttempts r))"
  by (simp add: life_of_row_def phase_of_def holds_claim_def)

lemma settle_row_life:
  "s \<in> {JobStatusSucceeded, JobStatusFailed} \<Longrightarrow>
    life_of_row (settle_row e s a b d r) = (Settled s, sint (job_Attempt r), sint (job_MaxAttempts r))"
  by (auto simp: life_of_row_def phase_of_def row_simps)

lemma requeue_row_life:
  "life_of_row (requeue_row e r) = (Waiting, sint (job_Attempt r), sint (job_MaxAttempts r))"
  by (simp add: life_of_row_def phase_of_def row_simps)

lemma dao_JobSettle_moves:
  assumes "\<And>r. held_job t (dsr_ID request) (dsr_WorkerID request) = Some r \<Longrightarrow> u = dsr_ID request \<Longrightarrow>
      life_edge ev u (Some (Running (dsr_WorkerID request), sint (job_Attempt r), sint (job_MaxAttempts r)))
        (Some (Settled (dsr_Status request), sint (job_Attempt r), sint (job_MaxAttempts r)))"
    and "dsr_Status request \<in> {JobStatusSucceeded, JobStatusFailed}"
  shows "life_moves ev u t (snd (dao_JobSettle_Exec x e request t))"
  unfolding dao_JobSettle_Exec_def
proof (rule dao_query_moves)
  have step: "life_edge ev u (Some (life_of_row r)) (Some (life_of_row
      (settle_row e (dsr_Status request) a b (dsr_RetentionDays request) r)))"
    if "find_job t u = Some r" "holds_claim (dsr_ID request) (dsr_WorkerID request) r" for r a b
  proof -
    have u: "u = dsr_ID request" using that find_job_SomeD by (auto simp: holds_claim_def)
    then have "held_job t (dsr_ID request) (dsr_WorkerID request) = Some r"
      using that by (simp add: held_job_def)
    then show ?thesis using assms u that(2) by (simp add: held_life settle_row_life)
  qed
  show "life_moves ev u t (snd (sql_jobSettle x e (dsr_ID request) (dsr_WorkerID request)
      (dsr_Status request) (dsr_Result request) (dsr_Error request) (dsr_RetentionDays request) t))"
    unfolding sql_jobSettle_def
    by (auto split: option.split intro!: update_returning_moves step simp: row_simps)
qed

lemma dao_JobRequeue_moves:
  assumes "\<And>r. held_job t (drr_ID request) (drr_WorkerID request) = Some r \<Longrightarrow> u = drr_ID request \<Longrightarrow>
      life_edge ev u (Some (Running (drr_WorkerID request), sint (job_Attempt r), sint (job_MaxAttempts r)))
        (Some (Waiting, sint (job_Attempt r), sint (job_MaxAttempts r)))"
  shows "life_moves ev u t (snd (dao_JobRequeue_Exec e request t))"
  unfolding dao_JobRequeue_Exec_def sql_jobRequeue_def
proof (intro dao_query_moves update_returning_moves)
  fix r
  assume r: "find_job t u = Some r" "holds_claim (drr_ID request) (drr_WorkerID request) r"
  then have u: "u = drr_ID request" using find_job_SomeD by (auto simp: holds_claim_def)
  then have "held_job t (drr_ID request) (drr_WorkerID request) = Some r"
    using r by (simp add: held_job_def)
  then show "life_edge ev u (Some (life_of_row r)) (Some (life_of_row (requeue_row e r)))"
    using assms u r(2) by (simp add: held_life requeue_row_life)
qed (simp add: row_simps)

section \<open>Every service\<close>

lemma find_job_snoc:
  "find_job (t @ [r]) u =
     (case find_job t u of Some s \<Rightarrow> Some s | None \<Rightarrow> if job_ID r = u then Some r else None)"
  by (induction t) (simp_all add: find_job_def)

lemma JobEnqueue_Exec_moves:
  assumes "queue_inv d t"
  shows "life_moves (EvEnqueue request res) u t (snd (JobEnqueue_Exec x e (Some v) request t))"
proof -
  have new: "life_moves (EvEnqueue request res) u t (t @ [inserted_row e r p])"
    if "enqueue_accepted r p" "der_ID r \<notin> set (map job_ID t)" for r p
  proof (cases "u = der_ID r")
    case True
    have "find_job t u = None" using that(2) by (simp add: True find_job_None_iff)
    moreover from this have "find_job (t @ [inserted_row e r p]) u = Some (inserted_row e r p)"
      by (simp add: find_job_snoc inserted_row_def True)
    moreover have "life_of_row (inserted_row e r p) = (Waiting, 0, sint (der_MaxAttempts r))"
      by (simp add: life_of_row_def phase_of_def inserted_row_def)
    ultimately show ?thesis
      using that(1) by (simp add: life_moves_def life_of_def enqueue_accepted_def life_edge.admitted)
  next
    case False
    then have "find_job (t @ [inserted_row e r p]) u = find_job t u"
      by (simp add: find_job_snoc inserted_row_def split: option.split)
    then show ?thesis by (simp add: life_moves_def life_of_def)
  qed
  have "life_moves (EvEnqueue request res) u t (snd (sql_jobEnqueue x e r t))" for r
    by (rule sql_jobEnqueue_table [of x e r t]) (simp_all add: new)
  then show ?thesis by (simp add: JobEnqueue_Exec_eq dao_JobEnqueue_Exec_def dao_query_moves)
qed

lemma JobClaim_Exec_moves:
  assumes "queue_inv d t"
  shows "life_moves (EvClaim request res) u t (snd (JobClaim_Exec x e request t))"
proof -
  have "life_moves (EvClaim request res) u t (snd (sql_jobClaim e k n (ccr_WorkerID request) l t))"
    for k n l
    unfolding sql_jobClaim_def
  proof (rule update_returning_moves)
    fix r
    assume r: "find_job t u = Some r" "claim_guard e k n t r"
    then have "job_Status r = JobStatusPending"
      using claim_guard_due(1) [OF queue_inv_wf [OF assms]] find_job_SomeD by (auto simp: claim_due_def)
    then show "life_edge (EvClaim request res) u (Some (life_of_row r))
        (Some (life_of_row (claim_row e (ccr_WorkerID request) l r)))"
      by (rule claim_row_edge [OF queue_inv_find [OF assms r(1)]])
  qed (simp add: row_simps)
  then show ?thesis by (simp add: JobClaim_Exec_eq dao_JobClaim_Exec_def dao_query_moves)
qed

lemma JobReap_Exec_moves:
  assumes "queue_inv d t"
  shows "life_moves (EvReap res) u t (snd (JobReap_Exec x e d' t))"
proof -
  have "life_moves (EvReap res) u t (snd (sql_jobReap x e a d' t))" for a
    unfolding sql_jobReap_def
    by (auto split: option.split intro!: update_returning_moves reap_row_edge queue_inv_find [OF assms]
        simp: row_simps reapable_def)
  then show ?thesis by (simp add: JobReap_Exec_eq dao_JobReap_Exec_def dao_query_moves)
qed

lemma settle_request_simps [simp]:
  "dsr_ID (settle_request d r s a b) = csr_ID r" "dsr_WorkerID (settle_request d r s a b) = csr_WorkerID r"
  "dsr_Status (settle_request d r s a b) = s" "dsr_Result (settle_request d r s a b) = a"
  "dsr_Error (settle_request d r s a b) = b" "dsr_RetentionDays (settle_request d r s a b) = d"
  by (simp_all add: settle_request_def)

lemma retry_write_moves:
  assumes "queue_inv d t" "held_job t (csr_ID request) (csr_WorkerID request) = Some entity"
    and "csr_Failure request = Some failure" "fl_Retryable failure"
  shows "life_moves (EvSettle request res) u t (snd (retry_write x e d' request failure entity t))"
proof -
  have le: "sint (job_Attempt entity) \<le> sint (job_MaxAttempts entity)"
    using queue_inv_row [OF assms(1)] held_job_SomeD [OF assms(2)] by (simp add: row_inv_def)
  show ?thesis
    using assms(2-4) le
    by (auto simp: retry_write_eq sless_sint intro!: dao_JobRequeue_moves dao_JobSettle_moves
        life_edge.requeued life_edge.failed)
qed

lemma JobSettle_Exec_moves:
  assumes "queue_inv d t" "tx_between tx = (\<lambda>t. t)"
  shows "life_moves (EvSettle request res) u t (snd (JobSettle_Exec x tx e1 e2 d' request t))"
proof (rule JobSettle_Exec_alone [OF assms(2), of x e1 e2 d' request t])
  fix s a b
  assume "snd (JobSettle_Exec x tx e1 e2 d' request t) =
      snd (dao_JobSettle_Exec x e1 (settle_request d' request s a b) t)"
    "csr_Failure request = None \<and> s = JobStatusSucceeded \<and> b = None \<or>
      (\<exists>f. csr_Failure request = Some f \<and> \<not> fl_Retryable f) \<and> s = JobStatusFailed \<and> a = None"
  then show ?thesis by (auto intro!: dao_JobSettle_moves life_edge.succeeded life_edge.failed)
next
  fix f entity
  assume "csr_Failure request = Some f" "fl_Retryable f" "retry_read e1 request t = Inr entity"
    and "snd (JobSettle_Exec x tx e1 e2 d' request t) = snd (retry_write x e2 d' request f entity t)"
  then show ?thesis
    using retry_write_moves [OF assms(1) retry_read_held [OF queue_inv_wf [OF assms(1)]]] by simp
qed simp

lemma sql_purge_moves:
  assumes "queue_inv d t"
  shows "life_moves EvPurge u t (sql_purge e t)"
proof (cases "find_job t u")
  case None
  then show ?thesis by (simp add: life_moves_def life_of_def find_job_purge [OF queue_inv_wf [OF assms]])
next
  case (Some r)
  have "\<exists>s. phase_of r = Settled s" if "purgeable e r"
    using queue_inv_find [OF assms Some] that
    by (cases "job_Status r") (auto simp: row_inv_def row_ok_iff purgeable_def phase_of_def
        split: option.splits)
  then show ?thesis
    using Some by (auto simp: life_moves_def life_of_def life_of_row_def life_edge.purged
        find_job_purge [OF queue_inv_wf [OF assms]])
qed

lemma queue_step_moves:
  assumes "queue_step x w ev w'" "world_inv w"
  shows "life_moves ev u (w_table w) (w_table w')"
  using assms
proof (induction rule: queue_step.induct)
  case (enqueue e w now' v request res t')
  then show ?case using JobEnqueue_Exec_moves [of jobRetentionDays "w_table w" request res u x e v]
    by (simp add: world_inv_def)
next
  case (claim e w now' request res t')
  then show ?case using JobClaim_Exec_moves [of jobRetentionDays "w_table w" request res u x e]
    by (simp add: world_inv_def)
next
  case (settle e1 w mid e2 now' tx request res t')
  then show ?case
    using JobSettle_Exec_moves [of jobRetentionDays "w_table w" tx request res u x e1 e2 jobRetentionDays]
    by (simp add: world_inv_def)
next
  case (reap e w now' res t')
  then show ?case using JobReap_Exec_moves [of jobRetentionDays "w_table w" res u x e jobRetentionDays]
    by (simp add: world_inv_def)
next
  case (purge e w now')
  then show ?case using sql_purge_moves [of jobRetentionDays "w_table w" u e] by (simp add: world_inv_def)
qed

end
