(* ===== verification/Leases.thy ===== *)
theory Leases
  imports LifeCycle
begin

text \<open>
  Exclusive execution. A claimed record is out of everybody's reach but its holder's until the
  lease has lapsed: no claim selects it, no settle of another worker matches it, no sweep
  recovers it. Past the lease a sweep may take it, so between two claims of one job there is a
  settle by the first claim's worker or a sweep.
\<close>

section \<open>What a step leaves alone\<close>

lemma update_returning_keeps:
  assumes "\<And>r. job_ID (g r) = job_ID r" "find_job t u = Some r" "\<not> p r"
  shows "find_job (snd (update_returning ord p arith g t)) u = Some r"
  by (rule update_returning_cases [of ord p arith g t])
    (simp_all add: find_job_update [of g p t u, OF assms(1)] assms(2,3))

lemma dao_query_keeps:
  "find_job t u = Some r \<Longrightarrow> find_job (snd (q t)) u = Some r \<Longrightarrow>
     find_job (snd (dao_query e f scan q t)) u = Some r"
  using dao_query_table [of e f scan q t] by auto

lemma JobEnqueue_Exec_keeps:
  assumes "find_job t u = Some r"
  shows "find_job (snd (JobEnqueue_Exec x e (Some v) request t)) u = Some r"
proof -
  have "find_job (snd (sql_jobEnqueue x e q t)) u = Some r" for q
    by (rule sql_jobEnqueue_table [of x e q t]) (simp_all add: assms find_job_snoc)
  then show ?thesis by (simp add: JobEnqueue_Exec_eq dao_JobEnqueue_Exec_def dao_query_keeps assms)
qed

lemma JobClaim_Exec_keeps:
  assumes "table_wf t" "find_job t u = Some r" "job_Status r \<noteq> JobStatusPending"
  shows "find_job (snd (JobClaim_Exec x e request t)) u = Some r"
proof -
  have "\<not> claim_guard e k n t r" for k n
    using claim_guard_due(1) [OF assms(1), of r e k n] find_job_SomeD [OF assms(2)] assms(3)
    by (auto simp: claim_due_def)
  then show ?thesis
    by (simp add: JobClaim_Exec_eq dao_JobClaim_Exec_def dao_query_keeps assms(2) sql_jobClaim_def
        update_returning_keeps row_simps)
qed

lemma JobReap_Exec_keeps:
  assumes "find_job t u = Some r" "\<not> reapable e r"
  shows "find_job (snd (JobReap_Exec x e d t)) u = Some r"
  using assms by (simp add: JobReap_Exec_eq dao_JobReap_Exec_def dao_query_keeps sql_jobReap_def
      update_returning_keeps row_simps split: option.split)

lemma dao_JobSettle_keeps:
  assumes "find_job t u = Some r" "\<not> holds_claim (dsr_ID request) (dsr_WorkerID request) r"
  shows "find_job (snd (dao_JobSettle_Exec x e request t)) u = Some r"
  using assms by (simp add: dao_JobSettle_Exec_def dao_query_keeps sql_jobSettle_def
      update_returning_keeps row_simps split: option.split)

lemma retry_write_keeps:
  assumes "find_job t u = Some r" "\<not> holds_claim (csr_ID request) (csr_WorkerID request) r"
  shows "find_job (snd (retry_write x e d request failure entity t)) u = Some r"
  using assms by (simp add: retry_write_eq dao_JobSettle_keeps dao_JobRequeue_Exec_def
      dao_query_keeps sql_jobRequeue_def update_returning_keeps row_simps)

lemma JobSettle_Exec_keeps:
  assumes "find_job t u = Some r" "\<not> holds_claim (csr_ID request) (csr_WorkerID request) r"
    and "tx_between tx = (\<lambda>t. t)"
  shows "find_job (snd (JobSettle_Exec x tx e1 e2 d request t)) u = Some r"
  by (rule JobSettle_Exec_alone [OF assms(3), of x e1 e2 d request t])
    (simp_all add: assms(1,2) retry_write_keeps dao_JobSettle_keeps)

section \<open>A live lease\<close>

definition settles_as :: "uuid \<Rightarrow> string \<Rightarrow> event \<Rightarrow> bool" where
  "settles_as u worker ev \<longleftrightarrow>
     (case ev of EvSettle request _ \<Rightarrow> csr_ID request = u \<and> csr_WorkerID request = worker | _ \<Rightarrow> False)"

definition reaps :: "event \<Rightarrow> bool" where
  "reaps ev \<longleftrightarrow> (case ev of EvReap _ \<Rightarrow> True | _ \<Rightarrow> False)"

lemma queue_step_leased_wf:
  assumes "queue_step x w ev w'" "table_wf (w_table w)" "job_ExpiresAt r = None"
    and "find_job (w_table w) u = Some r" "job_Status r = JobStatusClaimed"
    and "job_ClaimedBy r = Some k" "\<not> settles_as u k ev"
    and "job_LeaseExpiresAt r = Some l" "w_now w' \<le> l \<or> \<not> reaps ev"
  shows "find_job (w_table w') u = Some r"
  using assms
proof (induction rule: queue_step.induct)
  case (enqueue e w now' v request res t')
  then show ?case using JobEnqueue_Exec_keeps [of "w_table w" u r x e v request] by simp
next
  case (claim e w now' request res t')
  then show ?case
    using JobClaim_Exec_keeps [OF claim.prems(1), of u r x e request] by simp
next
  case (settle e1 w mid e2 now' tx request res t')
  have "\<not> holds_claim (csr_ID request) (csr_WorkerID request) r"
    using settle.prems find_job_SomeD by (auto simp: holds_claim_def settles_as_def)
  then show ?case
    using settle JobSettle_Exec_keeps [of "w_table w" u r request tx x e1 e2 jobRetentionDays] by simp
next
  case (reap e w now' res t')
  have "st_clock e (job_ID r) 0 \<le> l"
    using reap.prems clock_within_bounds(2) [OF reap(1), of "job_ID r" 0] by (simp add: reaps_def)
  then have "\<not> reapable e r" using reap.prems by (simp add: reapable_def)
  then show ?case
    using reap JobReap_Exec_keeps [of "w_table w" u r e x jobRetentionDays] by simp
next
  case (purge e w now')
  then show ?case
    using find_job_purge [OF purge.prems(1), of e u] by (simp add: purgeable_def)
qed

lemma queue_step_leased:
  assumes "queue_step x w ev w'" "world_inv w"
    and "find_job (w_table w) u = Some r" "job_Status r = JobStatusClaimed"
    and "job_ClaimedBy r = Some k" "\<not> settles_as u k ev"
    and "job_LeaseExpiresAt r = Some l" "w_now w' \<le> l \<or> \<not> reaps ev"
  shows "find_job (w_table w') u = Some r"
proof (rule queue_step_leased_wf [OF assms(1) world_inv_wf [OF assms(2)] _ assms(3-8)])
  show "job_ExpiresAt r = None"
    using queue_inv_find [of jobRetentionDays "w_table w" u r] assms(2-4)
    by (simp add: world_inv_def row_inv_def)
qed

lemma queue_run_clock: "queue_run x w es w' \<Longrightarrow> w_now w \<le> w_now w'"
  by (induction rule: queue_run.induct) (auto dest: queue_step_clock intro: order_trans)

lemma queue_run_leased:
  assumes "queue_run x w es w'" "world_inv w" "json_documented x"
    and "find_job (w_table w) u = Some r" "job_Status r = JobStatusClaimed"
    and "job_ClaimedBy r = Some k" "list_all (\<lambda>ev. \<not> settles_as u k ev) es"
    and "job_LeaseExpiresAt r = Some l" "w_now w' \<le> l \<or> list_all (\<lambda>ev. \<not> reaps ev) es"
  shows "find_job (w_table w') u = Some r"
  using assms
proof (induction rule: queue_run.induct)
  case start
  then show ?case by simp
next
  case (step es w1 ev w2)
  have inv: "world_inv w1" by (rule queue_run_inv [OF step(1) step.prems(1,2)])
  have "find_job (w_table w1) u = Some r"
    using step.IH step.prems queue_step_clock [OF step(2)] by auto
  then show ?case
    using queue_step_leased [OF step(2) inv] step.prems by auto
qed

end
