(* ===== verification/RunSpec.thy ===== *)
theory RunSpec
  imports Leases
begin

text \<open>
  The properties of the queue as a whole: what is true in every world the service can reach,
  whatever the order of enqueues, claims, settles, sweeps and purges, and whatever fails on the
  way. In these runs no other session writes between the two statements of a retryable failure;
  \<^emph>\<open>RetryRace\<close> is about the case where one does. The witnesses are the run of \<^emph>\<open>Scenario\<close>.
\<close>

lemma reachable_inv: "queue_run x (empty_world now) es w \<Longrightarrow> json_documented x \<Longrightarrow> world_inv w"
  by (rule queue_run_inv [OF _ world_inv_empty])

lemma story_prefix:
  "queue_run ext0 (empty_world 0) (take 2 story_events) (story_world row_claimed 20)"
  "queue_run ext0 (empty_world 0) (take 4 story_events) (story_world row_last 40)"
proof -
  have 2: "queue_run ext0 (empty_world 0) (([] @ [story_events ! 0]) @ [story_events ! 1])
      (story_world row_claimed 20)"
    by (rule queue_run.step [OF queue_run.step [OF queue_run.start story_steps(1)] story_steps(2)])
  then show "queue_run ext0 (empty_world 0) (take 2 story_events) (story_world row_claimed 20)"
    by (simp add: story_events_def)
  show "queue_run ext0 (empty_world 0) (take 4 story_events) (story_world row_last 40)"
    using queue_run.step [OF queue_run.step [OF 2 story_steps(3)] story_steps(4)]
    by (simp add: story_events_def)
qed

lemma story_suffix:
  "queue_run ext0 (story_world row_claimed 20) [story_events ! 2] (story_world row_requeued 30)"
  using queue_run.step [OF queue_run.start story_steps(3)] by simp

lemma story_row_claimed [simp]:
  "find_job [row_claimed] 1 = Some row_claimed" "job_Status row_claimed = JobStatusClaimed"
  "job_ClaimedBy row_claimed = Some ''w''" "job_LeaseExpiresAt row_claimed = Some 30000020"
  by (simp_all add: find_job_def) (simp_all add: story_rows)

section \<open>Records\<close>

text \<open>
  C1: every record of a reachable queue is consistent. The attempt count never exceeds the cap
  the producer set and is strictly under it while the job waits; a record has a holder and a
  lease exactly while it is claimed, and settlement times exactly once it is terminal; a result
  is recorded on success only, an error on failure or abandonment only; nothing is ever
  cancelled. A settled record is retained for at least seven days. The attempt bounds rest on the
  retry's transaction running alone.
\<close>

theorem reachable_records:
  assumes "queue_run x (empty_world now) es w" "json_documented x" "r \<in> set (w_table w)"
  shows "0 \<le> sint (job_Attempt r) \<and> sint (job_Attempt r) \<le> sint (job_MaxAttempts r) \<and>
    (job_Status r = JobStatusPending \<longrightarrow> sint (job_Attempt r) < sint (job_MaxAttempts r)) \<and>
    (job_Status r = JobStatusClaimed \<longleftrightarrow> job_ClaimedBy r \<noteq> None) \<and>
    (job_Status r = JobStatusClaimed \<longleftrightarrow> job_LeaseExpiresAt r \<noteq> None) \<and>
    (sql_terminal (job_Status r) \<longleftrightarrow> job_SettledAt r \<noteq> None) \<and>
    (sql_terminal (job_Status r) \<longleftrightarrow> job_ExpiresAt r \<noteq> None) \<and>
    (job_Result r \<noteq> None \<longrightarrow> job_Status r = JobStatusSucceeded) \<and>
    (job_Error r \<noteq> None \<longrightarrow> job_Status r = JobStatusFailed \<or> job_Status r = JobStatusAbandoned) \<and>
    job_Status r \<noteq> JobStatusCancelled \<and>
    (\<forall>a b. job_SettledAt r = Some a \<longrightarrow> job_ExpiresAt r = Some b \<longrightarrow> a + 604800000000 \<le> b)"
proof -
  have "row_inv 7 r"
    using reachable_inv [OF assms(1,2)] queue_inv_row assms(3)
    by (auto simp: world_inv_def jobRetentionDays_def)
  then show ?thesis
    by (cases "job_Status r"; simp add: row_inv_def row_ok_iff interval_days_def; blast)
qed

lemma reachable_records_witness:
  "sint (job_Attempt row_succeeded) \<le> sint (job_MaxAttempts row_succeeded) \<and>
   job_Status row_succeeded = JobStatusSucceeded"
proof
  show "sint (job_Attempt row_succeeded) \<le> sint (job_MaxAttempts row_succeeded)"
    using reachable_records [OF story_run ext0_json, of row_succeeded] by simp
  show "job_Status row_succeeded = JobStatusSucceeded" by (simp add: story_rows)
qed

text \<open>
  C2: the queue refines the life cycle of a job. Every step of the service, whatever its request
  and outcome, leaves a job's phase, holder and attempt count alone or takes one edge of the
  machine \<^const>\<open>life_edge\<close>: admitted waiting with no attempt spent; claimed at the cost of one
  attempt, under the cap; settled or handed back only by the worker that holds it; handed back
  only while an attempt is left and given up only when none is; removed only once settled. A
  retry's transaction is one such step, run alone.
\<close>

theorem queue_refines_life_cycle:
  assumes "queue_run x (empty_world now) es w" "json_documented x" "queue_step x w ev w'"
  shows "life_of (w_table w') u = life_of (w_table w) u \<or>
    life_edge ev u (life_of (w_table w) u) (life_of (w_table w') u)"
  using queue_step_moves [OF assms(3) reachable_inv [OF assms(1,2)], of u] by (simp add: life_moves_def)

lemma queue_refines_life_cycle_witness:
  "life_edge (story_events ! 2) 1 (Some (Running ''w'', 1, 2)) (Some (Waiting, 1, 2))"
proof -
  have "life_of [row_claimed] 1 = Some (Running ''w'', 1, 2)"
    by (simp add: life_of_def life_of_row_def phase_of_def) (simp add: story_rows)
  moreover have "life_of [row_requeued] 1 = Some (Waiting, 1, 2)"
    by (simp add: life_of_def life_of_row_def phase_of_def find_job_def) (simp add: story_rows)
  ultimately show ?thesis
    using queue_refines_life_cycle [OF story_prefix(1) ext0_json story_steps(3), of 1] by simp
qed

text \<open>
  C4: a job never runs more often than the producer allowed. The successful claims of a job in a
  run number at most its attempt count, which never exceeds its cap, so no sequence of crashes,
  recoveries and retries hands the job out more than \<open>max_attempts\<close> times, as long as no other
  session writes inside a retry's transaction.
\<close>

theorem runs_bounded_by_cap:
  assumes "queue_run x (empty_world now) es w" "json_documented x"
    and "find_job (w_table w) u = Some r"
  shows "int (claims_in u es) \<le> sint (job_Attempt r) \<and> sint (job_Attempt r) \<le> sint (job_MaxAttempts r)"
proof
  show "int (claims_in u es) \<le> sint (job_Attempt r)"
    using queue_run_claims [OF assms(1,2)] assms(3) by (simp add: claims_counted_def)
  show "sint (job_Attempt r) \<le> sint (job_MaxAttempts r)"
    using reachable_inv [OF assms(1,2)] queue_inv_find assms(3)
    by (auto simp: world_inv_def row_inv_def)
qed

lemma runs_bounded_by_cap_witness: "claims_in 1 story_events = 2 \<and> int (claims_in 1 story_events) \<le> 2"
proof
  show "claims_in 1 story_events = 2"
    by (simp add: claims_in_def story_events_def claims_job_def)
  have "find_job [row_succeeded] 1 = Some row_succeeded" by (simp add: find_job_def)
  then show "int (claims_in 1 story_events) \<le> 2"
    using runs_bounded_by_cap [OF story_run ext0_json, of 1 row_succeeded]
    by (simp) (simp add: story_rows)
qed

text \<open>
  C8: a settled job is final. Its record never changes again, and disappears only by a purge
  that runs more than seven days after it settled; its identifier is never used again. Each retry's
  transaction runs alone here; C25 is the same with such transactions open.
\<close>

theorem settled_is_final:
  assumes "queue_run x (empty_world now) es w" "json_documented x" "queue_run x w es' w'"
    and "find_job (w_table w) u = Some r" "sql_terminal (job_Status r)"
  shows "find_job (w_table w') u = Some r \<or>
    find_job (w_table w') u = None \<and> EvPurge \<in> set es' \<and> u \<in> set (w_minted w') \<and>
      (\<exists>s. job_SettledAt r = Some s \<and> s + 604800000000 < w_now w')"
proof -
  have inv: "world_inv w" by (rule reachable_inv [OF assms(1,2)])
  then have "row_inv 7 r"
    using queue_inv_find assms(4) by (auto simp: world_inv_def jobRetentionDays_def)
  then obtain s l where "job_SettledAt r = Some s" "job_ExpiresAt r = Some l" "s + 604800000000 \<le> l"
    using assms(5) by (auto simp: row_inv_def row_ok_iff interval_days_def)
  then show ?thesis using queue_run_terminal [OF assms(3) inv assms(2,4,5)] by auto
qed

text \<open>The witness: another report by the same worker, and a sweep at the last instant of the retention.\<close>

lemma settled_is_final_witness:
  "find_job (snd (JobReap_Exec ext0 (stmt_at 604800000050) 7
     (snd (JobSettle_Exec ext0 txn_alone (stmt_at 60) (stmt_at 60) 7 (story_failure True) [row_succeeded])))) 1 =
     Some row_succeeded"
proof -
  let ?s = "JobSettle_Exec ext0 txn_alone (stmt_at 60) (stmt_at 60) 7 (story_failure True) [row_succeeded]"
  let ?w1 = "\<lparr> w_table = snd ?s, w_now = 60, w_minted = [1] \<rparr>"
  let ?r = "JobReap_Exec ext0 (stmt_at 604800000050) 7 (snd ?s)"
  let ?w2 = "\<lparr> w_table = snd ?r, w_now = 604800000050, w_minted = [1] \<rparr>"
  have s1: "queue_step ext0 (story_world row_succeeded 50) (EvSettle (story_failure True) (fst ?s)) ?w1"
    using queue_step.settle [of "stmt_at 60" "story_world row_succeeded 50" 60 "stmt_at 60" 60 txn_alone
        ext0 "story_failure True" "fst ?s" "snd ?s"]
    by (simp add: clock_stmt_at jobRetentionDays_def fun_eq_iff)
  have s2: "queue_step ext0 ?w1 (EvReap (fst ?r)) ?w2"
    using queue_step.reap [of "stmt_at 604800000050" ?w1 604800000050 ext0 "fst ?r" "snd ?r"]
    by (simp add: clock_stmt_at jobRetentionDays_def)
  have run: "queue_run ext0 (story_world row_succeeded 50)
      (([] @ [EvSettle (story_failure True) (fst ?s)]) @ [EvReap (fst ?r)]) ?w2"
    by (rule queue_run.step [OF queue_run.step [OF queue_run.start s1] s2])
  have "find_job (w_table (story_world row_succeeded 50)) 1 = Some row_succeeded"
    "sql_terminal (job_Status row_succeeded)"
    by (simp_all add: find_job_def) (simp add: story_rows)
  then show ?thesis using settled_is_final [OF story_run ext0_json run, of 1 row_succeeded] by simp
qed

section \<open>Exclusive execution\<close>

text \<open>
  C9: a lease protects its holder. From the moment a worker holds a job until the lease expires,
  nothing in the queue changes the job's record unless that very worker settles it: no other
  claim, no settle by another worker, no sweep and no purge. Each retry's transaction runs alone
  here; C24 is the same with such transactions open.
\<close>

theorem lease_protects_holder:
  assumes "queue_run x (empty_world now) es w" "json_documented x" "queue_run x w es' w'"
    and "find_job (w_table w) u = Some r" "job_Status r = JobStatusClaimed"
    and "job_ClaimedBy r = Some worker" "job_LeaseExpiresAt r = Some lease" "w_now w' \<le> lease"
    and "list_all (\<lambda>ev. \<not> settles_as u worker ev) es'"
  shows "find_job (w_table w') u = Some r"
  by (rule queue_run_leased [OF assms(3) reachable_inv [OF assms(1,2)] assms(2,4,5,6,9,7)])
    (use assms(8) in simp)

text \<open>The witness: another worker's settle and a sweep, both inside the lease.\<close>

definition story_intruder :: core_JobSettleRequest where
  "story_intruder =
     \<lparr> csr_ID = 1, csr_WorkerID = ''v'', csr_Result = None, csr_Failure = None \<rparr>"

lemma lease_protects_holder_witness:
  "find_job (snd (JobReap_Exec ext0 (stmt_at 30) 7
     (snd (JobSettle_Exec ext0 txn_alone (stmt_at 25) (stmt_at 25) 7 story_intruder [row_claimed])))) 1 =
     Some row_claimed"
proof -
  let ?s = "JobSettle_Exec ext0 txn_alone (stmt_at 25) (stmt_at 25) 7 story_intruder [row_claimed]"
  let ?w1 = "\<lparr> w_table = snd ?s, w_now = 25, w_minted = [1] \<rparr>"
  let ?r = "JobReap_Exec ext0 (stmt_at 30) 7 (snd ?s)"
  let ?w2 = "\<lparr> w_table = snd ?r, w_now = 30, w_minted = [1] \<rparr>"
  have s1: "queue_step ext0 (story_world row_claimed 20) (EvSettle story_intruder (fst ?s)) ?w1"
    using queue_step.settle [of "stmt_at 25" "story_world row_claimed 20" 25 "stmt_at 25" 25 txn_alone
        ext0 story_intruder "fst ?s" "snd ?s"]
    by (simp add: clock_stmt_at jobRetentionDays_def fun_eq_iff)
  have s2: "queue_step ext0 ?w1 (EvReap (fst ?r)) ?w2"
    using queue_step.reap [of "stmt_at 30" ?w1 30 ext0 "fst ?r" "snd ?r"]
    by (simp add: clock_stmt_at jobRetentionDays_def)
  have run: "queue_run ext0 (story_world row_claimed 20)
      (([] @ [EvSettle story_intruder (fst ?s)]) @ [EvReap (fst ?r)]) ?w2"
    by (rule queue_run.step [OF queue_run.step [OF queue_run.start s1] s2])
  show ?thesis
    using lease_protects_holder [OF story_prefix(1) ext0_json run, of 1 row_claimed "''w''" 30000020]
    by (simp add: settles_as_def story_intruder_def)
qed

text \<open>
  C10: no job is handed out twice at once. Between two claims that return the same job, the worker
  of the first claim settled it or a sweep ran; without either, the second claim cannot happen. No
  other session writes inside a retry's transaction.
\<close>

theorem claims_exclude_each_other:
  assumes "queue_run x (empty_world now) es w" "json_documented x"
    and "queue_step x w (EvClaim request1 (Inr js1)) w1" "u \<in> set (map cj_ID js1)"
    and "queue_run x w1 es' w2"
    and "queue_step x w2 (EvClaim request2 (Inr js2)) w3" "u \<in> set (map cj_ID js2)"
  shows "list_ex (\<lambda>ev. settles_as u (ccr_WorkerID request1) ev \<or> reaps ev) es'"
proof (rule ccontr)
  assume "\<not> ?thesis"
  then have quiet: "list_all (\<lambda>ev. \<not> settles_as u (ccr_WorkerID request1) ev) es'"
      "list_all (\<lambda>ev. \<not> reaps ev) es'"
    by (auto simp: list_ex_iff list_all_iff)
  have inv: "world_inv w" by (rule reachable_inv [OF assms(1,2)])
  have inv1: "world_inv w1" by (rule queue_step_inv [OF assms(3) inv assms(2)])
  have inv2: "world_inv w2" by (rule queue_run_inv [OF assms(5) inv1 assms(2)])
  obtain e r where r: "find_job (w_table w1) u =
      Some (claim_row e (ccr_WorkerID request1) (ccr_LeaseSeconds request1) r)"
    by (rule queue_step_claimE [OF assms(3)]) (auto elim: claimed_job [OF world_inv_wf [OF inv] _ assms(4)])
  have "find_job (w_table w2) u =
      Some (claim_row e (ccr_WorkerID request1) (ccr_LeaseSeconds request1) r)"
    by (rule queue_run_leased [OF assms(5) inv1 assms(2) r _ _ quiet(1)])
      (auto simp: row_simps quiet(2))
  moreover obtain e' r' where "find_job (w_table w2) u = Some r'" "claim_due e' (ccr_Kinds request2) r'"
    by (rule queue_step_claimE [OF assms(6)]) (auto elim: claimed_job [OF world_inv_wf [OF inv2] _ assms(7)])
  ultimately show False by (auto simp: claim_due_def row_simps)
qed

lemma claims_exclude_each_other_witness:
  "list_ex (\<lambda>ev. settles_as 1 ''w'' ev \<or> reaps ev) [story_events ! 2]"
proof -
  have "queue_run ext0 (empty_world 0) ([] @ [story_events ! 0]) (story_world row_pending 10)"
    by (rule queue_run.step [OF queue_run.start story_steps(1)])
  moreover have "queue_step ext0 (story_world row_pending 10)
      (EvClaim story_claim (Inr [jobToCore row_claimed])) (story_world row_claimed 20)"
    "queue_step ext0 (story_world row_requeued 30)
      (EvClaim story_claim (Inr [jobToCore row_last])) (story_world row_last 40)"
    using story_steps(2,4) by (simp_all add: story_events_def)
  moreover have "ccr_WorkerID story_claim = ''w''" by (simp add: story_claim_def)
  ultimately show ?thesis
    using claims_exclude_each_other [OF _ ext0_json _ _ story_suffix, of 0 _ _ story_claim _ 1 story_claim]
    by fastforce
qed

end
