(* ===== verification/SettleSpec.thy ===== *)
theory SettleSpec
  imports Scenario
begin

text \<open>
  What a worker may count on when it reports an outcome, for each of the three outcomes, and
  who may report at all.
\<close>

lemma settle_error_not_claimed [simp]:
  "errors_Is (settle_error (Wrapf m (Joined [Sentinel SqlErrNoRows, Sentinel DaoErrJobSettleNotClaimed]))) s
     \<longleftrightarrow> s \<in> {SqlErrNoRows, DaoErrJobSettleNotClaimed, ErrJobNotClaimed}"
  by (auto simp: settle_error_def)

text \<open>On a table with unique identifiers the claim guard of a held job is its identifier.\<close>

lemma held_rows:
  assumes "table_wf t" "held_job t u w = Some r"
  shows "update_rows (holds_claim u w) g t = update_rows (\<lambda>s. job_ID s = u) g t"
proof -
  have "holds_claim u w s \<longleftrightarrow> job_ID s = u" if "s \<in> set t" for s
    using that held_job_SomeD [OF assms(2)] table_wf_unique [OF assms(1), of s r]
    by (auto simp: holds_claim_def)
  then show ?thesis by (simp add: update_rows_def)
qed

lemma JobSettle_settle_held:
  assumes "table_wf t" "undisturbed e" "json_documented x" "sql_terminal s"
    and "held_job t (csr_ID request) (csr_WorkerID request) = Some r"
    and "x_json_arg x a = Some a'" "x_json_arg x b = Some b'"
  shows "JobSettle_settle x e days request s a b t =
     (Inr (jobToCore (settle_row e s a' b' days r)),
      update_rows (\<lambda>s. job_ID s = csr_ID request) (settle_row e s a' b' days) t)"
  using assms(2-7)
  by (simp add: JobSettle_settle_eq settle_request_def held_rows [OF assms(1,5)]
      dao_JobSettle_Exec_delivered [OF assms(1)] undisturbedD)

lemma retry_read_delivered:
  assumes "table_wf t" "undisturbed e"
  shows "retry_read e request t =
    (case held_job t (csr_ID request) (csr_WorkerID request) of
       Some r \<Rightarrow> Inr r
     | None \<Rightarrow> Inl (if find_job t (csr_ID request) = None
                   then Joined [Wrapf ''execute query''
                          (Joined [Sentinel SqlErrNoRows, Sentinel DaoErrJobGetByIDNotFound]),
                          Sentinel ErrJobNotClaimed]
                   else Sentinel ErrJobNotClaimed))"
  using assms(2) find_job_SomeD [of t "csr_ID request"]
  by (auto simp: retry_read_eq dao_JobGetByID_Exec_delivered [OF assms(1)] undisturbedD held_job_def
      holds_claim_def split: option.splits)

section \<open>The outcomes\<close>

text \<open>
  C16: success is recorded on the job the worker holds, and on no other. If its result is JSON the
  column takes, or none, its record becomes succeeded with that result and no error; holder and lease are gone; it was updated and
  settled within the statement, and expires the retention later. Every other column of it, and
  every other record, is as it was, and the reply is the record as it now stands.
\<close>

theorem settle_records_success:
  assumes "table_wf t" "valid_settle x request" "undisturbed e1" "json_documented x"
    and "clock_within e1 start stop"
    and "held_job t (csr_ID request) (csr_WorkerID request) = Some r"
    and "csr_Failure request = None" "x_json_arg x (csr_Result request) = Some result"
  shows "\<exists>updated settled expires r'. start \<le> updated \<and> updated \<le> settled \<and> settled \<le> expires \<and> expires \<le> stop \<and>
    r' = r\<lparr> job_Status := JobStatusSucceeded, job_Result := result, job_Error := None,
            job_ClaimedBy := None, job_LeaseExpiresAt := None, job_UpdatedAt := updated,
            job_SettledAt := Some settled, job_ExpiresAt := Some (expires + interval_days days) \<rparr> \<and>
    JobSettle_Exec x tx e1 e2 days request t =
      (Inr (jobToCore r'), map (\<lambda>s. if job_ID s = csr_ID request then r' else s) t)"
proof -
  let ?u = "csr_ID request" and ?g = "settle_row e1 JobStatusSucceeded result None days"
  have r: "r \<in> set t" "job_ID r = ?u" using held_job_SomeD [OF assms(6)] by (auto simp: holds_claim_def)
  have "JobSettle_Exec x tx e1 e2 days request t = (Inr (jobToCore (?g r)), update_rows (\<lambda>s. job_ID s = ?u) ?g t)"
    using assms(2,4,7) JobSettle_settle_held [OF assms(1,3,4) _ assms(6,8)] by (simp add: JobSettle_Exec_eq)
  moreover have "update_rows (\<lambda>s. job_ID s = ?u) ?g t = map (\<lambda>s. if job_ID s = ?u then ?g r else s) t"
  proof -
    have "?g s = ?g r" if "s \<in> set t" "job_ID s = ?u" for s
      using table_wf_unique [OF assms(1) that(1) r(1)] that(2) r(2) by simp
    then show ?thesis by (simp add: update_rows_def)
  qed
  moreover have "?g r = r\<lparr> job_Status := JobStatusSucceeded, job_Result := result, job_Error := None,
      job_ClaimedBy := None, job_LeaseExpiresAt := None, job_UpdatedAt := st_clock e1 ?u 0,
      job_SettledAt := Some (st_clock e1 ?u 1), job_ExpiresAt := Some (st_clock e1 ?u 2 + interval_days days) \<rparr>"
    by (simp add: settle_row_def r(2))
  moreover have "start \<le> st_clock e1 ?u 0" "st_clock e1 ?u 0 \<le> st_clock e1 ?u 1"
    "st_clock e1 ?u 1 \<le> st_clock e1 ?u 2" "st_clock e1 ?u 2 \<le> stop"
    using clock_within_bounds [OF assms(5)] by simp_all
  ultimately show ?thesis
    by (intro exI [of _ "st_clock e1 ?u 0"] exI [of _ "st_clock e1 ?u 1"] exI [of _ "st_clock e1 ?u 2"] exI [of _ "?g r"] conjI)
      simp_all
qed

lemma story_requests [simp]:
  "csr_ID story_success = 1" "csr_WorkerID story_success = ''w''" "csr_Failure story_success = None"
  "csr_ID (story_failure b) = 1" "csr_WorkerID (story_failure b) = ''w''"
  "csr_Failure (story_failure b) = Some \<lparr> fl_Error = Some [0x32], fl_Retryable = b \<rparr>"
  by (simp_all add: story_success_def story_failure_def)

lemma settle_records_success_witness:
  "\<exists>j. JobSettle_Exec ext0 txn_alone (stmt_at 50) (stmt_at 50) 7 story_success [row_last] = (Inr j, [row_succeeded])"
proof -
  have "row_last\<lparr> job_Status := JobStatusSucceeded, job_Result := csr_Result story_success, job_Error := None,
      job_ClaimedBy := None, job_LeaseExpiresAt := None, job_UpdatedAt := 50,
      job_SettledAt := Some 50, job_ExpiresAt := Some (50 + interval_days 7) \<rparr> = row_succeeded"
    by (simp add: story_rows story_success_def interval_days_def)
  moreover from settle_records_success [of "[row_last]" ext0 story_success "stmt_at 50" 50 50 row_last
      "csr_Result story_success" 7 txn_alone "stmt_at 50"]
  obtain updated settled expires r' where "50 \<le> updated" "updated \<le> settled" "settled \<le> expires" "expires \<le> 50"
    and r': "r' = row_last\<lparr> job_Status := JobStatusSucceeded, job_Result := csr_Result story_success, job_Error := None,
      job_ClaimedBy := None, job_LeaseExpiresAt := None, job_UpdatedAt := updated,
      job_SettledAt := Some settled, job_ExpiresAt := Some (expires + interval_days 7) \<rparr>"
    and exec: "JobSettle_Exec ext0 txn_alone (stmt_at 50) (stmt_at 50) 7 story_success [row_last] = (Inr (jobToCore r'), [r'])"
    by auto
  moreover from this have "updated = 50" "settled = 50" "expires = 50" by simp_all
  ultimately show ?thesis by simp
qed

text \<open>What a failure makes of the record, given the one that was held when it was decided.\<close>

definition failure_row :: "stmt \<Rightarrow> stmt \<Rightarrow> JobFailure \<Rightarrow> rawmsg \<Rightarrow> int \<Rightarrow> job \<Rightarrow> job \<Rightarrow> job" where
  "failure_row e1 e2 f err days held r =
     (if fl_Retryable f \<and> sint (job_Attempt held) < sint (job_MaxAttempts held)
      then r\<lparr> job_Status := JobStatusPending, job_ClaimedBy := None, job_LeaseExpiresAt := None,
              job_RunAt := st_clock e2 (job_ID r) 0, job_UpdatedAt := st_clock e2 (job_ID r) 1 \<rparr>
      else (let e = (if fl_Retryable f then e2 else e1) in
            r\<lparr> job_Status := JobStatusFailed, job_Result := None, job_Error := err,
               job_ClaimedBy := None, job_LeaseExpiresAt := None,
               job_UpdatedAt := st_clock e (job_ID r) 0, job_SettledAt := Some (st_clock e (job_ID r) 1),
               job_ExpiresAt := Some (st_clock e (job_ID r) 2 + interval_days days) \<rparr>))"

lemma failure_row_eq:
  "failure_row e1 e2 f err days held =
     (if fl_Retryable f \<and> sint (job_Attempt held) < sint (job_MaxAttempts held) then requeue_row e2
      else settle_row (if fl_Retryable f then e2 else e1) JobStatusFailed None err days)"
  by (auto simp: fun_eq_iff failure_row_def requeue_row_def settle_row_def Let_def)

text \<open>
  C17: a failure is decided by the attempt cap. The held job is requeued, with its attempt count
  unspent, exactly if the worker allows a retry and an attempt is left; otherwise it is settled
  failed with the worker's error. One record changes, the held one, in the columns named in
  \<^const>\<open>failure_row\<close>. The transaction here has no
  other session between its two statements.
\<close>

theorem failure_requeues_or_settles:
  assumes "table_wf t" "valid_settle x request" "undisturbed e1" "undisturbed e2" "json_documented x"
    and "tx_begins tx" "tx_commits tx" "tx_between tx t = t"
    and "held_job t (csr_ID request) (csr_WorkerID request) = Some r"
    and "csr_Failure request = Some f" "x_json_arg x (fl_Error f) = Some err"
  shows "JobSettle_Exec x tx e1 e2 days request t =
     (Inr (jobToCore (failure_row e1 e2 f err days r r)),
      update_rows (\<lambda>s. job_ID s = csr_ID request) (failure_row e1 e2 f err days r) t)"
proof (cases "fl_Retryable f")
  case False
  then show ?thesis
    using assms(2,10) JobSettle_settle_held [OF assms(1,3,5) _ assms(9) _ assms(11), of JobStatusFailed None None]
    by (simp add: JobSettle_Exec_eq failure_row_eq assms(5))
next
  case True
  have "retry_write x e2 days request f r t =
      (Inr (jobToCore (failure_row e1 e2 f err days r r)),
       update_rows (\<lambda>s. job_ID s = csr_ID request) (failure_row e1 e2 f err days r) t)"
    using True assms(4,5,9,11)
    by (simp add: retry_write_eq failure_row_eq sless_sint settle_request_def undisturbedD
        dao_JobRequeue_Exec_delivered [OF assms(1)] dao_JobSettle_Exec_delivered [OF assms(1)]
        held_rows [OF assms(1,9)])
  then show ?thesis
    using True assms(2,6-8,10)
    by (simp add: JobSettle_Exec_eq JobSettle_retry_def WithinTx_def retry_body_def
        retry_read_delivered [OF assms(1,3)] assms(9))
qed

lemma failure_requeues_or_settles_witness:
  "fst (JobSettle_Exec ext0 txn_alone (stmt_at 30) (stmt_at 30) 7 (story_failure True) [row_claimed]) =
     Inr (jobToCore row_requeued) \<and>
   fst (JobSettle_Exec ext0 txn_alone (stmt_at 50) (stmt_at 50) 7 (story_failure True) [row_last]) =
     Inr (jobToCore (settle_row (stmt_at 50) JobStatusFailed None (Some [0x32]) 7 row_last))"
proof -
  have "requeue_row (stmt_at 30) row_claimed = row_requeued" "job_Attempt row_claimed = 1"
    "job_MaxAttempts row_claimed = 2" "job_Attempt row_last = 2" "job_MaxAttempts row_last = 2"
    by (simp_all add: story_rows requeue_row_def)
  then show ?thesis
    using failure_requeues_or_settles [of "[row_claimed]" ext0 "story_failure True" "stmt_at 30"
        "stmt_at 30" txn_alone row_claimed "\<lparr> fl_Error = Some [0x32], fl_Retryable = True \<rparr>" "Some [0x32]" 7]
      failure_requeues_or_settles [of "[row_last]" ext0 "story_failure True" "stmt_at 50"
        "stmt_at 50" txn_alone row_last "\<lparr> fl_Error = Some [0x32], fl_Retryable = True \<rparr>" "Some [0x32]" 7]
    by (simp add: failure_row_eq)
qed

lemma JobSettle_Exec_refused:
  assumes "table_wf t" "valid_settle x request" "undisturbed e1" "json_documented x" "tx_begins tx"
    and "held_job t (csr_ID request) (csr_WorkerID request) = None"
    and "x_json_arg x (csr_Result request) \<noteq> None"
    and "\<forall>f. csr_Failure request = Some f \<longrightarrow> x_json_arg x (fl_Error f) \<noteq> None"
  shows "\<exists>err. JobSettle_Exec x tx e1 e2 days request t = (Inl err, t) \<and>
    errors_Is err ErrJobNotClaimed \<and> \<not> errors_Is err ErrInvalidRequest \<and>
    \<not> errors_Is err ErrJobNotFound \<and> \<not> errors_Is err ErrJobConflict"
proof -
  have settle: "\<exists>err. JobSettle_settle x e1 days request s a b t = (Inl err, t) \<and>
      errors_Is err ErrJobNotClaimed \<and> \<not> errors_Is err ErrInvalidRequest \<and>
      \<not> errors_Is err ErrJobNotFound \<and> \<not> errors_Is err ErrJobConflict"
    if "sql_terminal s" "x_json_arg x a \<noteq> None" "x_json_arg x b \<noteq> None" for s a b
    using that assms(3,4,6)
    by (auto simp: JobSettle_settle_eq settle_request_def undisturbedD
        dao_JobSettle_Exec_delivered [OF assms(1)])
  show ?thesis
  proof (cases "csr_Failure request")
    case None
    then show ?thesis using settle assms(2,4,7) by (simp add: JobSettle_Exec_eq)
  next
    case (Some f)
    then have err: "x_json_arg x (fl_Error f) \<noteq> None" using assms(8) by simp
    show ?thesis
    proof (cases "fl_Retryable f")
      case False
      then show ?thesis using settle assms(2,4) Some err by (simp add: JobSettle_Exec_eq)
    next
      case True
      then show ?thesis
        using assms(2,5,6) Some
        by (simp add: JobSettle_Exec_eq JobSettle_retry_def WithinTx_def retry_body_def
            retry_read_delivered [OF assms(1,3)])
    qed
  qed
qed

text \<open>
  C18: only the holder settles. For a worker that does not hold the job (it never claimed it,
  its lease was swept, another worker took it, or it already settled it) every outcome is
  refused with \<^const>\<open>ErrJobNotClaimed\<close>, under no other of the service's sentinels, and the
  table is untouched.
\<close>

theorem settle_refuses_non_holder:
  assumes "table_wf t" "valid_settle x request" "undisturbed e1" "json_documented x" "tx_begins tx"
    and "held_job t (csr_ID request) (csr_WorkerID request) = None"
    and "x_json_arg x (csr_Result request) \<noteq> None"
    and "\<forall>f. csr_Failure request = Some f \<longrightarrow> x_json_arg x (fl_Error f) \<noteq> None"
  shows "\<exists>err. JobSettle_Exec x tx e1 e2 days request t = (Inl err, t) \<and>
    errors_Is err ErrJobNotClaimed \<and> \<not> errors_Is err ErrInvalidRequest \<and>
    \<not> errors_Is err ErrJobNotFound \<and> \<not> errors_Is err ErrJobConflict"
  by (rule JobSettle_Exec_refused [OF assms])

lemma settle_refuses_non_holder_witness:
  "\<exists>err. JobSettle_Exec ext0 txn_alone (stmt_at 60) (stmt_at 60) 7 story_success [row_succeeded] =
     (Inl err, [row_succeeded]) \<and> errors_Is err ErrJobNotClaimed"
proof -
  have "held_job [row_succeeded] 1 ''w'' = None"
    by (simp add: held_job_def find_job_def holds_claim_def) (simp add: story_rows)
  then show ?thesis
    using settle_refuses_non_holder [of "[row_succeeded]" ext0 story_success "stmt_at 60" txn_alone
        "stmt_at 60" 7]
    by auto
qed

section \<open>Reporting twice\<close>

text \<open>A write that succeeds takes the claim away.\<close>

lemma held_job_update:
  assumes "\<And>r. job_ID (g r) = job_ID r" "\<And>r. job_ClaimedBy (g r) = None"
  shows "held_job (update_rows (holds_claim u w) g t) u w = None"
  using find_job_update [of g "holds_claim u w" t u, OF assms(1)]
  by (cases "find_job t u") (auto simp: held_job_def holds_claim_def assms(2))

lemma dao_JobSettle_Exec_releases:
  assumes "dao_JobSettle_Exec x e request t = (Inr r, t')"
  shows "held_job t' (dsr_ID request) (dsr_WorkerID request) = None"
  using assms unfolding dao_JobSettle_Exec_def
  by (rule dao_query_Inr)
    (auto simp: sql_jobSettle_def row_simps split: option.splits dest!: update_returning_InrD
      intro!: held_job_update)

lemma dao_JobRequeue_Exec_releases:
  assumes "dao_JobRequeue_Exec e request t = (Inr r, t')"
  shows "held_job t' (drr_ID request) (drr_WorkerID request) = None"
  using assms unfolding dao_JobRequeue_Exec_def
  by (rule dao_query_Inr)
    (auto simp: sql_jobRequeue_def row_simps dest!: update_returning_InrD intro!: held_job_update)

lemma retry_write_releases:
  assumes "retry_write x e days request f entity t = (Inr j, t')"
  shows "held_job t' (csr_ID request) (csr_WorkerID request) = None"
  using assms dao_JobSettle_Exec_releases [of x e "settle_request days request JobStatusFailed None (fl_Error f)" t]
    dao_JobRequeue_Exec_releases [of e "\<lparr> drr_ID = csr_ID request, drr_WorkerID = csr_WorkerID request \<rparr>" t]
  by (auto simp: retry_write_eq via_dao_Inr settle_request_def split: if_splits)

lemma JobSettle_Exec_releases:
  assumes "JobSettle_Exec x tx e1 e2 days request t = (Inr j, t')"
  shows "held_job t' (csr_ID request) (csr_WorkerID request) = None"
proof -
  have settle: "held_job t' (csr_ID request) (csr_WorkerID request) = None"
    if "JobSettle_settle x e1 days request s a b t = (Inr j, t')" for s a b
    using that dao_JobSettle_Exec_releases [of x e1 "settle_request days request s a b" t]
    by (auto simp: JobSettle_settle_eq via_dao_Inr settle_request_def)
  have retry: "held_job t' (csr_ID request) (csr_WorkerID request) = None"
    if "JobSettle_retry x tx e1 e2 days request f t = (Inr j, t')" for f
    using that retry_write_releases
    by (auto simp: JobSettle_retry_def WithinTx_def retry_body_def Let_def
        split: if_splits sum.splits prod.splits)
  show ?thesis
    using assms settle retry by (auto simp: JobSettle_Exec_eq split: if_splits option.splits)
qed

text \<open>
  An outcome is reported once. After a settle that returned a job, any further report by
  the same worker on that job, whatever it says, is refused with \<^const>\<open>ErrJobNotClaimed\<close> and
  leaves the table as it is. This holds whatever other sessions did inside the first report's
  transaction.
\<close>

theorem settle_once:
  assumes "table_wf t" "JobSettle_Exec x tx e1 e2 days request t = (Inr j, t')"
    and "table_wf (tx_between tx t)" "table_evolves t (tx_between tx t)"
    and "valid_settle x again" "undisturbed e3" "json_documented x" "tx_begins tx'"
    and "csr_ID again = csr_ID request" "csr_WorkerID again = csr_WorkerID request"
    and "x_json_arg x (csr_Result again) \<noteq> None"
    and "\<forall>f. csr_Failure again = Some f \<longrightarrow> x_json_arg x (fl_Error f) \<noteq> None"
  shows "\<exists>err. JobSettle_Exec x tx' e3 e4 days' again t' = (Inl err, t') \<and> errors_Is err ErrJobNotClaimed"
proof -
  have wf: "table_wf t'"
    using JobSettle_Exec_tables [OF assms(1,3,4), of x e1 e2 days request] assms(2) by simp
  have free: "held_job t' (csr_ID again) (csr_WorkerID again) = None"
    using JobSettle_Exec_releases [OF assms(2)] assms(9,10) by simp
  show ?thesis
    using JobSettle_Exec_refused [OF wf assms(5-8) free assms(11,12)] by blast
qed

lemma settle_once_witness:
  "\<exists>err. JobSettle_Exec ext0 txn_alone (stmt_at 60) (stmt_at 60) 7 (story_failure True) [row_succeeded] =
     (Inl err, [row_succeeded]) \<and> errors_Is err ErrJobNotClaimed"
  using settle_once [of "[row_last]" ext0 txn_alone "stmt_at 50" "stmt_at 50" 7 story_success
      "jobToCore row_succeeded" "[row_succeeded]" "story_failure True" "stmt_at 60" txn_alone "stmt_at 60" 7]
  by (simp add: story_succeeds)

end
