(* ===== verification/RetryRace.thy ===== *)
theory RetryRace
  imports SettleSpec Leases
begin

text \<open>
  The retry path when it is not alone. The transactor runs at READ COMMITTED and
  \<open>pg.jobGetByID\<close> takes no lock, so between the read that decides and the write that acts,
  a sweep may recover the job, and the same worker may even claim it again. The write is guarded
  by identifier, holder and status; it is not guarded by the attempt the decision was made on.
\<close>

section \<open>What the guard does catch\<close>

lemma JobSettle_Exec_stale:
  assumes "table_wf t" "valid_settle x request" "undisturbed e1" "undisturbed e2" "json_documented x"
    and "tx_begins tx" "table_wf (tx_between tx t)"
    and "held_job t (csr_ID request) (csr_WorkerID request) = Some r"
    and "held_job (tx_between tx t) (csr_ID request) (csr_WorkerID request) = None"
    and "csr_Failure request = Some f" "fl_Retryable f" "x_json_arg x (fl_Error f) \<noteq> None"
  shows "\<exists>err. JobSettle_Exec x tx e1 e2 days request t = (Inl err, tx_between tx t) \<and> unnamed_error err"
proof -
  have "\<exists>err. retry_write x e2 days request f r (tx_between tx t) = (Inl err, tx_between tx t) \<and>
      unnamed_error err"
    using assms(4,5,9,12)
    by (cases "job_Attempt r <s job_MaxAttempts r")
      (auto simp: retry_write_eq settle_request_def undisturbedD
        dao_JobRequeue_Exec_delivered [OF assms(7)] dao_JobSettle_Exec_delivered [OF assms(7)])
  then obtain err where
    stale: "retry_write x e2 days request f r (tx_between tx t) = (Inl err, tx_between tx t)"
    and err: "unnamed_error err" by blast
  show ?thesis
    using assms(2,6,8,10,11) stale err
    by (simp add: JobSettle_Exec_eq JobSettle_retry_def WithinTx_def retry_body_def Let_def
        retry_read_delivered [OF assms(1,3)])
qed

text \<open>
  A retry never writes to a job its worker no longer holds at the time of the write: if the
  job slipped away between the two statements, the call fails and leaves the table exactly as the
  other sessions made it. The error carries none of the service's sentinels, so the caller is not
  told that the claim was lost.
\<close>

lemma stale_retry_writes_nothing:
  assumes "table_wf t" "valid_settle x request" "undisturbed e1" "undisturbed e2" "json_documented x"
    and "tx_begins tx" "table_wf (tx_between tx t)"
    and "held_job t (csr_ID request) (csr_WorkerID request) = Some r"
    and "held_job (tx_between tx t) (csr_ID request) (csr_WorkerID request) = None"
    and "csr_Failure request = Some f" "fl_Retryable f" "x_json_arg x (fl_Error f) \<noteq> None"
  shows "\<exists>err. JobSettle_Exec x tx e1 e2 days request t = (Inl err, tx_between tx t) \<and> unnamed_error err"
  by (rule JobSettle_Exec_stale [OF assms])

text \<open>The interference: once the lease has lapsed, a sweep recovers the job.\<close>

definition tx_swept :: txn where
  "tx_swept = txn_alone\<lparr> tx_between := \<lambda>t. snd (JobReap_Exec ext0 (stmt_at 30000030) 7 t) \<rparr>"

definition row_recovered :: job where
  "row_recovered = row_pending\<lparr> job_Attempt := 1, job_RunAt := 30000030, job_UpdatedAt := 30000030 \<rparr>"

lemma row_recovered_simps [simp]:
  "job_ID row_recovered = 1" "job_Attempt row_recovered = 1" "table_wf [row_recovered]"
  "held_job [row_recovered] 1 ''w'' = None"
  by (simp_all add: row_recovered_def table_wf_def row_ok_iff held_job_def find_job_def holds_claim_def)
    (simp_all add: row_pending_def)

lemma story_sweep:
  "JobReap_Exec ext0 (stmt_at 30000030) 7 [row_claimed] = (Inr [jobToCore row_recovered], [row_recovered])"
proof -
  have "reapable (stmt_at 30000030) row_claimed"
    "reap_row (stmt_at 30000030) (Some jobReapError) 7 row_claimed = row_recovered"
    by (simp_all add: reapable_def reap_row_def attempt_left_iff row_recovered_def story_rows)
  then show ?thesis
    by (simp add: JobReap_Exec_eq dao_JobReap_Exec_delivered update_rows_def)
qed

lemma tx_swept_simps [simp]:
  "tx_begins tx_swept" "tx_commits tx_swept" "tx_between tx_swept [row_claimed] = [row_recovered]"
  by (simp_all add: tx_swept_def story_sweep)

lemma stale_retry_writes_nothing_witness:
  "\<exists>err. JobSettle_Exec ext0 tx_swept (stmt_at 30) (stmt_at 30000050) 7 (story_failure True) [row_claimed] =
     (Inl err, [row_recovered]) \<and> unnamed_error err"
  using stale_retry_writes_nothing [of "[row_claimed]" ext0 "story_failure True" "stmt_at 30"
      "stmt_at 30000050" tx_swept row_claimed "\<lparr> fl_Error = Some [0x32], fl_Retryable = True \<rparr>" 7]
  by auto

section \<open>What it does not\<close>

text \<open>The same sweep, and the same worker claims the job again before the retry writes.\<close>

definition tx_reclaimed :: txn where
  "tx_reclaimed = txn_alone\<lparr> tx_between := \<lambda>t.
     snd (JobClaim_Exec ext0 (stmt_at 30000040) story_claim
       (snd (JobReap_Exec ext0 (stmt_at 30000030) 7 t))) \<rparr>"

definition row_reclaimed :: job where
  "row_reclaimed = row_recovered\<lparr> job_Status := JobStatusClaimed, job_Attempt := 2,
     job_ClaimedBy := Some ''w'', job_LeaseExpiresAt := Some 60000040, job_UpdatedAt := 30000040 \<rparr>"

definition row_overdrawn :: job where
  "row_overdrawn = row_recovered\<lparr> job_Attempt := 2, job_RunAt := 30000050, job_UpdatedAt := 30000050 \<rparr>"

lemmas race_rows = row_reclaimed_def row_overdrawn_def row_recovered_def row_pending_def

lemma race_wf [simp]: "table_wf [row_reclaimed]" "table_wf [row_overdrawn]"
  by (simp_all add: table_wf_def row_ok_iff race_rows)

lemma race_reclaim:
  "JobClaim_Exec ext0 (stmt_at 30000040) story_claim [row_recovered] =
     (Inr [jobToCore row_reclaimed], [row_reclaimed])"
proof -
  have "claim_due (stmt_at 30000040) [''k''] row_recovered"
    "claim_row (stmt_at 30000040) ''w'' 30 row_recovered = row_reclaimed"
    by (simp_all add: claim_due_def claim_row_def interval_secs_def race_rows)
  then show ?thesis by (simp add: story_claim_row)
qed

lemma race_retry:
  "JobSettle_Exec ext0 tx_reclaimed (stmt_at 30) (stmt_at 30000050) 7 (story_failure True) [row_claimed] =
     (Inr (jobToCore row_overdrawn), [row_overdrawn])"
proof -
  have tx: "tx_begins tx_reclaimed" "tx_commits tx_reclaimed"
    "tx_between tx_reclaimed [row_claimed] = [row_reclaimed]"
    by (simp_all add: tx_reclaimed_def story_sweep race_reclaim)
  have held: "held_job [row_reclaimed] 1 ''w'' = Some row_reclaimed"
    by (simp add: held_job_def find_job_def holds_claim_def race_rows)
  have row: "requeue_row (stmt_at 30000050) row_reclaimed = row_overdrawn"
    "update_rows (holds_claim 1 ''w'') (requeue_row (stmt_at 30000050)) [row_reclaimed] = [row_overdrawn]"
    by (simp_all add: update_rows_def holds_claim_def requeue_row_def race_rows)
  have stale: "job_Attempt row_claimed <s job_MaxAttempts row_claimed"
    by (simp add: story_rows sless_sint)
  show ?thesis
    by (simp add: JobSettle_Exec_eq JobSettle_retry_def WithinTx_def retry_body_def tx
        retry_read_delivered retry_write_eq stale dao_JobRequeue_Exec_delivered held row)
qed

text \<open>
  C22: the cap can be overrun. With a sweep and a second claim by the same worker inside the
  retry's transaction, a job of at most two attempts is put back in the queue with both spent,
  and the next claim hands it out for the third time. Every one of these statements is allowed by
  the guards the code has; the invariant of the isolated queue fails here.
\<close>

theorem retry_race_overruns_cap:
  "JobSettle_Exec ext0 tx_reclaimed (stmt_at 30) (stmt_at 30000050) 7 (story_failure True) [row_claimed] =
     (Inr (jobToCore row_overdrawn), [row_overdrawn]) \<and>
   (\<exists>j r. JobClaim_Exec ext0 (stmt_at 30000060) story_claim [row_overdrawn] = (Inr [j], [r]) \<and>
     cj_Attempt j = 3 \<and> cj_MaxAttempts j = 2 \<and> queue_inv 7 [row_claimed] \<and> \<not> queue_inv 7 [r])"
proof
  show "JobSettle_Exec ext0 tx_reclaimed (stmt_at 30) (stmt_at 30000050) 7 (story_failure True) [row_claimed] =
      (Inr (jobToCore row_overdrawn), [row_overdrawn])"
    by (rule race_retry)
  let ?r = "claim_row (stmt_at 30000060) ''w'' 30 row_overdrawn"
  have "claim_due (stmt_at 30000060) [''k''] row_overdrawn" "sint (job_Attempt row_overdrawn) < 32767"
    by (simp_all add: claim_due_def race_rows)
  then have "JobClaim_Exec ext0 (stmt_at 30000060) story_claim [row_overdrawn] = (Inr [jobToCore ?r], [?r])"
    by (simp add: story_claim_row)
  moreover have "cj_Attempt (jobToCore ?r) = 3" "cj_MaxAttempts (jobToCore ?r) = 2"
    by (simp_all add: row_simps race_rows)
  moreover have "queue_inv 7 [row_claimed]"
    by (simp add: queue_inv_def row_inv_def row_ok_iff) (simp add: story_rows)
  moreover have "\<not> queue_inv 7 [?r]"
    by (simp add: queue_inv_def row_inv_def row_simps race_rows)
  ultimately show "\<exists>j r. JobClaim_Exec ext0 (stmt_at 30000060) story_claim [row_overdrawn] = (Inr [j], [r]) \<and>
      cj_Attempt j = 3 \<and> cj_MaxAttempts j = 2 \<and> queue_inv 7 [row_claimed] \<and> \<not> queue_inv 7 [r]"
    by blast
qed

end
