(* ===== verification/SharedQueue.thy ===== *)
theory SharedQueue
  imports Leases RetryRace
begin

text \<open>
  The queue as several processes share it. The steps of \<^emph>\<open>QueueSystem\<close> stay, but the transaction
  of a retryable failure (\<open>internal/core/jobSettle.go\<close>, \<open>retry\<close>) is no longer one of them: its
  read and its write are two steps, and any number of such transactions may be between the two
  while everything else goes on. The write and its commit are one step: the row is locked from
  the one to the other. A step of a transaction is labelled with whether the job its write meets
  is still the record its read decided on.
\<close>

section \<open>Steps\<close>

type_synonym open_retry = "core_JobSettleRequest \<times> JobFailure \<times> job"

record shared =
  sh_world :: world
  sh_open :: "open_retry list"

datatype act =
    Whole event
  | RetryRead core_JobSettleRequest
  | RetryWrite core_JobSettleRequest bool "gerr + core_Job"
  | RetryRollback core_JobSettleRequest

definition still_current :: "table \<Rightarrow> open_retry \<Rightarrow> bool" where
  "still_current t tx =
     (case tx of (request, failure, entity) \<Rightarrow>
        held_job t (csr_ID request) (csr_WorkerID request) = Some entity)"

text \<open>
  The outcomes of the second half: the write is refused and the transaction rolled back; it is
  committed; or the commit takes effect and the answer to it is lost.
\<close>

inductive shared_step :: "ext \<Rightarrow> shared \<Rightarrow> act \<Rightarrow> shared \<Rightarrow> bool" for x where
  whole: "queue_step x w ev w' \<Longrightarrow>
     shared_step x \<lparr> sh_world = w, sh_open = txs \<rparr> (Whole ev) \<lparr> sh_world = w', sh_open = txs \<rparr>"
| read: "clock_within e (w_now w) now' \<Longrightarrow> valid_settle x request \<Longrightarrow>
     csr_Failure request = Some failure \<Longrightarrow> fl_Retryable failure \<Longrightarrow>
     retry_read e request (w_table w) = Inr entity \<Longrightarrow>
     shared_step x \<lparr> sh_world = w, sh_open = txs \<rparr> (RetryRead request)
       \<lparr> sh_world = w\<lparr> w_now := now' \<rparr>, sh_open = (request, failure, entity) # txs \<rparr>"
| refused: "(request, failure, entity) \<in> set txs \<Longrightarrow> clock_within e (w_now w) now' \<Longrightarrow>
     retry_write x e jobRetentionDays request failure entity (w_table w) = (Inl err, t') \<Longrightarrow>
     shared_step x \<lparr> sh_world = w, sh_open = txs \<rparr>
       (RetryWrite request (still_current (w_table w) (request, failure, entity)) (Inl err))
       \<lparr> sh_world = w\<lparr> w_now := now' \<rparr>, sh_open = remove1 (request, failure, entity) txs \<rparr>"
| committed: "(request, failure, entity) \<in> set txs \<Longrightarrow> clock_within e (w_now w) now' \<Longrightarrow>
     retry_write x e jobRetentionDays request failure entity (w_table w) = (Inr job, t') \<Longrightarrow>
     res = Inr job \<or> res = Inl (Sentinel TransactorFailure) \<Longrightarrow>
     shared_step x \<lparr> sh_world = w, sh_open = txs \<rparr>
       (RetryWrite request (still_current (w_table w) (request, failure, entity)) res)
       \<lparr> sh_world = w\<lparr> w_table := t', w_now := now' \<rparr>, sh_open = remove1 (request, failure, entity) txs \<rparr>"
| rollback: "(request, failure, entity) \<in> set txs \<Longrightarrow>
     shared_step x \<lparr> sh_world = w, sh_open = txs \<rparr> (RetryRollback request)
       \<lparr> sh_world = w, sh_open = remove1 (request, failure, entity) txs \<rparr>"

inductive shared_run :: "ext \<Rightarrow> shared \<Rightarrow> act list \<Rightarrow> shared \<Rightarrow> bool" for x s where
  start: "shared_run x s [] s"
| step: "shared_run x s acts s1 \<Longrightarrow> shared_step x s1 act s2 \<Longrightarrow> shared_run x s (acts @ [act]) s2"

definition shared_empty :: "time \<Rightarrow> shared" where
  "shared_empty now = \<lparr> sh_world = empty_world now, sh_open = [] \<rparr>"

abbreviation sh_table :: "shared \<Rightarrow> table" where
  "sh_table s \<equiv> w_table (sh_world s)"

text \<open>
  The two halves are the two halves of the service: with whatever happens between them as the
  other sessions' work, \<^const>\<open>JobSettle_Exec\<close> ends in the same table.
\<close>

lemma shared_retry_is_settle:
  assumes "valid_settle x request" "csr_Failure request = Some failure" "fl_Retryable failure"
    and "retry_read e1 request t = Inr entity" "tx_begins tx" "tx_commits tx"
    and "retry_write x e2 days request failure entity (tx_between tx t) = (res, t')"
  shows "JobSettle_Exec x tx e1 e2 days request t =
    (case res of Inl err \<Rightarrow> (Inl err, tx_between tx t) | Inr job \<Rightarrow> (Inr job, t'))"
  using assms by (simp add: JobSettle_Exec_eq JobSettle_retry_def WithinTx_def retry_body_def Let_def
      split: sum.split)

section \<open>What the steps do to the table\<close>

text \<open>Every step but a purge lets rows evolve; the two halves of a retry write at most once.\<close>

lemma shared_step_cases:
  assumes "shared_step x s act s'"
  obtains (event) ev where "act = Whole ev" "queue_step x (sh_world s) ev (sh_world s')"
  | (quiet) "sh_table s' = sh_table s" "w_now (sh_world s) \<le> w_now (sh_world s')"
      "w_minted (sh_world s') = w_minted (sh_world s)" "\<forall>ev. act \<noteq> Whole ev"
  | (update) request failure entity e res where
      "act = RetryWrite request (still_current (sh_table s) (request, failure, entity)) res"
      "clock_within e (w_now (sh_world s)) (w_now (sh_world s'))"
      "sh_table s' = snd (retry_write x e jobRetentionDays request failure entity (sh_table s))"
      "w_minted (sh_world s') = w_minted (sh_world s)"
  using assms
proof (cases rule: shared_step.cases)
  case (whole w ev w' txs)
  then show ?thesis by (intro event) auto
next
  case (read e w now' request failure entity txs)
  then show ?thesis
    using clock_within_bounds(1,2) [OF read(4), of 0 0] by (intro quiet) (auto intro: order_trans)
next
  case (refused request failure entity txs e w now' err t')
  then show ?thesis
    using clock_within_bounds(1,2) [OF refused(5), of 0 0] by (intro quiet) (auto intro: order_trans)
next
  case (committed request failure entity txs e w now' job t' res)
  then show ?thesis by (intro update) auto
next
  case (rollback request failure entity txs w)
  then show ?thesis by (intro quiet) auto
qed

section \<open>The invariant, with an allowance per stale write\<close>

definition stale_write :: "uuid \<Rightarrow> act \<Rightarrow> bool" where
  "stale_write u act \<longleftrightarrow>
     (case act of RetryWrite request fresh res \<Rightarrow> csr_ID request = u \<and> \<not> fresh | _ \<Rightarrow> False)"

definition stale_writes :: "act list \<Rightarrow> uuid \<Rightarrow> nat" where
  "stale_writes acts u = length (filter (stale_write u) acts)"

lemma stale_writes_simps [simp]:
  "stale_writes [] u = 0"
  "stale_writes (acts @ [act]) u = (if stale_write u act then Suc (stale_writes acts u) else stale_writes acts u)"
  by (simp_all add: stale_writes_def)

definition shared_inv :: "(uuid \<Rightarrow> nat) \<Rightarrow> shared \<Rightarrow> bool" where
  "shared_inv k s \<longleftrightarrow>
     rows_hold (row_within jobRetentionDays k) (sh_table s) \<and>
     set (map job_ID (sh_table s)) \<subseteq> set (w_minted (sh_world s))"

lemma shared_inv_wf: "shared_inv k s \<Longrightarrow> table_wf (sh_table s)"
  by (simp add: shared_inv_def rows_hold_def)

lemma shared_inv_row: "shared_inv k s \<Longrightarrow> find_job (sh_table s) u = Some r \<Longrightarrow> row_within jobRetentionDays k r"
  using rows_hold_find by (auto simp: shared_inv_def)

lemma queue_step_within:
  assumes "queue_step x w ev w'" "rows_hold (row_within jobRetentionDays k) (w_table w)" "json_documented x"
  shows "rows_hold (row_within jobRetentionDays k) (w_table w')"
  using assms
proof (induction rule: queue_step.induct)
  case (enqueue e w now' u request res t')
  then have "t' = snd (JobEnqueue_Exec x e (Some u) request (w_table w))" by simp
  then show ?case using within_rows.enqueue_holds [OF enqueue.prems(1)] by simp
next
  case (claim e w now' request res t')
  then have "t' = snd (JobClaim_Exec x e request (w_table w))" by simp
  then show ?case using within_rows.claim_holds [OF claim.prems(1)] by simp
next
  case (settle e1 w mid e2 now' tx request res t')
  then have "t' = snd (JobSettle_Exec x tx e1 e2 jobRetentionDays request (w_table w))" by simp
  then show ?case
    using within_rows.settle_exec_holds [OF settle.prems(1) settle(1,2) settle.prems(2) settle(3)] by simp
next
  case (reap e w now' res t')
  then have "t' = snd (JobReap_Exec x e jobRetentionDays (w_table w))" by simp
  then show ?case using within_rows.reap_holds [OF reap.prems(1) reap(1)] by simp
next
  case (purge e w now')
  then show ?case using within_rows.purge_holds by simp
qed

lemma queue_step_ids:
  assumes "queue_step x w ev w'" "set (map job_ID (w_table w)) \<subseteq> set (w_minted w)"
  shows "set (map job_ID (w_table w')) \<subseteq> set (w_minted w')"
proof
  fix u
  assume "u \<in> set (map job_ID (w_table w'))"
  then have "find_job (w_table w') u \<noteq> None" by (simp only: find_job_None_iff not_not)
  then show "u \<in> set (w_minted w')"
    using queue_step_absent_or_minted [OF assms(1), of u] queue_step_minted [OF assms(1)] assms(2) by blast
qed

text \<open>
  A stale requeue takes one more from the allowance: the row it finds may have spent all that was
  granted so far.
\<close>

lemma retry_write_within:
  assumes t: "rows_hold (row_within days k) t" and clock: "clock_within e t0 t1" and js: "json_documented x"
    and k': "\<And>u. k u \<le> k' u"
    and stale: "\<not> still_current t (request, failure, entity) \<Longrightarrow> k (csr_ID request) < k' (csr_ID request)"
  shows "rows_hold (row_within days k') (snd (retry_write x e days request failure entity t))"
proof (rule within_rows.retry_write_holds [OF _ clock js])
  show "rows_hold (row_within days k') t"
    by (rule rows_hold_mono [OF t row_within_mono [OF _ k']])
next
  fix r
  assume held: "held_job t (csr_ID request) (csr_WorkerID request) = Some r"
    and left: "sint (job_Attempt entity) < sint (job_MaxAttempts entity)"
    and r: "row_within days k' r"
  have r': "find_job t (csr_ID request) = Some r" "job_ID r = csr_ID request" "job_Status r = JobStatusClaimed"
    using held_job_SomeD [OF held] find_job_eq [OF rows_hold_wf [OF t]] by (auto simp: holds_claim_def)
  have within: "row_within days k r" by (rule rows_hold_find [OF t r'(1)])
  have "sint (job_Attempt r) < sint (job_MaxAttempts r) + int (k' (job_ID r))"
  proof (cases "still_current t (request, failure, entity)")
    case True
    then have "r = entity" using held by (simp add: still_current_def)
    then show ?thesis using left by simp
  next
    case False
    then show ?thesis using stale within r'(2) by (simp add: row_within_def)
  qed
  then show "row_within days k' (requeue_row e r)"
    by (rule requeue_row_within [OF r r'(3)])
qed

lemma shared_step_inv:
  assumes "shared_step x s act s'" "shared_inv (stale_writes acts) s" "json_documented x"
  shows "shared_inv (stale_writes (acts @ [act])) s'"
  using assms(1)
proof (cases rule: shared_step_cases)
  case (event ev)
  have "stale_writes (acts @ [act]) = stale_writes acts" by (simp add: fun_eq_iff event(1) stale_write_def)
  then show ?thesis
    using assms(2,3) queue_step_within [OF event(2)] queue_step_ids [OF event(2)]
    by (simp add: shared_inv_def del: set_map)
next
  case quiet
  have "rows_hold (row_within jobRetentionDays (stale_writes (acts @ [act]))) (sh_table s)"
    by (rule rows_hold_mono [OF conjunct1 [OF assms(2) [unfolded shared_inv_def]]], erule row_within_mono) simp
  then show ?thesis using assms(2) quiet by (simp add: shared_inv_def del: set_map stale_writes_simps)
next
  case (update request failure entity e res)
  have "rows_hold (row_within jobRetentionDays (stale_writes (acts @ [act]))) (sh_table s')"
    unfolding update(3)
    using assms(2) update(1)
    by (intro retry_write_within [where k = "stale_writes acts", OF _ update(2) assms(3)])
      (auto simp: shared_inv_def stale_write_def)
  moreover have "set (map job_ID (sh_table s')) \<subseteq> set (w_minted (sh_world s'))"
    unfolding update(3,4) retry_write_ids using assms(2) by (simp add: shared_inv_def)
  ultimately show ?thesis by (simp add: shared_inv_def)
qed

lemma shared_inv_empty [simp]: "shared_inv k (shared_empty now)"
  by (simp add: shared_inv_def shared_empty_def empty_world_def)

lemma shared_run_inv:
  "shared_run x (shared_empty now) acts s \<Longrightarrow> json_documented x \<Longrightarrow> shared_inv (stale_writes acts) s"
proof (induction rule: shared_run.induct)
  case (step acts s1 act s2)
  then show ?case using shared_step_inv by blast
qed simp

end
