(* ===== verification/SharedSpec.thy ===== *)
theory SharedSpec
  imports SharedQueue RunSpec
begin

text \<open>
  What is left of the properties of \<^emph>\<open>RunSpec\<close> when the transactions of retryable failures
  interleave with everything else: all but the attempt cap, and that one up to the writes that
  acted on a stale read.
\<close>

section \<open>One job across one step\<close>

definition whole_events :: "act list \<Rightarrow> event list" where
  "whole_events acts = concat (map (\<lambda>act. case act of Whole ev \<Rightarrow> [ev] | _ \<Rightarrow> []) acts)"

lemma whole_events_simps [simp]:
  "whole_events [] = []"
  "whole_events (acts @ [act]) = whole_events acts @ (case act of Whole ev \<Rightarrow> [ev] | _ \<Rightarrow> [])"
  by (simp_all add: whole_events_def)

lemma shared_step_job:
  assumes "shared_step x s act s'" "table_wf (sh_table s)" "act \<noteq> Whole EvPurge"
    and "find_job (sh_table s) u = Some r"
  shows "\<exists>r'. find_job (sh_table s') u = Some r' \<and> job_evolves r r'"
  using assms(1)
proof (cases rule: shared_step_cases)
  case (event ev)
  then show ?thesis using queue_step_job_wf [OF event(2) assms(2) _ assms(4)] assms(3) by simp
next
  case quiet
  then show ?thesis using assms(4) by auto
next
  case (update request failure entity e res)
  then show ?thesis using table_op.keeps_job [OF retry_write_op assms(2,4)] by simp
qed

lemma shared_step_minted: "shared_step x s act s' \<Longrightarrow> set (w_minted (sh_world s)) \<subseteq> set (w_minted (sh_world s'))"
  by (erule shared_step_cases) (simp_all add: queue_step_minted)

lemma shared_step_clock: "shared_step x s act s' \<Longrightarrow> w_now (sh_world s) \<le> w_now (sh_world s')"
proof (erule shared_step_cases)
  fix e request failure entity res
  assume "clock_within e (w_now (sh_world s)) (w_now (sh_world s'))"
  then show ?thesis using clock_within_bounds(1,2) [of e _ _ 0 0] order_trans by blast
qed (simp_all add: queue_step_clock)

lemma shared_run_clock: "shared_run x s acts s' \<Longrightarrow> w_now (sh_world s) \<le> w_now (sh_world s')"
  by (induction rule: shared_run.induct) (auto dest: shared_step_clock intro: order_trans)

lemma shared_step_absent:
  assumes "shared_step x s act s'" "u \<in> set (w_minted (sh_world s))" "find_job (sh_table s) u = None"
  shows "find_job (sh_table s') u = None"
  using assms(1)
proof (cases rule: shared_step_cases)
  case (event ev)
  then show ?thesis using queue_step_absent assms(2,3) by blast
next
  case quiet
  then show ?thesis using assms(3) by simp
next
  case (update request failure entity e res)
  then show ?thesis using assms(3) by (simp add: find_job_None_iff retry_write_ids del: set_map)
qed

lemma shared_claims_step:
  assumes step: "shared_step x s act s'" and inv: "shared_inv k s" "shared_inv k' s'"
    and IH: "claims_counted (whole_events acts) (sh_world s)"
  shows "claims_counted (whole_events (acts @ [act])) (sh_world s')"
  using step
proof (cases rule: shared_step_cases)
  case (event ev)
  then show ?thesis
    using claims_counted_step [OF event(2) shared_inv_wf [OF inv(1)] shared_inv_wf [OF inv(2)] _ IH] inv(1)
    by (simp add: shared_inv_def)
next
  case quiet
  then have "whole_events (acts @ [act]) = whole_events acts" by (simp split: act.split)
  then show ?thesis using IH quiet by (simp add: claims_counted_def)
next
  case (update request failure entity e res)
  have ids: "map job_ID (sh_table s') = map job_ID (sh_table s)"
    unfolding update(3) by (rule retry_write_ids)
  have "int (claims_in u (whole_events acts)) \<le> sint (job_Attempt r')"
    if r': "find_job (sh_table s') u = Some r'" for u r'
  proof -
    have "find_job (sh_table s) u \<noteq> None" using r' ids find_job_None_iff by (metis option.distinct(1))
    then obtain r where r: "find_job (sh_table s) u = Some r" by blast
    then have "job_evolves r r'"
      using shared_step_job [OF step shared_inv_wf [OF inv(1)] _ r] r' update(1) by auto
    then show ?thesis using IH r by (fastforce simp: claims_counted_def job_evolves_def)
  qed
  then show ?thesis using IH update(1,4) by (simp add: claims_counted_def)
qed

lemma shared_run_claims:
  "shared_run x (shared_empty now) acts s \<Longrightarrow> json_documented x \<Longrightarrow>
     claims_counted (whole_events acts) (sh_world s)"
proof (induction rule: shared_run.induct)
  case start
  show ?case by (simp add: claims_counted_def shared_empty_def empty_world_def find_job_def)
next
  case (step acts s1 act s2)
  then show ?case
    using shared_claims_step [OF step(2) shared_run_inv [OF step(1)] shared_step_inv [OF step(2) shared_run_inv [OF step(1)]]]
    by blast
qed

section \<open>A live lease, a settled record\<close>

definition act_settles_as :: "uuid \<Rightarrow> string \<Rightarrow> act \<Rightarrow> bool" where
  "act_settles_as u worker act \<longleftrightarrow>
     (case act of
        Whole ev \<Rightarrow> settles_as u worker ev
      | RetryWrite request fresh res \<Rightarrow> csr_ID request = u \<and> csr_WorkerID request = worker
      | _ \<Rightarrow> False)"

lemma shared_step_leased:
  assumes "shared_step x s act s'" "shared_inv k s" "find_job (sh_table s) u = Some r"
    and "job_Status r = JobStatusClaimed" "job_ClaimedBy r = Some worker" "\<not> act_settles_as u worker act"
    and "job_LeaseExpiresAt r = Some l" "w_now (sh_world s') \<le> l"
  shows "find_job (sh_table s') u = Some r"
  using assms(1)
proof (cases rule: shared_step_cases)
  case (event ev)
  have "job_ExpiresAt r = None"
    using shared_inv_row [OF assms(2,3)] assms(4) by (simp add: row_within_def)
  then show ?thesis
    using queue_step_leased_wf [OF event(2) shared_inv_wf [OF assms(2)]] assms(3-8) event(1)
    by (simp add: act_settles_as_def)
next
  case quiet
  then show ?thesis using assms(3) by simp
next
  case (update request failure entity e res)
  have "\<not> holds_claim (csr_ID request) (csr_WorkerID request) r"
    using assms(5,6) find_job_SomeD [OF assms(3)] by (auto simp: update(1) holds_claim_def act_settles_as_def)
  then show ?thesis unfolding update(3) by (rule retry_write_keeps [OF assms(3)])
qed

lemma shared_run_leased:
  assumes "shared_run x s acts' s'" "shared_run x (shared_empty now) acts s" "json_documented x"
    and "find_job (sh_table s) u = Some r" "job_Status r = JobStatusClaimed"
    and "job_ClaimedBy r = Some worker" "list_all (\<lambda>act. \<not> act_settles_as u worker act) acts'"
    and "job_LeaseExpiresAt r = Some l" "w_now (sh_world s') \<le> l"
  shows "find_job (sh_table s') u = Some r \<and> shared_run x (shared_empty now) (acts @ acts') s'"
  using assms
proof (induction rule: shared_run.induct)
  case start
  then show ?case by simp
next
  case (step acts' s1 act s2)
  have IH: "find_job (sh_table s1) u = Some r" "shared_run x (shared_empty now) (acts @ acts') s1"
    using step.IH step.prems shared_step_clock [OF step(2)] by auto
  have "find_job (sh_table s2) u = Some r"
    using shared_step_leased [OF step(2) shared_run_inv [OF IH(2) step.prems(2)] IH(1)] step.prems by simp
  then show ?case using shared_run.step [OF IH(2) step(2)] by simp
qed

lemma shared_step_settled:
  assumes "shared_step x s act s'" "table_wf (sh_table s)" "find_job (sh_table s) u = Some r"
    and "sql_terminal (job_Status r)"
  shows "find_job (sh_table s') u = Some r \<or>
    find_job (sh_table s') u = None \<and> act = Whole EvPurge \<and>
      (\<exists>l. job_ExpiresAt r = Some l \<and> l < w_now (sh_world s'))"
proof (cases "act = Whole EvPurge")
  case True
  then have "queue_step x (sh_world s) EvPurge (sh_world s')"
    by - (rule shared_step_cases [OF assms(1)], use True in auto)
  then show ?thesis using queue_step_purge_job_wf [OF _ assms(2,3)] True by blast
next
  case False
  then show ?thesis using shared_step_job [OF assms(1,2) False assms(3)] assms(4) by (auto simp: job_evolves_def)
qed

lemma shared_run_settled:
  assumes "shared_run x s acts' s'" "shared_run x (shared_empty now) acts s" "json_documented x"
    and "find_job (sh_table s) u = Some r" "sql_terminal (job_Status r)"
  shows "shared_run x (shared_empty now) (acts @ acts') s' \<and>
    (find_job (sh_table s') u = Some r \<or>
     find_job (sh_table s') u = None \<and> Whole EvPurge \<in> set acts' \<and>
       (\<exists>l. job_ExpiresAt r = Some l \<and> l < w_now (sh_world s')) \<and> u \<in> set (w_minted (sh_world s')))"
  using assms
proof (induction rule: shared_run.induct)
  case start
  then show ?case by simp
next
  case (step acts' s1 act s2)
  note IH = step.IH [OF step.prems]
  have run: "shared_run x (shared_empty now) (acts @ acts' @ [act]) s2"
    using shared_run.step [OF conjunct1 [OF IH] step(2)] by simp
  have inv: "shared_inv (stale_writes (acts @ acts')) s1"
    by (rule shared_run_inv [OF conjunct1 [OF IH] step.prems(2)])
  from conjunct2 [OF IH] show ?case
  proof
    assume here: "find_job (sh_table s1) u = Some r"
    then have "u \<in> set (w_minted (sh_world s1))"
      using inv find_job_SomeD [OF here] by (auto simp: shared_inv_def)
    then show ?thesis
      using run shared_step_settled [OF step(2) shared_inv_wf [OF inv] here step.prems(4)]
        shared_step_minted [OF step(2)] by auto
  next
    assume gone: "find_job (sh_table s1) u = None \<and> Whole EvPurge \<in> set acts' \<and>
       (\<exists>l. job_ExpiresAt r = Some l \<and> l < w_now (sh_world s1)) \<and> u \<in> set (w_minted (sh_world s1))"
    then show ?thesis
      using run shared_step_absent [OF step(2)] shared_step_clock [OF step(2)] shared_step_minted [OF step(2)]
      by (auto intro: less_le_trans)
  qed
qed

section \<open>Properties\<close>

text \<open>
  C23: the attempt cap under interleaving. With any number of retry transactions open while other
  sessions write, a job is handed out at most as often as its cap says plus once for every retry
  write that met another record than the one its read decided on. Where no retry acts on a stale
  read, the cap holds; and everything else that ties a record's columns to its status holds
  whatever interleaves.
\<close>

theorem shared_attempts_bounded:
  assumes "shared_run x (shared_empty now) acts s" "json_documented x"
    and "find_job (sh_table s) u = Some r"
  shows "int (claims_in u (whole_events acts)) \<le> sint (job_Attempt r) \<and>
    sint (job_Attempt r) \<le> sint (job_MaxAttempts r) + int (stale_writes acts u) \<and>
    (job_Status r = JobStatusClaimed \<longleftrightarrow> job_ClaimedBy r \<noteq> None) \<and>
    (job_Status r = JobStatusClaimed \<longleftrightarrow> job_LeaseExpiresAt r \<noteq> None) \<and>
    (sql_terminal (job_Status r) \<longleftrightarrow> job_SettledAt r \<noteq> None) \<and>
    (sql_terminal (job_Status r) \<longleftrightarrow> job_ExpiresAt r \<noteq> None) \<and>
    (job_Result r \<noteq> None \<longrightarrow> job_Status r = JobStatusSucceeded) \<and>
    (job_Error r \<noteq> None \<longrightarrow> job_Status r = JobStatusFailed \<or> job_Status r = JobStatusAbandoned) \<and>
    job_Status r \<noteq> JobStatusCancelled"
proof -
  have row: "row_within jobRetentionDays (stale_writes acts) r"
    by (rule shared_inv_row [OF shared_run_inv [OF assms(1,2)] assms(3)])
  have "int (claims_in u (whole_events acts)) \<le> sint (job_Attempt r)"
    using shared_run_claims [OF assms(1,2)] assms(3) by (simp add: claims_counted_def)
  moreover have "job_ID r = u" using find_job_SomeD [OF assms(3)] by simp
  ultimately show ?thesis
    using row by (cases "job_Status r"; simp add: row_within_def row_ok_iff; blast?)
qed

text \<open>The witness: the race of \<^emph>\<open>RetryRace\<close>, its one stale write and its third run.\<close>

definition row_overrun :: job where
  "row_overrun = claim_row (stmt_at 30000060) ''w'' 30 row_overdrawn"

definition race_acts :: "act list" where
  "race_acts =
     [Whole (story_events ! 0), Whole (story_events ! 1), RetryRead (story_failure True),
      Whole (EvReap (Inr [jobToCore row_recovered])),
      Whole (EvClaim story_claim (Inr [jobToCore row_reclaimed])),
      RetryWrite (story_failure True) False (Inr (jobToCore row_overdrawn)),
      Whole (EvClaim story_claim (Inr [jobToCore row_overrun]))]"

abbreviation race_world :: "job \<Rightarrow> time \<Rightarrow> open_retry list \<Rightarrow> shared" where
  "race_world r now txs \<equiv> \<lparr> sh_world = story_world r now, sh_open = txs \<rparr>"

abbreviation race_open :: open_retry where
  "race_open \<equiv> (story_failure True, \<lparr> fl_Error = Some [0x32], fl_Retryable = True \<rparr>, row_claimed)"

lemma race_held: "held_job [row_reclaimed] 1 ''w'' = Some row_reclaimed"
  by (simp add: held_job_def find_job_def holds_claim_def race_rows)

lemma race_steps:
  "shared_step ext0 (race_world row_claimed 20 []) (RetryRead (story_failure True)) (race_world row_claimed 30 [race_open])"
  "shared_step ext0 (race_world row_claimed 30 [race_open]) (Whole (EvReap (Inr [jobToCore row_recovered])))
     (race_world row_recovered 30000030 [race_open])"
  "shared_step ext0 (race_world row_recovered 30000030 [race_open])
     (Whole (EvClaim story_claim (Inr [jobToCore row_reclaimed]))) (race_world row_reclaimed 30000040 [race_open])"
  "shared_step ext0 (race_world row_reclaimed 30000040 [race_open])
     (RetryWrite (story_failure True) False (Inr (jobToCore row_overdrawn))) (race_world row_overdrawn 30000050 [])"
  "shared_step ext0 (race_world row_overdrawn 30000050 []) (Whole (EvClaim story_claim (Inr [jobToCore row_overrun])))
     (race_world row_overrun 30000060 [])"
proof -
  let ?f = "\<lparr> fl_Error = Some [0x32], fl_Retryable = True \<rparr>"
  have req: "csr_ID (story_failure True) = 1" "csr_WorkerID (story_failure True) = ''w''"
    "csr_Failure (story_failure True) = Some ?f" by (simp_all add: story_failure_def)
  have "retry_read (stmt_at 30) (story_failure True) [row_claimed] = Inr row_claimed"
    by (simp add: retry_read_delivered req)
  then show "shared_step ext0 (race_world row_claimed 20 []) (RetryRead (story_failure True))
      (race_world row_claimed 30 [race_open])"
    using shared_step.read [of "stmt_at 30" "story_world row_claimed 20" 30 ext0 "story_failure True" ?f
        row_claimed "[]"]
    by (simp add: clock_stmt_at req story_world_def)
  show "shared_step ext0 (race_world row_claimed 30 [race_open]) (Whole (EvReap (Inr [jobToCore row_recovered])))
      (race_world row_recovered 30000030 [race_open])"
    using queue_step.reap [of "stmt_at 30000030" "story_world row_claimed 30" 30000030 ext0]
    by (intro shared_step.whole)
      (simp add: story_sweep jobRetentionDays_def clock_stmt_at story_world_def [of row_recovered])
  show "shared_step ext0 (race_world row_recovered 30000030 [race_open])
      (Whole (EvClaim story_claim (Inr [jobToCore row_reclaimed]))) (race_world row_reclaimed 30000040 [race_open])"
    using queue_step.claim [of "stmt_at 30000040" "story_world row_recovered 30000030" 30000040 ext0 story_claim]
    by (intro shared_step.whole) (simp add: race_reclaim clock_stmt_at story_world_def [of row_reclaimed])
  have stale: "\<not> still_current [row_reclaimed] race_open"
  proof -
    have "row_reclaimed \<noteq> row_claimed" by (simp add: race_rows story_rows)
    then show ?thesis by (simp add: still_current_def req race_held)
  qed
  have "requeue_row (stmt_at 30000050) row_reclaimed = row_overdrawn"
    "update_rows (holds_claim 1 ''w'') (requeue_row (stmt_at 30000050)) [row_reclaimed] = [row_overdrawn]"
    "job_Attempt row_claimed <s job_MaxAttempts row_claimed"
    by (simp_all add: update_rows_def holds_claim_def requeue_row_def race_rows story_rows sless_sint)
  then have "retry_write ext0 (stmt_at 30000050) 7 (story_failure True) ?f row_claimed [row_reclaimed] =
      (Inr (jobToCore row_overdrawn), [row_overdrawn])"
    by (simp add: retry_write_eq req dao_JobRequeue_Exec_delivered race_held)
  then show "shared_step ext0 (race_world row_reclaimed 30000040 [race_open])
      (RetryWrite (story_failure True) False (Inr (jobToCore row_overdrawn))) (race_world row_overdrawn 30000050 [])"
    using shared_step.committed [of "story_failure True" ?f row_claimed "[race_open]" "stmt_at 30000050"
        "story_world row_reclaimed 30000040" 30000050 ext0 "jobToCore row_overdrawn" "[row_overdrawn]"
        "Inr (jobToCore row_overdrawn)"] stale
    by (simp add: clock_stmt_at jobRetentionDays_def story_world_def)
  have "claim_due (stmt_at 30000060) [''k''] row_overdrawn" "sint (job_Attempt row_overdrawn) < 32767"
    by (simp_all add: claim_due_def race_rows)
  then have "JobClaim_Exec ext0 (stmt_at 30000060) story_claim [row_overdrawn] = (Inr [jobToCore row_overrun], [row_overrun])"
    by (simp add: story_claim_row row_overrun_def)
  then show "shared_step ext0 (race_world row_overdrawn 30000050 [])
      (Whole (EvClaim story_claim (Inr [jobToCore row_overrun]))) (race_world row_overrun 30000060 [])"
    using queue_step.claim [of "stmt_at 30000060" "story_world row_overdrawn 30000050" 30000060 ext0 story_claim]
    by (intro shared_step.whole) (simp add: clock_stmt_at story_world_def [of row_overrun])
qed

lemma race_prefix:
  "shared_run ext0 (shared_empty 0) [Whole (story_events ! 0), Whole (story_events ! 1)] (race_world row_claimed 20 [])"
proof -
  have "shared_step ext0 (shared_empty 0) (Whole (story_events ! 0)) (race_world row_pending 10 [])"
    unfolding shared_empty_def by (rule shared_step.whole [OF story_steps(1)])
  from shared_run.step [OF shared_run.step [OF shared_run.start this] shared_step.whole [OF story_steps(2)]]
  show ?thesis by simp
qed

lemma race_run: "shared_run ext0 (shared_empty 0) race_acts (race_world row_overrun 30000060 [])"
  using shared_run.step [OF shared_run.step [OF shared_run.step [OF shared_run.step [OF shared_run.step
    [OF race_prefix race_steps(1)] race_steps(2)] race_steps(3)] race_steps(4)] race_steps(5)]
  by (simp add: race_acts_def)

lemma shared_attempts_bounded_witness:
  "claims_in 1 (whole_events race_acts) = 3 \<and> stale_writes race_acts 1 = 1 \<and>
   sint (job_Attempt row_overrun) \<le> sint (job_MaxAttempts row_overrun) + 1"
proof -
  have n: "claims_in 1 (whole_events race_acts) = 3" "stale_writes race_acts 1 = 1"
    by (simp_all add: race_acts_def whole_events_def claims_in_def claims_job_def story_events_def
        stale_writes_def stale_write_def story_failure_def row_overrun_def row_simps)
      (simp_all add: race_rows)
  have "find_job (sh_table (race_world row_overrun 30000060 [])) 1 = Some row_overrun"
    by (simp add: find_job_def row_overrun_def row_simps) (simp add: race_rows)
  then show ?thesis
    using n shared_attempts_bounded [OF race_run ext0_json, of 1 row_overrun] by simp
qed

text \<open>
  C24: a lease protects its holder whatever interleaves. As long as the lease runs and neither the
  holder settles nor a retry it opened writes, the record stays as it is, with any number of other
  sessions claiming, settling, sweeping, purging and standing in the middle of retries.
\<close>

theorem shared_lease_protects:
  assumes "shared_run x (shared_empty now) acts s" "json_documented x" "shared_run x s acts' s'"
    and "find_job (sh_table s) u = Some r" "job_Status r = JobStatusClaimed"
    and "job_ClaimedBy r = Some worker" "job_LeaseExpiresAt r = Some lease" "w_now (sh_world s') \<le> lease"
    and "list_all (\<lambda>act. \<not> act_settles_as u worker act) acts'"
  shows "find_job (sh_table s') u = Some r"
  using shared_run_leased [OF assms(3,1,2,4,5,6,9,7,8)] by blast

text \<open>The witness: the holder has opened a retry, and a sweep runs before it writes.\<close>

lemma shared_lease_protects_witness:
  "find_job (snd (JobReap_Exec ext0 (stmt_at 30000020) 7 [row_claimed])) 1 = Some row_claimed"
proof -
  let ?r = "JobReap_Exec ext0 (stmt_at 30000020) 7 [row_claimed]"
  let ?w = "\<lparr> w_table = snd ?r, w_now = 30000020, w_minted = [1] \<rparr>"
  have "queue_step ext0 (story_world row_claimed 30) (EvReap (fst ?r)) ?w"
    using queue_step.reap [of "stmt_at 30000020" "story_world row_claimed 30" 30000020 ext0 "fst ?r" "snd ?r"]
    by (simp add: clock_stmt_at jobRetentionDays_def)
  from shared_step.whole [OF this]
  have run: "shared_run ext0 (race_world row_claimed 20 [])
      (([] @ [RetryRead (story_failure True)]) @ [Whole (EvReap (fst ?r))]) \<lparr> sh_world = ?w, sh_open = [race_open] \<rparr>"
    by (rule shared_run.step [OF shared_run.step [OF shared_run.start race_steps(1)]])
  show ?thesis
    using shared_lease_protects [OF race_prefix ext0_json run, of 1 row_claimed "''w''" 30000020]
    by (simp add: act_settles_as_def settles_as_def)
qed

text \<open>
  C25: a settled job is final whatever interleaves. No open retry, however stale its read, changes
  a settled record; it disappears only by a purge more than the retention after it settled.
\<close>

theorem shared_settled_is_final:
  assumes "shared_run x (shared_empty now) acts s" "json_documented x" "shared_run x s acts' s'"
    and "find_job (sh_table s) u = Some r" "sql_terminal (job_Status r)"
  shows "find_job (sh_table s') u = Some r \<or>
    find_job (sh_table s') u = None \<and> Whole EvPurge \<in> set acts' \<and>
      (\<exists>a. job_SettledAt r = Some a \<and> a + 604800000000 < w_now (sh_world s'))"
proof -
  have "row_within 7 (stale_writes acts) r"
    using shared_inv_row [OF shared_run_inv [OF assms(1,2)] assms(4)] by (simp add: jobRetentionDays_def)
  then obtain a b where "job_SettledAt r = Some a" "job_ExpiresAt r = Some b" "a + 604800000000 \<le> b"
    using assms(5) by (auto simp: row_within_def row_ok_iff interval_days_def)
  then show ?thesis using shared_run_settled [OF assms(3,1,2,4,5)] by auto
qed

text \<open>The witness: the worker reports success while its own retry is open; the retry then writes nothing.\<close>

definition row_done :: job where
  "row_done = settle_row (stmt_at 40) JobStatusSucceeded (Some [0x31]) None 7 row_claimed"

lemma done_steps:
  "queue_step ext0 (story_world row_claimed 30) (EvSettle story_success (Inr (jobToCore row_done))) (story_world row_done 40)"
  "\<exists>err. shared_step ext0 (race_world row_done 40 [race_open]) (RetryWrite (story_failure True) False (Inl err))
     (race_world row_done 50 [])"
proof -
  have req: "csr_ID story_success = 1" "csr_WorkerID story_success = ''w''"
    "csr_Failure story_success = None" "csr_Result story_success = Some [0x31]"
    by (simp_all add: story_success_def)
  have "holds_claim 1 ''w'' row_claimed" by (simp add: holds_claim_def)
  then have "JobSettle_Exec ext0 txn_alone (stmt_at 40) (stmt_at 40) 7 story_success [row_claimed] =
      (Inr (jobToCore row_done), [row_done])"
    by (simp add: JobSettle_Exec_eq JobSettle_settle_eq settle_request_def req row_done_def
        dao_JobSettle_Exec_delivered update_rows_def)
  then show "queue_step ext0 (story_world row_claimed 30) (EvSettle story_success (Inr (jobToCore row_done)))
      (story_world row_done 40)"
    using queue_step.settle [of "stmt_at 40" "story_world row_claimed 30" 40 "stmt_at 40" 40 txn_alone ext0 story_success]
    by (simp add: clock_stmt_at jobRetentionDays_def fun_eq_iff story_world_def [of row_done])
  have freq: "csr_ID (story_failure True) = 1" "csr_WorkerID (story_failure True) = ''w''"
    by (simp_all add: story_failure_def)
  have wf: "table_wf [row_done]" "held_job [row_done] 1 ''w'' = None"
    by (simp_all add: table_wf_def row_ok_iff held_job_def find_job_def holds_claim_def row_done_def row_simps
        interval_days_def) (simp_all add: story_rows)
  have "job_Attempt row_claimed <s job_MaxAttempts row_claimed" by (simp add: story_rows sless_sint)
  then obtain err where "retry_write ext0 (stmt_at 50) 7 (story_failure True) \<lparr> fl_Error = Some [0x32], fl_Retryable = True \<rparr>
      row_claimed [row_done] = (Inl err, [row_done])"
    by (simp add: retry_write_eq freq dao_JobRequeue_Exec_delivered [OF wf(1)] wf(2))
  moreover have "\<not> still_current [row_done] race_open" by (simp add: still_current_def freq wf(2))
  ultimately have "shared_step ext0 (race_world row_done 40 [race_open]) (RetryWrite (story_failure True) False (Inl err))
      (race_world row_done 50 [])"
    using shared_step.refused [of "story_failure True" "\<lparr> fl_Error = Some [0x32], fl_Retryable = True \<rparr>" row_claimed
        "[race_open]" "stmt_at 50" "story_world row_done 40" 50 ext0 err "[row_done]"]
    by (simp add: clock_stmt_at jobRetentionDays_def story_world_def)
  then show "\<exists>err. shared_step ext0 (race_world row_done 40 [race_open])
      (RetryWrite (story_failure True) False (Inl err)) (race_world row_done 50 [])" by blast
qed

lemma shared_settled_is_final_witness:
  "\<exists>err. shared_run ext0 (race_world row_done 40 [race_open]) [RetryWrite (story_failure True) False (Inl err)]
     (race_world row_done 50 []) \<and> find_job (sh_table (race_world row_done 50 [])) 1 = Some row_done"
proof -
  have pre: "shared_run ext0 (shared_empty 0)
      (([Whole (story_events ! 0), Whole (story_events ! 1)] @ [RetryRead (story_failure True)]) @
       [Whole (EvSettle story_success (Inr (jobToCore row_done)))]) (race_world row_done 40 [race_open])"
    by (rule shared_run.step [OF shared_run.step [OF race_prefix race_steps(1)] shared_step.whole [OF done_steps(1)]])
  obtain err where "shared_step ext0 (race_world row_done 40 [race_open])
      (RetryWrite (story_failure True) False (Inl err)) (race_world row_done 50 [])"
    using done_steps(2) by blast
  from shared_run.step [OF shared_run.start this]
  have run: "shared_run ext0 (race_world row_done 40 [race_open]) [RetryWrite (story_failure True) False (Inl err)]
      (race_world row_done 50 [])" by simp
  have "job_ID row_done = 1" "sql_terminal (job_Status row_done)"
    by (simp_all add: row_done_def row_simps)
  then show ?thesis
    using shared_settled_is_final [OF pre ext0_json run, of 1 row_done] run by (auto simp: find_job_def)
qed

end
