(* ===== verification/EnqueueSpec.thy ===== *)
theory EnqueueSpec
  imports RunSpec
begin

text \<open>
  What a producer may count on when it enqueues: which requests are refused, when a job is
  created and when an existing one is returned, and what a retry after a lost reply gets.
\<close>

section \<open>Refusals\<close>

lemma dao_query_unnamed:
  assumes "fst (dao_query e f scan q t) = Inl err"
    and "\<And>a t'. q t = (Inl a, t') \<Longrightarrow> unnamed_error (f a)"
    and "\<And>rows a. scan rows = Inl a \<Longrightarrow> unnamed_error (f a)"
    and "unnamed_error (f (Sentinel DriverFailure))"
  shows "unnamed_error err"
  using assms
  by (auto simp: dao_query_def NewRaw_def Let_def split: if_splits delivery.splits sum.splits prod.splits)

lemma scan_one_Inl: "scan_one rows = Inl a \<Longrightarrow> a = Sentinel SqlErrNoRows"
  by (cases rows) simp_all

lemma row_violation_unnamed: "row_violation r = Some err \<Longrightarrow> unnamed_error err"
  by (auto simp: row_violation_def split: if_splits)

lemma dao_JobEnqueue_Exec_unnamed:
  assumes "fst (dao_JobEnqueue_Exec x e request t) = Inl err"
  shows "unnamed_error err"
proof (rule dao_query_unnamed [OF assms [unfolded dao_JobEnqueue_Exec_def]])
  fix a t'
  assume "sql_jobEnqueue x e request t = (Inl a, t')"
  then show "unnamed_error (id a)"
    using row_violation_unnamed by (auto simp: sql_jobEnqueue_def Let_def split: option.splits if_splits)
qed (auto dest: scan_one_Inl)

lemma ValidateNotBlank_iff: "ValidateNotBlank s \<longleftrightarrow> \<not> all_space s"
  by (simp add: ValidateNotBlank_def TrimSpace_Nil_iff)

lemma all_space_Nil [simp]: "all_space ''''"
  by (auto simp: all_space_def intro: exI [of _ "[]"])

text \<open>
  C27: an enqueue is refused as an invalid request exactly if its kind is empty or blank (white
  space only, in the sense of Go's \<open>unicode.IsSpace\<close>), its owner is the nil UUID, or its attempt
  cap is negative; a refused request never reaches the table.
\<close>

theorem enqueue_refused_iff:
  assumes "validator_documented x"
  shows "((\<exists>err. fst (JobEnqueue_Exec x e v request t) = Inl err \<and> errors_Is err ErrInvalidRequest) \<longleftrightarrow>
      all_space (cer_Kind request) \<or> cer_OwnerID request = 0 \<or> sint (cer_MaxAttempts request) < 0) \<and>
    ((\<exists>err. fst (JobEnqueue_Exec x e v request t) = Inl err \<and> errors_Is err ErrInvalidRequest) \<longrightarrow>
      snd (JobEnqueue_Exec x e v request t) = t)"
proof -
  have valid: "valid_enqueue x request \<longleftrightarrow>
      \<not> (all_space (cer_Kind request) \<or> cer_OwnerID request = 0 \<or> sint (cer_MaxAttempts request) < 0)"
    using assms by (auto simp: valid_enqueue_def ValidateNotBlank_iff)
  have named: "\<not> errors_Is err ErrInvalidRequest"
    if "valid_enqueue x request" "fst (JobEnqueue_Exec x e v request t) = Inl err" for err
  proof (cases v)
    case None
    then show ?thesis using that by (auto simp: JobEnqueue_Exec_eq)
  next
    case (Some u)
    obtain res t' where dao: "dao_JobEnqueue_Exec x e (enqueue_request u request) t = (res, t')" by fastforce
    show ?thesis
    proof (cases res)
      case (Inl a)
      then have "unnamed_error a"
        using dao_JobEnqueue_Exec_unnamed [of x e "enqueue_request u request" t a] dao by simp
      then show ?thesis
        using that dao Inl Some unnamed_errorD [of a ErrInvalidRequest] by (auto simp: JobEnqueue_Exec_eq)
    next
      case (Inr r)
      then show ?thesis
        using that dao Some by (auto simp: JobEnqueue_Exec_eq enqueue_result_def Let_def split: if_splits)
    qed
  qed
  show ?thesis
  proof (cases "valid_enqueue x request")
    case True
    then show ?thesis using valid named by blast
  next
    case False
    then have "JobEnqueue_Exec x e v request t = (Inl invalid_request, t)" by (simp add: JobEnqueue_Exec_eq)
    then show ?thesis using False valid by simp
  qed
qed

lemma enqueue_refused_iff_witness:
  "\<exists>err. fst (JobEnqueue_Exec ext0 (stmt_at 10) (Some 1) (story_enqueue\<lparr> cer_Kind := '' '' \<rparr>) []) = Inl err \<and>
     errors_Is err ErrInvalidRequest"
proof -
  have "TrimSpace '' '' = ''''" by code_simp
  then have "all_space '' ''" by (simp add: TrimSpace_Nil_iff)
  then show ?thesis
    using enqueue_refused_iff [OF ext0_validator, of "stmt_at 10" "Some 1" "story_enqueue\<lparr> cer_Kind := '' '' \<rparr>" "[]"]
    by simp
qed

section \<open>Creation, replay and conflict\<close>

text \<open>The record a request creates, column by column, with the payload as the column stores it.\<close>

definition created_row :: "stmt \<Rightarrow> uuid \<Rightarrow> core_JobEnqueueRequest \<Rightarrow> rawmsg \<Rightarrow> job" where
  "created_row e u request payload =
     \<lparr> job_ID = u, job_Kind = cer_Kind request, job_Payload = payload, job_OwnerID = cer_OwnerID request,
       job_IdempotencyKey = cer_IdempotencyKey request,
       job_RequestFingerprint = fingerprintOf (cer_Payload request),
       job_Status = JobStatusPending, job_Attempt = 0,
       job_MaxAttempts = (if cer_MaxAttempts request = 0 then 1 else cer_MaxAttempts request),
       job_RunAt = st_clock e u 0, job_LeaseExpiresAt = None, job_ClaimedBy = None,
       job_CancelRequestedAt = None, job_ProviderCallID = None, job_Result = None, job_Error = None,
       job_CreatedAt = st_clock e u 1, job_UpdatedAt = st_clock e u 2,
       job_SettledAt = None, job_ExpiresAt = None \<rparr>"

lemma created_row_inserted: "created_row e u request p = inserted_row e (enqueue_request u request) p"
  by (simp add: created_row_def inserted_row_def)

lemma sint16_pos: "0 \<le> sint (a :: int16) \<Longrightarrow> a \<noteq> 0 \<Longrightarrow> 1 \<le> sint a"
  using signed_word_eqI [of a 0] by (cases "sint a = 0") auto

lemma enqueue_request_accepted:
  assumes "validator_documented x" "valid_enqueue x request" "json_documented x"
    and "x_json_arg x (Some (payloadOr (cer_Payload request))) = Some p"
    and "cer_IdempotencyKey request \<noteq> Some ''''"
  shows "enqueue_accepted (enqueue_request u request) p"
proof -
  have "p \<noteq> None" using assms(3,4) json_documented_some by metis
  moreover have "cer_Kind request \<noteq> ''''" "0 \<le> sint (cer_MaxAttempts request)"
    using assms(1,2) by (auto simp: valid_enqueue_def)
  ultimately show ?thesis using assms(5) sint16_pos by (simp add: enqueue_accepted_def)
qed

lemma JobEnqueue_Exec_outcome:
  assumes "validator_documented x" "valid_enqueue x request" "json_documented x" "undisturbed e"
    and "x_json_arg x (Some (payloadOr (cer_Payload request))) = Some p"
    and "cer_IdempotencyKey request \<noteq> Some ''''" "u \<notin> set (map job_ID t)"
  shows "JobEnqueue_Exec x e (Some u) request t =
    (case recorded_under t (cer_OwnerID request) (cer_Kind request) (cer_IdempotencyKey request) of
       None \<Rightarrow> (Inr \<lparr> res_Job = jobToCore (created_row e u request p), res_Created = True \<rparr>,
                t @ [created_row e u request p])
     | Some s \<Rightarrow>
         if job_RequestFingerprint s = fingerprintOf (cer_Payload request)
         then (Inr \<lparr> res_Job = jobToCore s, res_Created = False \<rparr>, t)
         else (Inl (Sentinel ErrJobConflict), t))"
proof -
  have "enqueue_accepted (enqueue_request u request) p"
    using assms(1-3,5,6) by (rule enqueue_request_accepted)
  then have sql: "sql_jobEnqueue x e (enqueue_request u request) t =
      (case recorded_under t (cer_OwnerID request) (cer_Kind request) (cer_IdempotencyKey request) of
         Some s \<Rightarrow> (Inr [s], t)
       | None \<Rightarrow> (Inr [created_row e u request p], t @ [created_row e u request p]))"
    using assms(5,7) sql_jobEnqueue_cases [of x "enqueue_request u request" p e t]
    by (simp add: created_row_inserted split: option.split)
  have id: "job_ID (created_row e u request p) = u"
    by (simp add: created_row_def)
  have other: "job_ID s \<noteq> u" if "recorded_under t o' k key = Some s" for s o' k key
    using recorded_under_SomeD [OF that] assms(7) by auto
  show ?thesis
    using assms(2,4) sql id other
    by (auto simp: JobEnqueue_Exec_eq dao_JobEnqueue_Exec_def dao_query_delivered undisturbedD
        enqueue_result_def Let_def split: option.splits)
qed

text \<open>What the validation lets through and the database does not take gives an error without a name.\<close>

lemma enqueue_rejected_by_database:
  assumes "valid_enqueue x request" "undisturbed e"
    and "x_json_arg x (Some (payloadOr (cer_Payload request))) = None \<or> cer_IdempotencyKey request = Some ''''"
  shows "\<exists>err. JobEnqueue_Exec x e (Some u) request t = (Inl err, t) \<and> unnamed_error err"
proof -
  have "\<exists>err. sql_jobEnqueue x e (enqueue_request u request) t = (Inl err, t) \<and> unnamed_error err"
  proof (cases "x_json_arg x (Some (payloadOr (cer_Payload request)))")
    case None
    then show ?thesis by (simp add: sql_jobEnqueue_def)
  next
    case (Some p)
    then have "\<not> row_ok (inserted_row e (enqueue_request u request) p)"
      using assms(3) by (simp add: inserted_row_ok enqueue_accepted_def)
    then show ?thesis
      using Some row_violation_unnamed by (auto simp: sql_jobEnqueue_def Let_def row_ok_def)
  qed
  then show ?thesis
    using assms(1,2)
    by (auto simp: JobEnqueue_Exec_eq dao_JobEnqueue_Exec_def dao_query_delivered undisturbedD)
qed

text \<open>
  An idempotency key of zero length passes the service's validation: no constraint of the validator
  covers the field. The CHECK of the column rejects the row, whatever the table holds, and the caller
  gets an unnamed error where every other malformed field is reported as an invalid request.
\<close>

lemma empty_key_is_unnamed_error:
  assumes "valid_enqueue x request" "undisturbed e" "cer_IdempotencyKey request = Some ''''"
  shows "\<exists>err. JobEnqueue_Exec x e (Some u) request t = (Inl err, t) \<and> unnamed_error err"
  using enqueue_rejected_by_database assms by blast

text \<open>
  C26: a valid enqueue that reaches the database, with an identifier no record has, has four outcomes. If the payload is no JSON the
  column takes, or the idempotency key is present and empty, it fails with an error of no
  sentinel and records nothing. Otherwise, under a key nobody used or no key at all, it creates
  the job of \<^const>\<open>created_row\<close>: pending, no attempt spent, due at once, at most \<open>max_attempts\<close> runs
  (one if the request says zero), held by nobody and not settled. Under a key that owner already
  used for that kind, it returns the recorded job unchanged, as not created, if it was enqueued for
  the same bytes, and is a conflict otherwise; the table is untouched in both cases.
\<close>

theorem enqueue_outcome:
  assumes "validator_documented x" "valid_enqueue x request" "json_documented x" "undisturbed e"
    and "u \<notin> set (map job_ID t)"
  shows "case x_json_arg x (Some (payloadOr (cer_Payload request))) of
      None \<Rightarrow> \<exists>err. JobEnqueue_Exec x e (Some u) request t = (Inl err, t) \<and> unnamed_error err
    | Some p \<Rightarrow>
        if cer_IdempotencyKey request = Some ''''
        then \<exists>err. JobEnqueue_Exec x e (Some u) request t = (Inl err, t) \<and> unnamed_error err
        else JobEnqueue_Exec x e (Some u) request t =
          (case recorded_under t (cer_OwnerID request) (cer_Kind request) (cer_IdempotencyKey request) of
             None \<Rightarrow> (Inr \<lparr> res_Job = jobToCore (created_row e u request p), res_Created = True \<rparr>,
                      t @ [created_row e u request p])
           | Some s \<Rightarrow>
               if job_RequestFingerprint s = fingerprintOf (cer_Payload request)
               then (Inr \<lparr> res_Job = jobToCore s, res_Created = False \<rparr>, t)
               else (Inl (Sentinel ErrJobConflict), t))"
  using enqueue_rejected_by_database [OF assms(2,4)] JobEnqueue_Exec_outcome [OF assms(1-4) _ _ assms(5)]
  by (cases "x_json_arg x (Some (payloadOr (cer_Payload request)))") simp_all

text \<open>The witness is a replay.\<close>

lemma row_pending_recorded:
  "recorded_under [row_pending] 7 ''k'' (Some ''a'') = Some row_pending"
  by (simp add: recorded_under_def row_pending_def)

lemma enqueue_outcome_witness:
  "JobEnqueue_Exec ext0 (stmt_at 15) (Some 2) story_enqueue [row_pending] =
     (Inr \<lparr> res_Job = jobToCore row_pending, res_Created = False \<rparr>, [row_pending])"
proof -
  have "cer_Kind story_enqueue = ''k''" "cer_OwnerID story_enqueue = 7"
    "cer_IdempotencyKey story_enqueue = Some ''a''" "cer_Payload story_enqueue = None"
    "job_RequestFingerprint row_pending = fingerprintOf None"
    by (simp_all add: story_enqueue_def row_pending_def)
  then show ?thesis
    using enqueue_outcome [of ext0 story_enqueue "stmt_at 15" 2 "[row_pending]"] row_pending_recorded
    by simp
qed

text \<open>
  C28: a client that lost the reply of an enqueue can send it again if it gave the job a key, and
  only then. Say the first call, valid, its payload JSON the column takes, with no key or with one that
  is not empty and not recorded yet, reached the database, but its reply never arrived: the client
  sees an error of no sentinel. The same request sent again, under a new identifier of its own,
  returns, under a key, the job the first call recorded, as not created, and records nothing more;
  without a key it creates a second job.
\<close>

theorem lost_enqueue_attaches:
  assumes "validator_documented x" "valid_enqueue x request" "json_documented x"
    and "x_json_arg x (Some (payloadOr (cer_Payload request))) = Some p"
    and "cer_IdempotencyKey request \<noteq> Some ''''"
    and "recorded_under t (cer_OwnerID request) (cer_Kind request) (cer_IdempotencyKey request) = None"
    and "st_handle e" "st_delivery e = ReplyLost" "u \<notin> set (map job_ID t)"
    and "undisturbed e'" "u' \<notin> set (map job_ID t)" "u' \<noteq> u" "table_wf t"
  shows "(\<exists>err. JobEnqueue_Exec x e (Some u) request t = (Inl err, t @ [created_row e u request p]) \<and>
      unnamed_error err) \<and>
    JobEnqueue_Exec x e' (Some u') request (t @ [created_row e u request p]) =
      (if cer_IdempotencyKey request \<noteq> None
       then (Inr \<lparr> res_Job = jobToCore (created_row e u request p), res_Created = False \<rparr>,
             t @ [created_row e u request p])
       else (Inr \<lparr> res_Job = jobToCore (created_row e' u' request p), res_Created = True \<rparr>,
             t @ [created_row e u request p, created_row e' u' request p]))"
proof -
  let ?row = "created_row e u request p" and ?req = "enqueue_request u request"
  have acc: "enqueue_accepted ?req p" by (rule enqueue_request_accepted [OF assms(1-5)])
  have row: "job_OwnerID ?row = cer_OwnerID request" "job_Kind ?row = cer_Kind request"
    "job_IdempotencyKey ?row = cer_IdempotencyKey request" "job_ID ?row = u"
    "job_RequestFingerprint ?row = fingerprintOf (cer_Payload request)"
    by (simp_all add: created_row_def)
  have wf: "table_wf (t @ [?row])"
    unfolding created_row_inserted by (rule insert_wf [OF assms(13) acc]) (use assms(6,9) in simp_all)
  have first: "JobEnqueue_Exec x e (Some u) request t =
      (Inl (Wrapf ''enqueue job'' (Wrapf ''execute query'' (Sentinel DriverFailure))), t @ [?row])"
    using assms(2,4,6-9) acc sql_jobEnqueue_cases [of x ?req p e t]
    by (simp add: JobEnqueue_Exec_eq dao_JobEnqueue_Exec_def dao_query_def NewRaw_def created_row_inserted)
  have "recorded_under (t @ [?row]) (cer_OwnerID request) (cer_Kind request) (cer_IdempotencyKey request) =
      (if cer_IdempotencyKey request = None then None else Some ?row)"
    using recorded_under_eq [OF wf, of ?row] row by auto
  then have "JobEnqueue_Exec x e' (Some u') request (t @ [?row]) =
      (if cer_IdempotencyKey request \<noteq> None then (Inr \<lparr> res_Job = jobToCore ?row, res_Created = False \<rparr>, t @ [?row])
       else (Inr \<lparr> res_Job = jobToCore (created_row e' u' request p), res_Created = True \<rparr>,
             t @ [?row, created_row e' u' request p]))"
    using JobEnqueue_Exec_outcome [OF assms(1-3,10,4,5), of u' "t @ [?row]"] assms(11,12) row by simp
  then show ?thesis using first by simp
qed

lemma lost_enqueue_attaches_witness:
  "\<exists>r err j. JobEnqueue_Exec ext0 ((stmt_at 10)\<lparr> st_delivery := ReplyLost \<rparr>) (Some 1) story_enqueue [] = (Inl err, [r]) \<and>
     JobEnqueue_Exec ext0 (stmt_at 15) (Some 2) story_enqueue [r] =
       (Inr \<lparr> res_Job = j, res_Created = False \<rparr>, [r]) \<and> cj_ID j = 1"
proof -
  let ?e = "(stmt_at 10)\<lparr> st_delivery := ReplyLost \<rparr>"
  have f: "cer_IdempotencyKey story_enqueue = Some ''a''" by (simp add: story_enqueue_def)
  then have f': "cer_IdempotencyKey story_enqueue \<noteq> Some ''''" by simp
  have "job_ID (created_row ?e 1 story_enqueue p) = 1" for p
    by (simp add: created_row_def)
  then show ?thesis
    using lost_enqueue_attaches [OF ext0_validator story_valid(1) ext0_json ext0_json_arg f', of "[]"
        ?e 1 "stmt_at 15" 2] f
    by (fastforce simp: recorded_under_def)
qed

section \<open>A key names one job\<close>

lemma queue_run_job:
  assumes "queue_run x w es w'" "world_inv w" "json_documented x"
    and "find_job (w_table w) u = Some r"
  shows "u \<in> set (w_minted w') \<and>
    (\<forall>s. find_job (w_table w') u = Some s \<longrightarrow> same_identity s r)"
  using assms
proof (induction rule: queue_run.induct)
  case start
  then show ?case using find_job_SomeD [OF start(3)] by (auto simp: world_inv_def)
next
  case (step es w1 ev w2)
  have inv: "world_inv w1" by (rule queue_run_inv [OF step(1) step.prems(1,2)])
  have IH: "u \<in> set (w_minted w1)" "\<And>s. find_job (w_table w1) u = Some s \<Longrightarrow> same_identity s r"
    using step.IH step.prems by auto
  have "same_identity s r" if s: "find_job (w_table w2) u = Some s" for s
  proof (cases "find_job (w_table w1) u")
    case None
    then show ?thesis using queue_step_absent [OF step(2) IH(1) None] s by simp
  next
    case (Some r1)
    show ?thesis
    proof (cases "ev = EvPurge")
      case True
      then show ?thesis using queue_step_purge_job [of x w1 w2 u r1] step(2) inv Some s IH(2) by auto
    next
      case False
      then have "same_identity s r1"
        using queue_step_job [OF step(2) inv False Some] s by (auto simp: job_evolves_def)
      then show ?thesis using IH(2) [OF Some] by (simp add: same_identity_def)
    qed
  qed
  then show ?case using IH(1) queue_step_minted [OF step(2)] by auto
qed

lemma inserted_row_key:
  "job_OwnerID (inserted_row e q p) = der_OwnerID q" "job_Kind (inserted_row e q p) = der_Kind q"
  "job_IdempotencyKey (inserted_row e q p) = der_IdempotencyKey q"
  by (simp_all add: inserted_row_def)

lemma sql_jobEnqueue_InrD:
  assumes "sql_jobEnqueue x e q t = (Inr rows, t')"
  shows "\<exists>r. rows = [r] \<and> r \<in> set t' \<and> job_OwnerID r = der_OwnerID q \<and> job_Kind r = der_Kind q \<and>
    job_IdempotencyKey r = der_IdempotencyKey q"
  using assms
  by (auto simp: sql_jobEnqueue_def Let_def find_conflicts_inserted inserted_row_key
      split: option.splits if_splits dest!: recorded_under_SomeD)

lemma JobEnqueue_Exec_Inr:
  assumes "JobEnqueue_Exec x e (Some u) request t = (Inr res, t')"
  obtains r where "find_job t' (cj_ID (res_Job res)) = Some r \<or> \<not> table_wf t"
    "r \<in> set t'" "res_Job res = jobToCore r" "job_OwnerID r = cer_OwnerID request"
    "job_Kind r = cer_Kind request" "job_IdempotencyKey r = cer_IdempotencyKey request"
    "res_Created res \<longleftrightarrow> job_ID r = u"
proof -
  from assms obtain r where dao: "dao_JobEnqueue_Exec x e (enqueue_request u request) t = (Inr r, t')"
    and res: "enqueue_result u (fingerprintOf (cer_Payload request)) r = Inr res"
    by (auto simp: JobEnqueue_Exec_eq via_dao_Inr split: if_splits)
  from dao obtain rows where rows: "sql_jobEnqueue x e (enqueue_request u request) t = (Inr rows, t')"
    "scan_one rows = Inr r"
    unfolding dao_JobEnqueue_Exec_def by (rule dao_query_Inr)
  have r: "r \<in> set t' \<and> job_OwnerID r = cer_OwnerID request \<and> job_Kind r = cer_Kind request \<and>
      job_IdempotencyKey r = cer_IdempotencyKey request"
    using sql_jobEnqueue_InrD [OF rows(1)] rows(2) by auto
  have "res_Job res = jobToCore r" "res_Created res \<longleftrightarrow> job_ID r = u"
    using res by (auto simp: enqueue_result_def Let_def split: if_splits)
  moreover have "find_job t' (job_ID r) = Some r" if "table_wf t"
    using enqueue_dao.keeps_wf [OF that, of x e "enqueue_request u request"] dao r find_job_eq by auto
  ultimately show ?thesis using that [of r] r by auto
qed

text \<open>
  C11: a key names one job for as long as the record lives. Once an enqueue has answered with a
  job under some owner, kind and key, every later enqueue under the same three that answers with a
  job answers with that one, and never claims to have created it; in between the queue may have
  run, settled or recovered it. No other session writes inside a retry's transaction.
\<close>

theorem key_names_one_job:
  assumes "queue_run x (empty_world now) es w" "json_documented x"
    and "queue_step x w (EvEnqueue request1 (Inr res1)) w1"
    and "queue_run x w1 es' w2" "find_job (w_table w2) (cj_ID (res_Job res1)) \<noteq> None"
    and "queue_step x w2 (EvEnqueue request2 (Inr res2)) w3"
    and "cer_OwnerID request2 = cer_OwnerID request1" "cer_Kind request2 = cer_Kind request1"
    and "cer_IdempotencyKey request2 = cer_IdempotencyKey request1" "cer_IdempotencyKey request1 \<noteq> None"
  shows "cj_ID (res_Job res2) = cj_ID (res_Job res1) \<and> \<not> res_Created res2"
proof -
  have inv: "world_inv w" by (rule reachable_inv [OF assms(1,2)])
  have inv1: "world_inv w1" by (rule queue_step_inv [OF assms(3) inv assms(2)])
  have inv2: "world_inv w2" by (rule queue_run_inv [OF assms(4) inv1 assms(2)])
  have wf3: "table_wf (w_table w3)" by (rule world_inv_wf [OF queue_step_inv [OF assms(6) inv2 assms(2)]])
  obtain r1 where r1: "find_job (w_table w1) (cj_ID (res_Job res1)) = Some r1"
    "job_OwnerID r1 = cer_OwnerID request1" "job_Kind r1 = cer_Kind request1"
    "job_IdempotencyKey r1 = cer_IdempotencyKey request1"
    by (rule queue_step_enqueueE [OF assms(3)])
      (auto elim!: JobEnqueue_Exec_Inr simp: world_inv_wf [OF inv])
  obtain s where s: "find_job (w_table w2) (cj_ID (res_Job res1)) = Some s" using assms(5) by auto
  have minted: "cj_ID (res_Job res1) \<in> set (w_minted w2)" and same: "same_identity s r1"
    using queue_run_job [OF assms(4) inv1 assms(2) r1(1)] s by auto
  obtain s' where s': "find_job (w_table w3) (cj_ID (res_Job res1)) = Some s'" "same_identity s' s"
    using queue_step_job [OF assms(6) inv2 _ s] by (auto simp: job_evolves_def)
  obtain u r2 where r2: "u \<notin> set (w_minted w2)" "r2 \<in> set (w_table w3)" "res_Job res2 = jobToCore r2"
    "job_OwnerID r2 = cer_OwnerID request1" "job_Kind r2 = cer_Kind request1"
    "job_IdempotencyKey r2 = cer_IdempotencyKey request1" "res_Created res2 \<longleftrightarrow> job_ID r2 = u"
    by (rule queue_step_enqueueE [OF assms(6)]) (auto elim!: JobEnqueue_Exec_Inr simp: assms(7-9))
  have "s' = r2"
    using find_job_SomeD [OF s'(1)] s'(2) same r1(2-4) r2 assms(10)
    by (intro table_wf_unique_key [OF wf3]) (auto simp: keyed_def idempotency_tuple_def same_identity_def)
  then show ?thesis using r2 minted find_job_SomeD [OF s'(1)] by auto
qed

lemma key_names_one_job_witness:
  "\<exists>res2 w3. queue_step ext0 (story_world row_succeeded 50) (EvEnqueue story_enqueue (Inr res2)) w3 \<and>
     cj_ID (res_Job res2) = 1 \<and> \<not> res_Created res2"
proof -
  have f: "cer_Kind story_enqueue = ''k''" "cer_OwnerID story_enqueue = 7"
    "cer_IdempotencyKey story_enqueue = Some ''a''" "cer_Payload story_enqueue = None"
    by (simp_all add: story_enqueue_def)
  have "recorded_under [row_succeeded] 7 ''k'' (Some ''a'') = Some row_succeeded"
    "job_RequestFingerprint row_succeeded = fingerprintOf None"
    by (simp_all add: recorded_under_def story_rows)
  then have exec: "JobEnqueue_Exec ext0 (stmt_at 60) (Some 2) story_enqueue [row_succeeded] =
      (Inr \<lparr> res_Job = jobToCore row_succeeded, res_Created = False \<rparr>, [row_succeeded])"
    using JobEnqueue_Exec_outcome [of ext0 story_enqueue "stmt_at 60" _ 2 "[row_succeeded]"] f by simp
  let ?res = "\<lparr> res_Job = jobToCore row_succeeded, res_Created = False \<rparr>"
  let ?w = "\<lparr> w_table = [row_succeeded], w_now = 60, w_minted = [2, 1] \<rparr>"
  have step: "queue_step ext0 (story_world row_succeeded 50) (EvEnqueue story_enqueue (Inr ?res)) ?w"
    using queue_step.enqueue [of "stmt_at 60" "story_world row_succeeded 50" 60 2 ext0 story_enqueue]
      exec by (simp add: clock_stmt_at)
  let ?rest = "(((([] @ [story_events ! 1]) @ [story_events ! 2]) @ [story_events ! 3]) @ [story_events ! 4])"
  have rest: "queue_run ext0 (story_world row_pending 10) ?rest (story_world row_succeeded 50)"
    by (rule queue_run.step [OF queue_run.step [OF queue_run.step [OF queue_run.step
      [OF queue_run.start story_steps(2)] story_steps(3)] story_steps(4)] story_steps(5)])
  have first: "queue_step ext0 (empty_world 0) (EvEnqueue story_enqueue
      (Inr \<lparr> res_Job = jobToCore row_pending, res_Created = True \<rparr>)) (story_world row_pending 10)"
    using story_steps(1) by (simp add: story_events_def)
  have "find_job [row_succeeded] 1 \<noteq> None" by (simp add: find_job_def)
  then have "cj_ID (res_Job ?res) = 1 \<and> \<not> res_Created ?res"
    using key_names_one_job [OF queue_run.start ext0_json first rest _ step] f by simp
  then show ?thesis using step by blast
qed

end
