(* ===== verification/ClaimSpec.thy ===== *)
theory ClaimSpec
  imports RunSpec
begin

text \<open>
  What a worker gets from a claim, and why claims that overlap do not get in each other's way.
\<close>

lemma cj_ID_jobToCore [simp]: "map cj_ID (map jobToCore rs) = map job_ID rs"
  by simp

lemma story_claim_fields [simp]:
  "ccr_Kinds story_claim = [''k'']" "ccr_WorkerID story_claim = ''w''" "ccr_Limit story_claim = 1"
  "ccr_LeaseSeconds story_claim = 30"
  by (simp_all add: story_claim_def)

lemma JobClaim_Exec_ok:
  assumes "queue_inv days t" "validator_documented x" "valid_claim x request" "undisturbed e"
  shows "JobClaim_Exec x e request t =
    (Inr (map jobToCore (claim_batch e (claim_request request) t)),
     update_rows (claim_guard e (ccr_Kinds request) (ccr_Limit request) t)
       (claim_row e (ccr_WorkerID request) (ccr_LeaseSeconds request)) t)"
proof -
  have "0 \<le> dcr_Limit (claim_request request)"
    using assms(2,3) by (simp add: valid_claim_def)
  moreover have "\<forall>r\<in>set t. job_Status r = JobStatusPending \<longrightarrow> sint (job_Attempt r) < 32767"
    using row_inv_attempt_range queue_inv_row [OF assms(1)] by blast
  ultimately show ?thesis
    using assms(3,4) dao_JobClaim_Exec_ok [OF queue_inv_wf [OF assms(1)], of e "claim_request request"]
    by (simp add: JobClaim_Exec_eq undisturbedD)
qed

text \<open>A due job of the worker's kinds that no other transaction has locked.\<close>

definition claim_available :: "stmt \<Rightarrow> string list \<Rightarrow> job \<Rightarrow> bool" where
  "claim_available e kinds r \<longleftrightarrow> claim_due e kinds r \<and> \<not> st_locked e (job_ID r)"

lemma filter_available:
  "filter (claim_available e kinds) t = filter (\<lambda>r. claim_due e kinds r \<and> \<not> st_locked e (job_ID r)) t"
  unfolding claim_available_def ..

text \<open>
  C13: a claim returns the oldest due jobs and marks exactly those. The batch holds as many
  jobs as there are due, unlocked jobs of the worker's kinds, up to the limit, none of them twice;
  every job in it was pending and due and is now claimed by this worker, one attempt spent, with a
  lease that runs its full length from a reading made during the statement; a due job left behind
  is no older than any job taken; a record that is not in the batch is unchanged.
\<close>

theorem claim_takes_oldest_due:
  assumes "queue_inv days t" "validator_documented x" "valid_claim x request"
    and "undisturbed e" "clock_within e start stop"
  shows "\<exists>js t'. JobClaim_Exec x e request t = (Inr js, t') \<and>
    distinct (map cj_ID js) \<and>
    length js = min (nat (ccr_Limit request)) (length (filter (claim_available e (ccr_Kinds request)) t)) \<and>
    (\<forall>u\<in>set (map cj_ID js). \<exists>r. find_job t u = Some r \<and> claim_available e (ccr_Kinds request) r \<and>
       find_job t' u = Some (claim_row e (ccr_WorkerID request) (ccr_LeaseSeconds request) r) \<and>
       (case job_LeaseExpiresAt (claim_row e (ccr_WorkerID request) (ccr_LeaseSeconds request) r) of
          None \<Rightarrow> False
        | Some lease \<Rightarrow> start + interval_secs (ccr_LeaseSeconds request) \<le> lease \<and>
                        lease \<le> stop + interval_secs (ccr_LeaseSeconds request)) \<and>
       (\<forall>s\<in>set t. claim_available e (ccr_Kinds request) s \<longrightarrow> job_ID s \<notin> set (map cj_ID js) \<longrightarrow> job_RunAt r \<le> job_RunAt s)) \<and>
    (\<forall>u. u \<notin> set (map cj_ID js) \<longrightarrow> find_job t' u = find_job t u)"
proof -
  let ?k = "ccr_Kinds request" and ?n = "ccr_Limit request"
  let ?g = "claim_row e (ccr_WorkerID request) (ccr_LeaseSeconds request)"
  let ?js = "map jobToCore (claim_batch e (claim_request request) t)"
  let ?t = "update_rows (claim_guard e ?k ?n t) ?g t"
  note wf = queue_inv_wf [OF assms(1)]
  have exec: "JobClaim_Exec x e request t = (Inr ?js, ?t)" by (rule JobClaim_Exec_ok [OF assms(1-4)])
  have ids: "set (map cj_ID ?js) = job_ID ` set (claimable e ?k ?n t)"
    by (simp add: image_image claim_batch_set [OF wf] row_simps)
  have taken: "\<exists>r. find_job t u = Some r \<and> claim_available e (ccr_Kinds request) r \<and> find_job ?t u = Some (?g r) \<and>
      (case job_LeaseExpiresAt (?g r) of
         None \<Rightarrow> False
       | Some lease \<Rightarrow> start + interval_secs (ccr_LeaseSeconds request) \<le> lease \<and>
                       lease \<le> stop + interval_secs (ccr_LeaseSeconds request)) \<and>
      (\<forall>s\<in>set t. claim_available e (ccr_Kinds request) s \<longrightarrow> job_ID s \<notin> set (map cj_ID ?js) \<longrightarrow> job_RunAt r \<le> job_RunAt s)"
    if u: "u \<in> set (map cj_ID ?js)" for u
  proof -
    obtain r where r: "r \<in> set (claimable e ?k ?n t)" "job_ID r = u" using u unfolding ids by blast
    then have r': "r \<in> set t" "claim_available e (ccr_Kinds request) r" using claimable_in_table by (auto simp: claim_available_def)
    then have found: "find_job t u = Some r" using find_job_eq [OF wf] r(2) by blast
    have "claim_guard e ?k ?n t r" using r(1) r'(1) claim_guard_iff [OF wf] by blast
    then have "find_job ?t u = Some (?g r)" by (simp add: find_job_update found row_simps)
    moreover have "job_RunAt r \<le> job_RunAt s"
      if "s \<in> set t" "claim_available e (ccr_Kinds request) s" "job_ID s \<notin> set (map cj_ID ?js)" for s
      using that claimable_oldest [OF r(1)] unfolding ids by (auto simp: claim_available_def)
    ultimately show ?thesis
      using found r'(2) clock_within_bounds(1,2) [OF assms(5), of "job_ID r" 1] by (simp add: row_simps)
  qed
  have rest: "find_job ?t u = find_job t u" if "u \<notin> set (map cj_ID ?js)" for u
  proof (cases "find_job t u")
    case (Some r)
    then have "\<not> claim_guard e ?k ?n t r"
      using that find_job_SomeD [OF Some] unfolding ids by (auto simp: claim_guard_def)
    then show ?thesis by (simp add: find_job_update Some row_simps)
  qed (simp add: find_job_update row_simps)
  have len: "length ?js = min (nat ?n) (length (filter (claim_available e (ccr_Kinds request)) t))"
    by (simp add: claim_batch_length [OF wf] filter_available)
  show ?thesis
    using exec len taken rest claim_batch_ids_distinct [OF wf, of e "claim_request request"]
    by (intro exI [of _ ?js] exI [of _ ?t]) (simp only: cj_ID_jobToCore simp_thms, blast)
qed

text \<open>The witness: two due jobs, room for one, and the older is taken.\<close>

definition row_younger :: job where
  "row_younger = row_pending\<lparr> job_ID := 2, job_IdempotencyKey := None, job_RunAt := 15 \<rparr>"

lemma younger_inv [simp]: "queue_inv 7 [row_younger, row_pending]"
  by (simp add: queue_inv_def table_wf_def row_inv_def row_ok_iff keyed_def row_younger_def row_pending_def)

lemma claim_takes_oldest_due_witness:
  "\<exists>j t'. JobClaim_Exec ext0 (stmt_at 20) story_claim [row_younger, row_pending] = (Inr [j], t') \<and>
     find_job t' 2 = Some row_younger \<and> cj_ID j = 1"
proof -
  let ?t = "[row_younger, row_pending]"
  have av: "claim_available (stmt_at 20) [''k''] row_pending" "claim_available (stmt_at 20) [''k''] row_younger"
    and rows: "job_ID row_younger = 2" "job_RunAt row_younger = 15" "job_RunAt row_pending = 10"
    by (simp_all add: claim_available_def claim_due_def row_younger_def row_pending_def)
  have find: "find_job ?t 1 = Some row_pending" "find_job ?t 2 = Some row_younger"
    by (simp_all add: find_job_def rows)
  obtain js t' where c: "JobClaim_Exec ext0 (stmt_at 20) story_claim ?t = (Inr js, t')"
    "length js = 1"
    "\<forall>u\<in>set (map cj_ID js). \<exists>r. find_job ?t u = Some r \<and>
       (\<forall>s\<in>set ?t. claim_available (stmt_at 20) [''k''] s \<longrightarrow> job_ID s \<notin> set (map cj_ID js) \<longrightarrow>
          job_RunAt r \<le> job_RunAt s)"
    "\<forall>u. u \<notin> set (map cj_ID js) \<longrightarrow> find_job t' u = find_job ?t u"
    using claim_takes_oldest_due [OF younger_inv ext0_validator story_valid(2) undisturbed_stmt_at
        clock_within_stmt_at, of 20] av by auto blast
  obtain j where j: "js = [j]" using c(2) by (cases js) auto
  obtain r where r: "find_job ?t (cj_ID j) = Some r"
    "\<forall>s\<in>set ?t. claim_available (stmt_at 20) [''k''] s \<longrightarrow> job_ID s \<noteq> cj_ID j \<longrightarrow> job_RunAt r \<le> job_RunAt s"
    using c(3) unfolding j by auto
  have "cj_ID j = 1"
    using r av find_job_SomeD [OF r(1)] by (auto simp: rows)
  then show ?thesis using c(1,4) j find by auto
qed

section \<open>Overlapping claims\<close>

text \<open>
  A second claim that runs while the first is still open works on the same snapshot, with the
  first's rows locked. One that runs after the first has committed finds them claimed.
\<close>

definition lock_rows :: "stmt \<Rightarrow> job list \<Rightarrow> stmt" where
  "lock_rows e rs = e\<lparr> st_locked := \<lambda>u. st_locked e u \<or> u \<in> set (map job_ID rs) \<rparr>"

lemma claim_due_cong: "st_clock e = st_clock e' \<Longrightarrow> claim_due e kinds r = claim_due e' kinds r"
  by (simp add: claim_due_def)

text \<open>
  Read Committed: a query selects on the snapshot its statement began with, and \<open>FOR UPDATE\<close> then
  locks the latest version of each row and applies the condition to it again. So a row is passed
  over if another transaction has it locked, or has committed a change to it meanwhile that
  makes the condition fail. \<open>LIMIT\<close> counts the rows that were locked.
\<close>

definition locked_version :: "stmt \<Rightarrow> (job \<Rightarrow> bool) \<Rightarrow> table \<Rightarrow> job \<Rightarrow> job option" where
  "locked_version e p latest r =
     (if st_locked e (job_ID r) then None
      else case find_job latest (job_ID r) of
        None \<Rightarrow> None
      | Some s \<Rightarrow> if p s then Some s else None)"

definition claim_selected :: "stmt \<Rightarrow> string list \<Rightarrow> int \<Rightarrow> table \<Rightarrow> table \<Rightarrow> job list" where
  "claim_selected e kinds limit snapshot latest =
     take (nat limit) (List.map_filter (locked_version e (claim_due e kinds) latest)
       (sort_key job_RunAt (permuted (st_order e) (filter (claim_due e kinds) snapshot))))"

lemma map_filter_if:
  assumes "\<And>r. r \<in> set rs \<Longrightarrow> f r = (if p r then Some r else None)"
  shows "List.map_filter f rs = filter p rs"
  using assms by (induction rs) (simp_all add: map_filter_simps)

text \<open>Where nothing has changed since the snapshot, this is the selection on the table.\<close>

lemma claim_selected_same:
  assumes "table_wf t"
  shows "claim_selected e kinds limit t t = claimable e kinds limit t"
  unfolding claim_selected_def claimable_def
  by (subst map_filter_if [of _ _ "\<lambda>r. \<not> st_locked e (job_ID r)"])
    (auto simp: locked_version_def find_job_eq [OF assms])

text \<open>A claim that has committed since the snapshot keeps off the same rows as one still open.\<close>

lemma claim_selected_committed:
  assumes "table_wf t"
  shows "claim_selected e2 k2 n2 t (update_rows (claim_guard e1 k1 n1 t) (claim_row e1 w1 l1) t) =
    claimable (lock_rows e2 (claimable e1 k1 n1 t)) k2 n2 t"
proof -
  have e: "st_order (lock_rows e2 rs) = st_order e2" "claim_due (lock_rows e2 rs) k2 = claim_due e2 k2" for rs
    by (simp_all add: lock_rows_def fun_eq_iff claim_due_def)
  have lock: "st_locked (lock_rows e2 (claimable e1 k1 n1 t)) (job_ID r) \<longleftrightarrow>
      st_locked e2 (job_ID r) \<or> claim_guard e1 k1 n1 t r" for r
    by (simp add: lock_rows_def claim_guard_def)
  have "locked_version e2 (claim_due e2 k2) (update_rows (claim_guard e1 k1 n1 t) (claim_row e1 w1 l1) t) r =
      (if \<not> st_locked (lock_rows e2 (claimable e1 k1 n1 t)) (job_ID r) then Some r else None)"
    if "r \<in> set t" "claim_due e2 k2 r" for r
    using that by (simp add: locked_version_def lock find_job_update row_simps find_job_eq [OF assms] claim_due_def)
  then show ?thesis
    unfolding claim_selected_def claimable_def [of "lock_rows e2 (claimable e1 k1 n1 t)"] e
    by (subst map_filter_if [of _ _ "\<lambda>r. \<not> st_locked (lock_rows e2 (claimable e1 k1 n1 t)) (job_ID r)"]) auto
qed

lemma overlapping_claims:
  assumes "table_wf t"
  shows "(\<exists>ord. claimable (lock_rows e2 (claimable e1 k1 n1 t)) k2 n2 t =
      claimable (e2\<lparr> st_order := ord \<rparr>) k2 n2
        (update_rows (claim_guard e1 k1 n1 t) (claim_row e1 w1 l1) t)) \<and>
    set (map job_ID (claimable (lock_rows e2 (claimable e1 k1 n1 t)) k2 n2 t)) \<inter>
      set (map job_ID (claimable e1 k1 n1 t)) = {}"
proof
  let ?e = "lock_rows e2 (claimable e1 k1 n1 t)"
  let ?t = "update_rows (claim_guard e1 k1 n1 t) (claim_row e1 w1 l1) t"
  let ?free = "\<lambda>r. \<not> st_locked ?e (job_ID r)" and ?free2 = "\<lambda>r. \<not> st_locked e2 (job_ID r)"
  let ?L = "filter ?free (permuted (st_order e2) (filter (claim_due e2 k2) t))"
  let ?ord = "\<lambda>_. ?L @ filter (\<lambda>r. \<not> ?free2 r) (filter (claim_due e2 k2) ?t)"
  have e: "st_order ?e = st_order e2" "claim_due ?e k2 = claim_due e2 k2"
    by (simp_all add: lock_rows_def fun_eq_iff claim_due_def)
  have lock: "st_locked ?e (job_ID r) \<longleftrightarrow> st_locked e2 (job_ID r) \<or> claim_guard e1 k1 n1 t r" for r
    by (simp add: lock_rows_def claim_guard_def)
  have "filter ?free (filter (claim_due e2 k2) rs) = filter ?free2 (filter (claim_due e2 k2)
      (map (\<lambda>r. if claim_guard e1 k1 n1 t r then claim_row e1 w1 l1 r else r) rs))" for rs
    by (induction rs) (simp_all add: lock claim_due_def row_simps)
  then have same: "filter ?free (filter (claim_due e2 k2) t) = filter ?free2 (filter (claim_due e2 k2) ?t)"
    by (simp only: update_rows_def)
  have msetL: "mset ?L = mset (filter ?free2 (filter (claim_due e2 k2) ?t))"
    by (metis mset_filter mset_permuted same)
  have part: "mset (filter q ys) + mset (filter (\<lambda>r. \<not> q r) ys) = mset ys" for q and ys :: table
    by (induction ys) simp_all
  have "mset (?ord xs) = mset (filter (claim_due e2 k2) ?t)" for xs
    by (simp only: mset_append msetL part)
  then have perm: "permuted ?ord (filter (claim_due e2 k2) ?t) =
      ?L @ filter (\<lambda>r. \<not> ?free2 r) (filter (claim_due e2 k2) ?t)"
    by (simp add: permuted_def)
  have "filter ?free2 ?L = ?L" by (rule filter_True) (auto simp: lock)
  then have "filter ?free2 (?L @ filter (\<lambda>r. \<not> ?free2 r) (filter (claim_due e2 k2) ?t)) = ?L"
    by simp
  then have "filter ?free2 (sort_key job_RunAt (permuted ?ord (filter (claim_due e2 k2) ?t))) =
      sort_key job_RunAt ?L"
    by (simp only: perm filter_sort)
  moreover have "filter ?free (sort_key job_RunAt (permuted (st_order e2) (filter (claim_due e2 k2) t))) =
      sort_key job_RunAt ?L"
    by (simp only: filter_sort)
  moreover have "claim_due (e2\<lparr> st_order := ?ord \<rparr>) k2 = claim_due e2 k2"
    by (simp add: fun_eq_iff claim_due_def)
  moreover have sel: "st_locked (e2\<lparr> st_order := ord \<rparr>) = st_locked e2"
    "st_order (e2\<lparr> st_order := ord \<rparr>) = ord" for ord by simp_all
  ultimately have "claimable ?e k2 n2 t = claimable (e2\<lparr> st_order := ?ord \<rparr>) k2 n2 ?t"
    unfolding claimable_def [of ?e] claimable_def [of "e2\<lparr> st_order := ?ord \<rparr>"]
    by (simp only: e sel)
  then show "\<exists>ord. claimable ?e k2 n2 t = claimable (e2\<lparr> st_order := ord \<rparr>) k2 n2 ?t" by blast
  show "set (map job_ID (claimable ?e k2 n2 t)) \<inter> set (map job_ID (claimable e1 k1 n1 t)) = {}"
    using claimable_in_table [of _ ?e k2 n2 t] by (auto simp: lock_rows_def)
qed

text \<open>
  C15: overlapping claims are serializable. A second claim that took its snapshot before the first
  committed selects the same jobs whether the first still holds its rows locked or has committed by
  the time they are tried. They are what it would select in some scan order after the first, and
  none of them is the first's. So \<open>SKIP LOCKED\<close> gives concurrent workers the behaviour of taking
  turns.
\<close>

theorem overlapping_claims_serialize:
  assumes "table_wf t"
    and "first = claimable e1 k1 n1 t" "t' = update_rows (claim_guard e1 k1 n1 t) (claim_row e1 w1 l1) t"
  shows "claim_selected (lock_rows e2 first) k2 n2 t t = claim_selected e2 k2 n2 t t' \<and>
    (\<exists>ord. claim_selected e2 k2 n2 t t' = claimable (e2\<lparr> st_order := ord \<rparr>) k2 n2 t') \<and>
    set (map job_ID (claim_selected e2 k2 n2 t t')) \<inter> set (map job_ID first) = {}"
  unfolding assms(2,3) claim_selected_same [OF assms(1)] claim_selected_committed [OF assms(1)]
  using overlapping_claims [OF assms(1)] by simp

lemma overlapping_claims_serialize_witness:
  "set (map job_ID (claim_selected (stmt_at 20) [''k''] 1 [row_younger, row_pending]
       (update_rows (claim_guard (stmt_at 20) [''k''] 1 [row_younger, row_pending]) (claim_row (stmt_at 20) ''w'' 30)
         [row_younger, row_pending]))) \<inter>
     set (map job_ID (claimable (stmt_at 20) [''k''] 1 [row_younger, row_pending])) = {}"
  using overlapping_claims_serialize [OF queue_inv_wf [OF younger_inv] refl refl, of "stmt_at 20"] by blast

end
