(* ===== verification/ReapSpec.thy ===== *)
theory ReapSpec
  imports ClaimSpec DaoRead
begin

text \<open>
  Recovery from a worker that died, sweeps of several replicas at once, and the owner-scoped read.
\<close>

section \<open>The sweep\<close>

lemma claimed_lease: "row_inv d r \<Longrightarrow> job_Status r = JobStatusClaimed \<Longrightarrow> \<exists>l. job_LeaseExpiresAt r = Some l"
  by (auto simp: row_inv_def row_ok_iff)

lemma JobReap_Exec_ok:
  assumes "table_wf t" "undisturbed e" "x_json_arg x (Some jobReapError) = Some err"
  shows "JobReap_Exec x e days t =
    (Inr (map jobToCore (permuted (st_order e) (map (reap_row e err days) (filter (reapable e) t)))),
     update_rows (reapable e) (reap_row e err days) t)"
  using assms by (simp add: JobReap_Exec_eq dao_JobReap_Exec_delivered undisturbedD)

lemma swept_not_reapable:
  assumes "r \<in> set (update_rows (reapable e) (reap_row e err days) t)"
  shows "\<not> reapable e r"
proof -
  from assms obtain s where s: "s \<in> set t" "r = (if reapable e s then reap_row e err days s else s)"
    unfolding update_rows_member by blast
  show ?thesis by (cases "reapable e s") (simp_all add: s(2) reapable_def row_simps)
qed

text \<open>
  C20: a sweep recovers every lapsed claim and nothing else. Each claimed, unlocked job whose
  lease has passed goes back to the queue, due at once and with its attempt count as it was, while
  an attempt is left, and is abandoned with the lease-expired error once none is; the batch
  reported is exactly those jobs; every other record is unchanged; and at that instant no lapsed
  claim remains, so a second sweep reports nothing.
\<close>

theorem sweep_recovers_lapsed:
  assumes "table_wf t" "undisturbed e" "x_json_arg x (Some jobReapError) = Some err"
  shows "\<exists>js t'. JobReap_Exec x e days t = (Inr js, t') \<and>
    set (map cj_ID js) = {job_ID r | r. r \<in> set t \<and> reapable e r} \<and>
    (\<forall>u r. find_job t u = Some r \<longrightarrow> find_job t' u = Some
      (if reapable e r
       then if sint (job_Attempt r) < sint (job_MaxAttempts r)
            then r\<lparr> job_Status := JobStatusPending, job_ClaimedBy := None, job_LeaseExpiresAt := None,
                    job_RunAt := st_clock e u 1, job_SettledAt := None, job_ExpiresAt := None,
                    job_UpdatedAt := st_clock e u 2 \<rparr>
            else r\<lparr> job_Status := JobStatusAbandoned, job_ClaimedBy := None, job_LeaseExpiresAt := None,
                    job_SettledAt := Some (st_clock e u 3),
                    job_ExpiresAt := Some (st_clock e u 4 + interval_days days),
                    job_Error := err, job_UpdatedAt := st_clock e u 2 \<rparr>
       else r)) \<and>
    fst (JobReap_Exec x e days t') = Inr []"
proof -
  let ?g = "reap_row e err days"
  let ?t = "update_rows (reapable e) ?g t"
  note ok = JobReap_Exec_ok [OF assms, of days]
  have wf: "table_wf ?t"
    using reap_core.keeps_wf [OF assms(1), of x e days] by (simp add: ok)
  have "filter (reapable e) ?t = []" using swept_not_reapable by (auto simp: filter_empty_conv)
  then have again: "fst (JobReap_Exec x e days ?t) = Inr []"
    by (simp add: JobReap_Exec_ok [OF wf assms(2,3)])
  have rows: "find_job ?t u = Some (if reapable e r then ?g r else r)" if "find_job t u = Some r" for u r
    using that by (simp add: find_job_update row_simps)
  have id: "find_job t u = Some r \<Longrightarrow> job_ID r = u" for u r by (simp add: find_job_SomeD)
  have ids: "set (map cj_ID (map jobToCore (permuted (st_order e) (map ?g (filter (reapable e) t))))) =
      {job_ID r | r. r \<in> set t \<and> reapable e r}"
    by (simp only: cj_ID_jobToCore set_map set_permuted set_filter image_image row_simps) blast
  have row: "?g r = (if sint (job_Attempt r) < sint (job_MaxAttempts r)
            then r\<lparr> job_Status := JobStatusPending, job_ClaimedBy := None, job_LeaseExpiresAt := None,
                    job_RunAt := st_clock e u 1, job_SettledAt := None, job_ExpiresAt := None,
                    job_UpdatedAt := st_clock e u 2 \<rparr>
            else r\<lparr> job_Status := JobStatusAbandoned, job_ClaimedBy := None, job_LeaseExpiresAt := None,
                    job_SettledAt := Some (st_clock e u 3),
                    job_ExpiresAt := Some (st_clock e u 4 + interval_days days),
                    job_Error := err, job_UpdatedAt := st_clock e u 2 \<rparr>)" if "find_job t u = Some r" for u r
    using id [OF that] by (cases "attempt_left r") (simp_all add: reap_row_def attempt_left_iff)
  show ?thesis
    using ok ids rows again row by (intro exI conjI) (assumption | simp)+
qed

lemma sweep_recovers_lapsed_witness:
  "\<exists>j r. JobReap_Exec ext0 (stmt_at 30000030) 7 [row_claimed] = (Inr [j], [r]) \<and>
     cj_ID j = 1 \<and> job_Status r = JobStatusPending \<and> job_Attempt r = 1"
proof -
  have lapsed: "reapable (stmt_at 30000030) row_claimed" "sint (job_Attempt row_claimed) < sint (job_MaxAttempts row_claimed)"
    "job_Attempt row_claimed = 1"
    by (simp_all add: reapable_def) (simp_all add: story_rows)
  obtain js t' where s: "JobReap_Exec ext0 (stmt_at 30000030) 7 [row_claimed] = (Inr js, t')"
    "set (map cj_ID js) = {job_ID r | r. r \<in> set [row_claimed] \<and> reapable (stmt_at 30000030) r}"
    and found: "\<exists>r. find_job t' 1 = Some r \<and> job_Status r = JobStatusPending \<and> job_Attempt r = 1"
    using sweep_recovers_lapsed [OF story_wf(2) undisturbed_stmt_at ext0_json_arg, of 30000030 7] lapsed
    by fastforce
  have t': "map job_ID t' = [1]"
    using JobReap_Exec_ids [of ext0 "stmt_at 30000030" 7 "[row_claimed]"] s(1) by simp
  have "length js = 1"
    using JobReap_Exec_ok [OF story_wf(2) undisturbed_stmt_at ext0_json_arg, of 30000030 7] s(1) lapsed
    by auto
  then obtain j where "js = [j]" by (cases js) auto
  moreover obtain r where "t' = [r]" using t' by (cases t') auto
  moreover have "cj_ID j = 1" using s(2) lapsed \<open>js = [j]\<close> by auto
  ultimately show ?thesis using s(1) found by (auto simp: find_job_def split: if_splits)
qed

lemma in_claimable_in_batch:
  assumes "table_wf t" "r \<in> set (claimable e (ccr_Kinds request) (ccr_Limit request) t)"
  shows "job_ID r \<in> set (map cj_ID (map jobToCore (claim_batch e (claim_request request) t)))"
  using imageI [OF assms(2), of job_ID] by (simp add: image_image claim_batch_set [OF assms(1)] row_simps)

section \<open>Overlapping sweeps\<close>

text \<open>
  Every replica runs a reaper. A sweep selects on its snapshot as a claim does, with \<open>FOR UPDATE SKIP
  LOCKED\<close> and no limit.
\<close>

definition reap_selected :: "stmt \<Rightarrow> table \<Rightarrow> table \<Rightarrow> job list" where
  "reap_selected e snapshot latest =
     List.map_filter (locked_version e (reapable e) latest) (filter (reapable e) snapshot)"

lemma reapable_locked: "reapable e r \<Longrightarrow> \<not> st_locked e (job_ID r)"
  by (simp add: reapable_def)

lemma reapable_lock_rows: "reapable (lock_rows e rs) r \<longleftrightarrow> reapable e r \<and> job_ID r \<notin> set (map job_ID rs)"
proof -
  have "st_clock (lock_rows e rs) = st_clock e"
    "st_locked (lock_rows e rs) u \<longleftrightarrow> st_locked e u \<or> u \<in> set (map job_ID rs)" for u
    by (simp_all add: lock_rows_def)
  then show ?thesis by (cases "job_LeaseExpiresAt r") (auto simp: reapable_def)
qed

lemma reap_selected_same: "table_wf t \<Longrightarrow> reap_selected e t t = filter (reapable e) t"
  unfolding reap_selected_def
  by (subst map_filter_if [of _ _ "\<lambda>_. True"]) (auto simp: locked_version_def find_job_eq reapable_locked)

text \<open>A sweep leaves what a claim looks at as it was, so a claim that overlaps it sees no difference.\<close>

lemma claim_selected_after_sweep:
  assumes "table_wf t"
  shows "claim_selected e kinds limit t (update_rows (reapable e1) (reap_row e1 err days) t) = claimable e kinds limit t"
proof -
  have "locked_version e (claim_due e kinds) (update_rows (reapable e1) (reap_row e1 err days) t) r =
      (if \<not> st_locked e (job_ID r) then Some r else None)" if "r \<in> set t" "claim_due e kinds r" for r
  proof -
    have "\<not> reapable e1 r" using that(2) by (simp add: claim_due_def reapable_def)
    then show ?thesis
      using that by (simp add: locked_version_def find_job_update row_simps find_job_eq [OF assms])
  qed
  then show ?thesis
    unfolding claim_selected_def claimable_def
    by (subst map_filter_if [of _ _ "\<lambda>r. \<not> st_locked e (job_ID r)"]) auto
qed

lemma filter_after_sweep:
  assumes "\<And>r. r \<in> set t \<Longrightarrow> reapable e1 r \<Longrightarrow> \<not> p (reap_row e1 err days r)"
  shows "filter p (update_rows (reapable e1) (reap_row e1 err days) t) = filter (\<lambda>r. p r \<and> \<not> reapable e1 r) t"
  using assms by (induction t) (simp_all add: update_rows_def)

lemma reap_selected_committed:
  assumes "table_wf t"
  shows "reap_selected e2 t (update_rows (reapable e1) (reap_row e1 err days) t) =
    filter (\<lambda>r. reapable e2 r \<and> \<not> reapable e1 r) t"
proof -
  have "locked_version e2 (reapable e2) (update_rows (reapable e1) (reap_row e1 err days) t) r =
      (if \<not> reapable e1 r then Some r else None)" if "r \<in> set t" "reapable e2 r" for r
    using that by (auto simp: locked_version_def find_job_update row_simps find_job_eq [OF assms] reapable_locked)
      (simp_all add: reapable_def row_simps)
  then show ?thesis
    unfolding reap_selected_def
    by (subst map_filter_if [of _ _ "\<lambda>r. \<not> reapable e1 r"]) (auto simp: conj_commute)
qed

text \<open>
  C21: overlapping sweeps take turns. A sweep of another replica that took its snapshot before this
  one committed selects the same jobs whether this one still holds its rows locked or has committed,
  and they are those it would select after it: none is recovered by both, none that either finds
  lapsed is left out. A claim that overlaps a sweep takes what it would take before it.
\<close>

theorem overlapping_sweeps_take_turns:
  assumes "table_wf t"
    and "first = filter (reapable e1) t" "t' = update_rows (reapable e1) (reap_row e1 err days) t"
  shows "reap_selected (lock_rows e2 first) t t = reap_selected e2 t t' \<and>
    reap_selected e2 t t' = filter (reapable e2) t' \<and>
    set (map job_ID (reap_selected e2 t t')) \<inter> set (map job_ID first) = {} \<and>
    set (reap_selected e2 t t') \<union> set first = {r \<in> set t. reapable e1 r \<or> reapable e2 r} \<and>
    claim_selected e3 kinds limit t t' = claimable e3 kinds limit t"
proof -
  have "reap_selected (lock_rows e2 first) t t = filter (\<lambda>r. reapable e2 r \<and> \<not> reapable e1 r) t"
    unfolding reap_selected_same [OF assms(1)] assms(2)
    by (rule filter_cong) (use table_wf_unique [OF assms(1)] in \<open>auto simp: reapable_lock_rows\<close>)
  moreover have second: "reap_selected e2 t t' = filter (\<lambda>r. reapable e2 r \<and> \<not> reapable e1 r) t"
    unfolding assms(3) by (rule reap_selected_committed [OF assms(1)])
  moreover have "filter (reapable e2) t' = filter (\<lambda>r. reapable e2 r \<and> \<not> reapable e1 r) t"
    unfolding assms(3) by (rule filter_after_sweep) (simp add: reapable_def row_simps)
  moreover have "job_ID r \<noteq> job_ID s" if "r \<in> set t" "s \<in> set t" "reapable e1 s" "\<not> reapable e1 r" for r s
    using that table_wf_unique [OF assms(1) that(1,2)] by blast
  then have "set (map job_ID (reap_selected e2 t t')) \<inter> set (map job_ID first) = {}"
    unfolding second assms(2) by auto
  moreover have "set (reap_selected e2 t t') \<union> set first = {r \<in> set t. reapable e1 r \<or> reapable e2 r}"
    unfolding second assms(2) by auto
  ultimately show ?thesis
    using claim_selected_after_sweep [OF assms(1)] unfolding assms(3) by simp
qed

text \<open>The witness: two replicas sweep the lapsed job of the story; the second finds nothing left.\<close>

lemma overlapping_sweeps_take_turns_witness:
  "reap_selected (stmt_at 40000000) [row_claimed]
     (update_rows (reapable (stmt_at 40000000)) (reap_row (stmt_at 40000000) None 7) [row_claimed]) = []"
proof -
  have "reapable (stmt_at 40000000) row_claimed" by (simp add: reapable_def story_rows)
  then show ?thesis
    using overlapping_sweeps_take_turns [OF story_wf(2) refl refl, of "stmt_at 40000000" "stmt_at 40000000" None 7]
    by (simp add: update_rows_def reapable_def row_simps)
qed

text \<open>
  Work survives its worker. A claimed job whose lease has passed and that has an attempt
  left is handed out again by the next sweep and the next claim of its kind, whoever makes it, as
  long as the claim's limit covers the queue and no other transaction holds the row.
\<close>

lemma lapsed_job_runs_again:
  assumes "queue_inv days t" "json_documented x" "x_json_arg x (Some jobReapError) = Some err"
    and "undisturbed e" "clock_within e t0 t1" "find_job t u = Some r" "reapable e r"
    and "sint (job_Attempt r) < sint (job_MaxAttempts r)"
    and "validator_documented x" "valid_claim x request" "undisturbed e'" "clock_within e' t1 t2"
    and "job_Kind r \<in> set (ccr_Kinds request)" "int (length t) \<le> ccr_Limit request"
    and "\<forall>v. \<not> st_locked e' v"
  shows "\<exists>js t'. JobClaim_Exec x e' request (snd (JobReap_Exec x e days t)) = (Inr js, t') \<and>
    u \<in> set (map cj_ID js) \<and>
    (\<exists>s. find_job t' u = Some s \<and> job_ClaimedBy s = Some (ccr_WorkerID request) \<and>
      sint (job_Attempt s) = sint (job_Attempt r) + 1)"
proof -
  let ?t = "snd (JobReap_Exec x e days t)" and ?s = "reap_row e err days r"
  note wf = queue_inv_wf [OF assms(1)]
  have inv: "queue_inv days ?t" by (rule JobReap_Exec_inv [OF assms(1,5)])
  note wf' = queue_inv_wf [OF inv]
  have u: "job_ID r = u" using find_job_SomeD [OF assms(6)] by simp
  have t: "?t = update_rows (reapable e) (reap_row e err days) t"
    using JobReap_Exec_ok [OF wf assms(4,3)] by simp
  have found: "find_job ?t u = Some ?s"
    using assms(6,7) by (simp add: t find_job_update row_simps)
  have "st_clock e u 1 \<le> st_clock e' u 0"
    using clock_within_bounds(2) [OF assms(5), of u 1] clock_within_bounds(1) [OF assms(12), of u 0] by simp
  then have due: "claim_due e' (ccr_Kinds request) ?s"
    using assms(8,13) u by (simp add: claim_due_def row_simps attempt_left_iff)
  have in_t: "?s \<in> set ?t" using find_job_SomeD [OF found] by simp
  have "length ?t = length t" by (simp add: t update_rows_def)
  then have "length (filter (\<lambda>r. claim_due e' (ccr_Kinds request) r \<and> \<not> st_locked e' (job_ID r)) ?t)
      \<le> nat (ccr_Limit request)"
    using assms(14) length_filter_le [of "\<lambda>r. claim_due e' (ccr_Kinds request) r \<and> \<not> st_locked e' (job_ID r)" ?t]
    by linarith
  then have all: "set (claimable e' (ccr_Kinds request) (ccr_Limit request) ?t) =
      {r \<in> set ?t. claim_due e' (ccr_Kinds request) r \<and> \<not> st_locked e' (job_ID r)}"
    by (rule claimable_all)
  then have taken: "?s \<in> set (claimable e' (ccr_Kinds request) (ccr_Limit request) ?t)"
    using in_t due assms(15) by simp
  note exec = JobClaim_Exec_ok [OF inv assms(9,10,11)]
  have "u \<in> set (map cj_ID (map jobToCore (claim_batch e' (claim_request request) ?t)))"
    using in_claimable_in_batch [OF wf' taken] u by (simp add: row_simps)
  moreover have "find_job (snd (JobClaim_Exec x e' request ?t)) u =
      Some (claim_row e' (ccr_WorkerID request) (ccr_LeaseSeconds request) ?s)"
    using found taken claim_guard_iff [OF wf' in_t]
    by (simp add: exec find_job_update row_simps)
  moreover have "sint (job_Attempt r) < 32767"
    using assms(8) sint16_range(2) [of "job_MaxAttempts r"] by simp
  ultimately show ?thesis using exec by (simp add: image_image row_simps sint16_succ)
qed

text \<open>The witness: the job of a worker that died is swept and claimed by another.\<close>

lemma claimed_inv: "queue_inv 7 [row_claimed]"
  by (simp add: queue_inv_def row_inv_def row_ok_iff) (simp add: story_rows)

lemma lapsed_job_runs_again_witness:
  "\<exists>js t'. JobClaim_Exec ext0 (stmt_at 30000040) (story_claim\<lparr> ccr_WorkerID := ''v'' \<rparr>)
      (snd (JobReap_Exec ext0 (stmt_at 30000030) 7 [row_claimed])) = (Inr js, t') \<and>
    (\<exists>s. find_job t' 1 = Some s \<and> job_ClaimedBy s = Some ''v'' \<and> sint (job_Attempt s) = 2)"
proof -
  have "reapable (stmt_at 30000030) row_claimed" "sint (job_Attempt row_claimed) = 1"
    "sint (job_MaxAttempts row_claimed) = 2" "job_Kind row_claimed = ''k''"
    by (simp_all add: reapable_def) (simp_all add: story_rows)
  moreover have "valid_claim ext0 (story_claim\<lparr> ccr_WorkerID := ''v'' \<rparr>)"
    by (simp add: valid_claim_def story_claim_def ext0_def)
  ultimately show ?thesis
    using lapsed_job_runs_again [OF claimed_inv ext0_json ext0_json_arg undisturbed_stmt_at, of 30000030
        30000030 30000040 1 row_claimed "story_claim\<lparr> ccr_WorkerID := ''v'' \<rparr>" "stmt_at 30000040" 30000040]
    by (simp add: clock_stmt_at) blast
qed

section \<open>The owner-scoped read\<close>

text \<open>
  C29: a job is visible to its owner and to nobody else, and the difference cannot be observed.
  A read answers with the job exactly if the caller owns it and with \<^const>\<open>ErrJobNotFound\<close>
  otherwise; for a job of another owner the answer, error value included, is the one the same
  call would get if the job did not exist; and a read changes nothing.
\<close>

theorem get_is_owner_scoped:
  assumes "table_wf t" "valid_get x request" "undisturbed e" "find_job t (cgr_ID request) = Some r"
  shows "snd (JobGet_Exec x e request t) = t \<and>
    (if job_OwnerID r = cgr_OwnerID request
     then fst (JobGet_Exec x e request t) = Inr (jobToCore r)
     else (\<exists>err. fst (JobGet_Exec x e request t) = Inl err \<and> errors_Is err ErrJobNotFound) \<and>
       fst (JobGet_Exec x e request t) =
         fst (JobGet_Exec x e request (filter (\<lambda>s. job_ID s \<noteq> cgr_ID request) t)))"
proof -
  let ?q = "\<lparr> dgr_ID = cgr_ID request, dgr_OwnerID = cgr_OwnerID request \<rparr>"
  let ?t = "filter (\<lambda>s. job_ID s \<noteq> cgr_ID request) t"
  have sub: "distinct (map idempotency_tuple (filter keyed ?t))"
  proof -
    have "filter keyed ?t = filter (\<lambda>s. job_ID s \<noteq> cgr_ID request) (filter keyed t)"
      by (simp add: conj_commute)
    then show ?thesis
      using assms(1) distinct_map_filter_key [of idempotency_tuple "filter keyed t"]
      by (simp add: table_wf_def)
  qed
  then have wf: "table_wf ?t"
    using assms(1) distinct_map_filter_key [OF table_wf_ids [OF assms(1)]]
    by (simp add: table_wf_def list_all_iff)
  have gone: "visible_job ?t (cgr_ID request) (cgr_OwnerID request) = None"
    by (cases "visible_job ?t (cgr_ID request) (cgr_OwnerID request)") (auto dest: visible_job_SomeD)
  show ?thesis
    using assms(2-4) gone
    by (auto simp: JobGet_Exec_eq undisturbedD dao_JobGet_Exec_delivered [OF assms(1)]
        dao_JobGet_Exec_delivered [OF wf] visible_job_def get_error_def)
qed

lemma get_is_owner_scoped_witness:
  "\<exists>err. fst (JobGet_Exec ext0 (stmt_at 20) \<lparr> cgr_ID = 1, cgr_OwnerID = 8 \<rparr> [row_claimed]) = Inl err \<and>
     errors_Is err ErrJobNotFound"
proof -
  have "valid_get ext0 \<lparr> cgr_ID = 1, cgr_OwnerID = 8 \<rparr>" "job_OwnerID row_claimed \<noteq> 8"
    by (simp_all add: valid_get_def ext0_def story_rows)
  then show ?thesis
    using get_is_owner_scoped [OF story_wf(2) _ undisturbed_stmt_at, of ext0
        "\<lparr> cgr_ID = 1, cgr_OwnerID = 8 \<rparr>" row_claimed 20] by (simp, metis)
qed

end
