(* ===== verification/Proto.thy ===== *)
theory Proto
  imports JobsTable
begin

text \<open>
  The messages of \<open>internal/handlers/protogen\<close>: one record per message, one function per getter.
  A message pointer is an option, and every getter of a nil message answers with the zero value
  of its field. A \<open>bytes\<close> field is a \<^typ>\<open>rawmsg\<close>, \<^term>\<open>None\<close> when it is not on the wire. An
  enum of the wire is an open \<open>int32\<close>.
\<close>

text \<open>\<open>if x != nil { return x.Field }; return zero\<close>\<close>

definition getter :: "('m \<Rightarrow> 'a) \<Rightarrow> 'a \<Rightarrow> 'm option \<Rightarrow> 'a" where
  "getter field zero x = (case x of None \<Rightarrow> zero | Some m \<Rightarrow> field m)"

lemma getter_simps [simp]: "getter f z None = z" "getter f z (Some m) = f m"
  by (simp_all add: getter_def)

section \<open>JobStatus\<close>

type_synonym protogen_JobStatus = int32

definition JOB_STATUS_UNSPECIFIED :: protogen_JobStatus where "JOB_STATUS_UNSPECIFIED = 0"
definition JOB_STATUS_PENDING :: protogen_JobStatus where "JOB_STATUS_PENDING = 1"
definition JOB_STATUS_CLAIMED :: protogen_JobStatus where "JOB_STATUS_CLAIMED = 2"
definition JOB_STATUS_SUCCEEDED :: protogen_JobStatus where "JOB_STATUS_SUCCEEDED = 3"
definition JOB_STATUS_FAILED :: protogen_JobStatus where "JOB_STATUS_FAILED = 4"
definition JOB_STATUS_ABANDONED :: protogen_JobStatus where "JOB_STATUS_ABANDONED = 5"
definition JOB_STATUS_CANCELLED :: protogen_JobStatus where "JOB_STATUS_CANCELLED = 6"

lemmas job_status_values =
  JOB_STATUS_UNSPECIFIED_def JOB_STATUS_PENDING_def JOB_STATUS_CLAIMED_def JOB_STATUS_SUCCEEDED_def
  JOB_STATUS_FAILED_def JOB_STATUS_ABANDONED_def JOB_STATUS_CANCELLED_def

text \<open>The generated name and value maps.\<close>

definition JobStatus_name :: "int32 \<rightharpoonup> string" where
  "JobStatus_name = map_of
     [(0, ''JOB_STATUS_UNSPECIFIED''), (1, ''JOB_STATUS_PENDING''), (2, ''JOB_STATUS_CLAIMED''),
      (3, ''JOB_STATUS_SUCCEEDED''), (4, ''JOB_STATUS_FAILED''), (5, ''JOB_STATUS_ABANDONED''),
      (6, ''JOB_STATUS_CANCELLED'')]"

definition JobStatus_value :: "string \<rightharpoonup> int32" where
  "JobStatus_value = map_of
     [(''JOB_STATUS_UNSPECIFIED'', 0), (''JOB_STATUS_PENDING'', 1), (''JOB_STATUS_CLAIMED'', 2),
      (''JOB_STATUS_SUCCEEDED'', 3), (''JOB_STATUS_FAILED'', 4), (''JOB_STATUS_ABANDONED'', 5),
      (''JOB_STATUS_CANCELLED'', 6)]"

section \<open>Job\<close>

record protogen_Job =
  pj_Id :: string
  pj_Kind :: string
  pj_Payload :: rawmsg
  pj_OwnerId :: string
  pj_Status :: protogen_JobStatus
  pj_Attempt :: int32
  pj_MaxAttempts :: int32
  pj_Result :: rawmsg
  pj_Error :: rawmsg
  pj_ProviderCallId :: string
  pj_CreatedAt :: string
  pj_UpdatedAt :: string
  pj_SettledAt :: string
  pj_ExpiresAt :: string

definition Job_GetId :: "protogen_Job option \<Rightarrow> string" where
  "Job_GetId = getter pj_Id ''''"
definition Job_GetKind :: "protogen_Job option \<Rightarrow> string" where
  "Job_GetKind = getter pj_Kind ''''"
definition Job_GetPayload :: "protogen_Job option \<Rightarrow> rawmsg" where
  "Job_GetPayload = getter pj_Payload None"
definition Job_GetOwnerId :: "protogen_Job option \<Rightarrow> string" where
  "Job_GetOwnerId = getter pj_OwnerId ''''"
definition Job_GetStatus :: "protogen_Job option \<Rightarrow> protogen_JobStatus" where
  "Job_GetStatus = getter pj_Status JOB_STATUS_UNSPECIFIED"
definition Job_GetAttempt :: "protogen_Job option \<Rightarrow> int32" where
  "Job_GetAttempt = getter pj_Attempt 0"
definition Job_GetMaxAttempts :: "protogen_Job option \<Rightarrow> int32" where
  "Job_GetMaxAttempts = getter pj_MaxAttempts 0"
definition Job_GetResult :: "protogen_Job option \<Rightarrow> rawmsg" where
  "Job_GetResult = getter pj_Result None"
definition Job_GetError :: "protogen_Job option \<Rightarrow> rawmsg" where
  "Job_GetError = getter pj_Error None"
definition Job_GetProviderCallId :: "protogen_Job option \<Rightarrow> string" where
  "Job_GetProviderCallId = getter pj_ProviderCallId ''''"
definition Job_GetCreatedAt :: "protogen_Job option \<Rightarrow> string" where
  "Job_GetCreatedAt = getter pj_CreatedAt ''''"
definition Job_GetUpdatedAt :: "protogen_Job option \<Rightarrow> string" where
  "Job_GetUpdatedAt = getter pj_UpdatedAt ''''"
definition Job_GetSettledAt :: "protogen_Job option \<Rightarrow> string" where
  "Job_GetSettledAt = getter pj_SettledAt ''''"
definition Job_GetExpiresAt :: "protogen_Job option \<Rightarrow> string" where
  "Job_GetExpiresAt = getter pj_ExpiresAt ''''"

section \<open>Claim\<close>

record protogen_JobClaimRequest =
  pcq_Kinds :: "string list"
  pcq_WorkerId :: string
  pcq_Limit :: int32
  pcq_LeaseSeconds :: int32

definition JobClaimRequest_GetKinds :: "protogen_JobClaimRequest option \<Rightarrow> string list" where
  "JobClaimRequest_GetKinds = getter pcq_Kinds []"
definition JobClaimRequest_GetWorkerId :: "protogen_JobClaimRequest option \<Rightarrow> string" where
  "JobClaimRequest_GetWorkerId = getter pcq_WorkerId ''''"
definition JobClaimRequest_GetLimit :: "protogen_JobClaimRequest option \<Rightarrow> int32" where
  "JobClaimRequest_GetLimit = getter pcq_Limit 0"
definition JobClaimRequest_GetLeaseSeconds :: "protogen_JobClaimRequest option \<Rightarrow> int32" where
  "JobClaimRequest_GetLeaseSeconds = getter pcq_LeaseSeconds 0"

record protogen_JobClaimResponse =
  pcr_Jobs :: "protogen_Job list"

definition JobClaimResponse_GetJobs :: "protogen_JobClaimResponse option \<Rightarrow> protogen_Job list" where
  "JobClaimResponse_GetJobs = getter pcr_Jobs []"

section \<open>Enqueue\<close>

record protogen_JobEnqueueRequest =
  peq_Kind :: string
  peq_Payload :: rawmsg
  peq_OwnerId :: string
  peq_IdempotencyKey :: "string option"
  peq_MaxAttempts :: int32

definition JobEnqueueRequest_GetKind :: "protogen_JobEnqueueRequest option \<Rightarrow> string" where
  "JobEnqueueRequest_GetKind = getter peq_Kind ''''"
definition JobEnqueueRequest_GetPayload :: "protogen_JobEnqueueRequest option \<Rightarrow> rawmsg" where
  "JobEnqueueRequest_GetPayload = getter peq_Payload None"
definition JobEnqueueRequest_GetOwnerId :: "protogen_JobEnqueueRequest option \<Rightarrow> string" where
  "JobEnqueueRequest_GetOwnerId = getter peq_OwnerId ''''"

text \<open>The optional field: absent and empty read the same through the getter.\<close>

definition JobEnqueueRequest_GetIdempotencyKey :: "protogen_JobEnqueueRequest option \<Rightarrow> string" where
  "JobEnqueueRequest_GetIdempotencyKey =
     getter (\<lambda>m. case peq_IdempotencyKey m of None \<Rightarrow> '''' | Some s \<Rightarrow> s) ''''"
definition JobEnqueueRequest_GetMaxAttempts :: "protogen_JobEnqueueRequest option \<Rightarrow> int32" where
  "JobEnqueueRequest_GetMaxAttempts = getter peq_MaxAttempts 0"

record protogen_JobEnqueueResponse =
  per_Job :: "protogen_Job option"
  per_Created :: bool

definition JobEnqueueResponse_GetJob :: "protogen_JobEnqueueResponse option \<Rightarrow> protogen_Job option" where
  "JobEnqueueResponse_GetJob = getter per_Job None"
definition JobEnqueueResponse_GetCreated :: "protogen_JobEnqueueResponse option \<Rightarrow> bool" where
  "JobEnqueueResponse_GetCreated = getter per_Created False"

section \<open>Get and watch\<close>

record protogen_JobGetRequest =
  pgq_Id :: string
  pgq_OwnerId :: string

definition JobGetRequest_GetId :: "protogen_JobGetRequest option \<Rightarrow> string" where
  "JobGetRequest_GetId = getter pgq_Id ''''"
definition JobGetRequest_GetOwnerId :: "protogen_JobGetRequest option \<Rightarrow> string" where
  "JobGetRequest_GetOwnerId = getter pgq_OwnerId ''''"

record protogen_JobGetResponse =
  pgr_Job :: "protogen_Job option"

definition JobGetResponse_GetJob :: "protogen_JobGetResponse option \<Rightarrow> protogen_Job option" where
  "JobGetResponse_GetJob = getter pgr_Job None"

record protogen_JobWatchRequest =
  pwq_Id :: string
  pwq_OwnerId :: string

definition JobWatchRequest_GetId :: "protogen_JobWatchRequest option \<Rightarrow> string" where
  "JobWatchRequest_GetId = getter pwq_Id ''''"
definition JobWatchRequest_GetOwnerId :: "protogen_JobWatchRequest option \<Rightarrow> string" where
  "JobWatchRequest_GetOwnerId = getter pwq_OwnerId ''''"

record protogen_JobWatchResponse =
  pwr_Job :: "protogen_Job option"

definition JobWatchResponse_GetJob :: "protogen_JobWatchResponse option \<Rightarrow> protogen_Job option" where
  "JobWatchResponse_GetJob = getter pwr_Job None"

section \<open>Settle\<close>

record protogen_JobFailure =
  pfl_Error :: rawmsg
  pfl_Retryable :: bool

definition JobFailure_GetError :: "protogen_JobFailure option \<Rightarrow> rawmsg" where
  "JobFailure_GetError = getter pfl_Error None"
definition JobFailure_GetRetryable :: "protogen_JobFailure option \<Rightarrow> bool" where
  "JobFailure_GetRetryable = getter pfl_Retryable False"

text \<open>The oneof: unset, a result, or a failure.\<close>

datatype isJobSettleRequest_Outcome =
    OutcomeUnset
  | JobSettleRequest_Result rawmsg
  | JobSettleRequest_Failure "protogen_JobFailure option"

record protogen_JobSettleRequest =
  psq_Id :: string
  psq_WorkerId :: string
  psq_Outcome :: isJobSettleRequest_Outcome

definition JobSettleRequest_GetId :: "protogen_JobSettleRequest option \<Rightarrow> string" where
  "JobSettleRequest_GetId = getter psq_Id ''''"
definition JobSettleRequest_GetWorkerId :: "protogen_JobSettleRequest option \<Rightarrow> string" where
  "JobSettleRequest_GetWorkerId = getter psq_WorkerId ''''"
definition JobSettleRequest_GetOutcome :: "protogen_JobSettleRequest option \<Rightarrow> isJobSettleRequest_Outcome" where
  "JobSettleRequest_GetOutcome = getter psq_Outcome OutcomeUnset"
definition JobSettleRequest_GetResult :: "protogen_JobSettleRequest option \<Rightarrow> rawmsg" where
  "JobSettleRequest_GetResult =
     getter (\<lambda>m. case psq_Outcome m of JobSettleRequest_Result r \<Rightarrow> r | _ \<Rightarrow> None) None"
definition JobSettleRequest_GetFailure :: "protogen_JobSettleRequest option \<Rightarrow> protogen_JobFailure option" where
  "JobSettleRequest_GetFailure =
     getter (\<lambda>m. case psq_Outcome m of JobSettleRequest_Failure f \<Rightarrow> f | _ \<Rightarrow> None) None"

record protogen_JobSettleResponse =
  psr_Job :: "protogen_Job option"

definition JobSettleResponse_GetJob :: "protogen_JobSettleResponse option \<Rightarrow> protogen_Job option" where
  "JobSettleResponse_GetJob = getter psr_Job None"

lemmas request_getters =
  JobClaimRequest_GetKinds_def JobClaimRequest_GetWorkerId_def JobClaimRequest_GetLimit_def
  JobClaimRequest_GetLeaseSeconds_def JobEnqueueRequest_GetKind_def JobEnqueueRequest_GetPayload_def
  JobEnqueueRequest_GetOwnerId_def JobEnqueueRequest_GetMaxAttempts_def JobGetRequest_GetId_def
  JobGetRequest_GetOwnerId_def JobWatchRequest_GetId_def JobWatchRequest_GetOwnerId_def
  JobSettleRequest_GetId_def JobSettleRequest_GetWorkerId_def JobSettleRequest_GetResult_def
  JobSettleRequest_GetFailure_def JobFailure_GetError_def JobFailure_GetRetryable_def

text \<open>At most one arm of the outcome is ever visible through the getters.\<close>

lemma settle_outcome_exclusive:
  "JobSettleRequest_GetFailure x = None \<or> JobSettleRequest_GetResult x = None"
  by (cases x) (auto simp: request_getters split: isJobSettleRequest_Outcome.splits)

end
