(* ===== verification/GoTime.thy ===== *)
theory GoTime
  imports JobsTable
begin

text \<open>
  Go's \<open>Time.Format(time.RFC3339)\<close>: calendar arithmetic on the proleptic Gregorian calendar,
  decimal fields padded with zeros, the offset of the location or \<open>Z\<close>. A time is in
  microseconds; the fraction of a second is dropped.
\<close>

section \<open>Decimal fields\<close>

definition digit :: "nat \<Rightarrow> char" where
  "digit n = char_of (48 + n mod 10)"

fun decimal :: "nat \<Rightarrow> string" where
  "decimal n = (if n < 10 then [digit n] else decimal (n div 10) @ [digit n])"

declare decimal.simps [simp del]

text \<open>\<open>appendInt(b, x, width)\<close>\<close>

definition appendInt :: "int \<Rightarrow> nat \<Rightarrow> string" where
  "appendInt n width =
     (let ds = decimal (nat \<bar>n\<bar>)
      in (if n < 0 then ''-'' else '''') @ replicate (width - length ds) (CHR ''0'') @ ds)"

definition digit_value :: "char \<Rightarrow> int" where
  "digit_value c = int (of_char c) - 48"

lemma digit_0: "CHR ''0'' = digit 0"
  by code_simp

lemma digit_value_digit [simp]: "digit_value (digit n) = int (n mod 10)"
  by (simp add: digit_value_def digit_def)

lemma decimal_lt: "n < 10 \<Longrightarrow> decimal n = [digit n]"
  using decimal.simps [of n] by simp

lemma decimal_ge: "10 \<le> n \<Longrightarrow> decimal n = decimal (n div 10) @ [digit n]"
  using decimal.simps [of n] by simp

lemma appendInt_nat:
  "appendInt (int k) width = replicate (width - length (decimal k)) (digit 0) @ decimal k"
  by (simp add: appendInt_def digit_0 Let_def)

lemma appendInt_2:
  assumes "k < 100"
  shows "appendInt (int k) 2 = [digit (k div 10), digit k]"
proof (cases "k < 10")
  case True
  then have "k div 10 = 0" by simp
  then show ?thesis by (simp add: appendInt_nat decimal_lt [OF True])
next
  case False
  then have "decimal k = [digit (k div 10)] @ [digit k]"
    using assms decimal_ge [of k] decimal_lt [of "k div 10"] by simp
  then show ?thesis by (simp add: appendInt_nat)
qed

lemma appendInt_4:
  assumes "k < 10000"
  shows "appendInt (int k) 4 = [digit (k div 1000), digit (k div 100), digit (k div 10), digit k]"
proof -
  have d2: "k div 10 div 10 = k div 100" and d3: "k div 100 div 10 = k div 1000"
    by (simp_all add: div_mult2_eq [symmetric])
  consider "k < 10" | "10 \<le> k" "k < 100" | "100 \<le> k" "k < 1000" | "1000 \<le> k" by linarith
  then show ?thesis
  proof cases
    case 1
    then have "k div 10 = 0" "k div 100 = 0" "k div 1000 = 0" by simp_all
    then show ?thesis by (simp add: appendInt_nat decimal_lt [OF 1] numeral_3_eq_3)
  next
    case 2
    then have "k div 100 = 0" "k div 1000 = 0" by simp_all
    moreover have "decimal k = [digit (k div 10)] @ [digit k]"
      using decimal_ge [of k] decimal_lt [of "k div 10"] 2 by simp
    ultimately show ?thesis by (simp add: appendInt_nat numeral_2_eq_2)
  next
    case 3
    then have "k div 1000 = 0" by simp
    moreover have "decimal k = [digit (k div 100), digit (k div 10)] @ [digit k]"
      using decimal_ge [of k] decimal_ge [of "k div 10"] decimal_lt [of "k div 100"] 3 d2 by simp
    ultimately show ?thesis by (simp add: appendInt_nat numeral_2_eq_2)
  next
    case 4
    then have "decimal k = [digit (k div 1000), digit (k div 100), digit (k div 10)] @ [digit k]"
      using decimal_ge [of k] decimal_ge [of "k div 10"] decimal_ge [of "k div 100"]
        decimal_lt [of "k div 1000"] assms d2 d3 by simp
    then show ?thesis by (simp add: appendInt_nat)
  qed
qed

section \<open>The calendar\<close>

definition isLeap :: "int \<Rightarrow> bool" where
  "isLeap y \<longleftrightarrow> y mod 4 = 0 \<and> (y mod 100 \<noteq> 0 \<or> y mod 400 = 0)"

definition daysBefore :: "int list" where
  "daysBefore = [0, 31, 59, 90, 120, 151, 181, 212, 243, 273, 304, 334, 365]"

text \<open>\<open>absDate\<close>: the year and the day in it, for a day counted from 1 January of year 1.\<close>

definition absYear :: "int \<Rightarrow> int \<times> int" where
  "absYear d =
     (let a = d div 146097; d1 = d - 146097 * a;
          b = d1 div 36524 - d1 div 36524 div 4; d2 = d1 - 36524 * b;
          c = d2 div 1461; d3 = d2 - 1461 * c;
          n = d3 div 365 - d3 div 365 div 4
      in (400 * a + 100 * b + 4 * c + n + 1, d3 - 365 * n))"

text \<open>The month and the day in it, for a day in a year of 365 days.\<close>

definition monthDay :: "int \<Rightarrow> int \<times> int" where
  "monthDay day =
     (let m = day div 31; stop = daysBefore ! nat (m + 1)
      in if stop \<le> day then (m + 2, day - stop + 1)
         else (m + 1, day - daysBefore ! nat m + 1))"

definition absDate :: "int \<Rightarrow> int \<times> int \<times> int" where
  "absDate d =
     (let (y, yday) = absYear d
      in if isLeap y \<and> yday = 59 then (y, 2, 29)
         else (y, monthDay (if isLeap y \<and> 59 < yday then yday - 1 else yday)))"

text \<open>The inverse, for the reader of a timestamp.\<close>

definition days_of :: "int \<times> int \<times> int \<Rightarrow> int" where
  "days_of ymd =
     (case ymd of (y, m, d) \<Rightarrow>
        365 * (y - 1) + (y - 1) div 4 - (y - 1) div 100 + (y - 1) div 400 +
        daysBefore ! nat (m - 1) + (if isLeap y \<and> 2 < m then 1 else 0) + (d - 1))"

text \<open>A cycle is four parts of \<open>k\<close> days and one day over, which the last part takes.\<close>

lemma quarter:
  assumes "0 < k" "0 \<le> d" "d \<le> 4 * k" "b = d div k - d div k div 4"
  shows "0 \<le> b" "b \<le> 3" "0 \<le> d - k * b" "d - k * b \<le> k" "d - k * b = k \<Longrightarrow> b = 3 \<and> d = 4 * (k::int)"
proof -
  define q where "q = d div k"
  have q: "k * q \<le> d" "d < k * q + k"
    using assms(1) pos_mod_bound [of k d] pos_mod_sign [of k d] by (simp_all add: q_def flip: minus_mult_div_eq_mod)
  have "0 \<le> q" using assms(1,2) by (simp add: q_def pos_imp_zdiv_nonneg_iff)
  moreover have "q \<le> 4"
    using assms(1,3) zdiv_mono1 [OF assms(3,1)] by (simp add: q_def)
  ultimately have "q = 0 \<or> q = 1 \<or> q = 2 \<or> q = 3 \<or> q = 4" by linarith
  then show "0 \<le> b" "b \<le> 3" "0 \<le> d - k * b" "d - k * b \<le> k" "d - k * b = k \<Longrightarrow> b = 3 \<and> d = 4 * k"
    using q assms(2-4) by (auto simp: q_def [symmetric])
qed

lemma absYear_days:
  assumes "0 \<le> d" "absYear d = (y, yday)"
  shows "365 * (y - 1) + (y - 1) div 4 - (y - 1) div 100 + (y - 1) div 400 + yday = d"
    and "0 \<le> yday" "yday < 365 \<or> isLeap y \<and> yday = 365" "1 \<le> y"
proof -
  define a where "a = d div 146097"
  define d1 where "d1 = d - 146097 * a"
  define b where "b = d1 div 36524 - d1 div 36524 div 4"
  define d2 where "d2 = d1 - 36524 * b"
  define c where "c = d2 div 1461"
  define d3 where "d3 = d2 - 1461 * c"
  define n where "n = d3 div 365 - d3 div 365 div 4"
  have "absYear d = (400 * a + 100 * b + 4 * c + n + 1, d3 - 365 * n)"
    by (simp only: absYear_def Let_def a_def d1_def b_def d2_def c_def d3_def n_def)
  then have y: "y - 1 = 400 * a + 100 * b + 4 * c + n" and yd: "yday = d3 - 365 * n"
    using assms(2) by simp_all
  have 1: "0 \<le> a" "0 \<le> d1" "d1 \<le> 4 * 36524"
    using assms(1) pos_mod_bound [of 146097 d] by (simp_all add: a_def d1_def minus_mult_div_eq_mod)
  have 2: "0 \<le> b" "b \<le> 3" "0 \<le> d2" "d2 \<le> 36524" "d2 = 36524 \<longrightarrow> b = 3"
    using quarter [OF _ 1(2,3) b_def] by (simp_all add: d2_def)
  have c: "c * 1461 + d3 = d2" "0 \<le> d3" "d3 < 1461"
    using pos_mod_bound [of 1461 d2] by (simp_all add: c_def d3_def minus_mult_div_eq_mod)
  then have 3: "0 \<le> c" "c \<le> 24" "0 \<le> d3" "d3 \<le> 4 * 365" "c = 24 \<and> d3 = 1460 \<longrightarrow> d2 = 36524"
    using 2(3,4) by (simp_all add: c_def pos_imp_zdiv_nonneg_iff)
  have 4: "0 \<le> n" "n \<le> 3" "0 \<le> yday" "yday \<le> 365" "yday = 365 \<longrightarrow> n = 3 \<and> d3 = 1460"
    using quarter [OF _ 3(3,4) n_def] by (simp_all add: yd)
  have "(y - 1) div 4 = 100 * a + 25 * b + c"
    by (rule int_div_pos_eq [of _ _ _ n]) (use 4(1,2) y in simp_all)
  moreover have "(y - 1) div 100 = 4 * a + b"
    by (rule int_div_pos_eq [of _ _ _ "4 * c + n"]) (use 3(1,2) 4(1,2) y in simp_all)
  moreover have "(y - 1) div 400 = a"
    by (rule int_div_pos_eq [of _ _ _ "100 * b + 4 * c + n"]) (use 2(1,2) 3(1,2) 4(1,2) y in simp_all)
  ultimately show "365 * (y - 1) + (y - 1) div 4 - (y - 1) div 100 + (y - 1) div 400 + yday = d"
    unfolding y yd d3_def d2_def d1_def by simp
  show "0 \<le> yday" "1 \<le> y" using 1(1) 2(1) 3(1) 4(1,3) y by simp_all
  show "yday < 365 \<or> isLeap y \<and> yday = 365"
  proof (cases "yday = 365")
    case True
    then have n: "n = 3" "d3 = 1460" using 4(5) by simp_all
    have y': "y = 4 * (100 * a + 25 * b + c + 1)" using y n(1) by simp
    have leap: "y mod 400 = 0" if "y mod 100 = 0"
    proof -
      have c24: "c = 24"
      proof (rule ccontr)
        assume "c \<noteq> 24"
        then have "y mod 100 = 4 * (c + 1)"
          by (intro int_mod_pos_eq [of _ _ "4 * a + b"]) (use 3(1,2) y' in simp_all)
        then show False using that 3(1) by simp
      qed
      then have "b = 3" using 2(5) 3(5) n(2) by simp
      then have "y = 400 * (a + 1)" using c24 y' by simp
      then show ?thesis by simp
    qed
    have "y mod 4 = 0" unfolding y' by simp
    then show ?thesis using True leap by (auto simp: isLeap_def)
  next
    case False
    then show ?thesis using 4(4) by simp
  qed
qed

text \<open>The day of an ordinary year, checked for each of its 365 days.\<close>

lemma monthDay_table:
  "list_all (\<lambda>day. case monthDay day of (m, d) \<Rightarrow>
     1 \<le> m \<and> m \<le> 12 \<and> 1 \<le> d \<and> d \<le> 31 \<and> daysBefore ! nat (m - 1) + (d - 1) = day \<and>
     (2 < m \<longleftrightarrow> 59 \<le> day)) [0..364]"
  by code_simp

lemma monthDay_days:
  assumes "0 \<le> day" "day < 365" "monthDay day = (m, d)"
  shows "1 \<le> m \<and> m \<le> 12 \<and> 1 \<le> d \<and> d \<le> 31 \<and> daysBefore ! nat (m - 1) + (d - 1) = day \<and>
    (2 < m \<longleftrightarrow> 59 \<le> day)"
proof -
  have "day \<in> set [0..364]" using assms(1,2) by simp
  then show ?thesis using monthDay_table assms(3) unfolding list_all_iff by fastforce
qed

lemma absDate_days:
  assumes "0 \<le> n" "absDate n = (y, m, d)"
  shows "days_of (y, m, d) = n \<and> 1 \<le> y \<and> 1 \<le> m \<and> m \<le> 12 \<and> 1 \<le> d \<and> d \<le> 31"
proof -
  obtain y' yday where yd: "absYear n = (y', yday)" by fastforce
  note yr = absYear_days [OF assms(1) yd]
  show ?thesis
  proof (cases "isLeap y' \<and> yday = 59")
    case True
    then show ?thesis using assms(2) yr(1,4) by (simp add: absDate_def yd days_of_def daysBefore_def)
  next
    case False
    define day where "day = (if isLeap y' \<and> 59 < yday then yday - 1 else yday)"
    have md: "monthDay day = (m, d)" "y = y'"
      using assms(2) False unfolding absDate_def yd day_def by (auto split: if_splits)
    have "0 \<le> day" "day < 365" using yr(2,3) by (auto simp: day_def)
    note month = monthDay_days [OF this md(1)]
    then have "daysBefore ! nat (m - 1) + (if isLeap y \<and> 2 < m then 1 else 0) + (d - 1) = yday"
      using False md(2) by (auto simp: day_def split: if_splits)
    then show ?thesis using month yr(1,4) md(2) by (simp add: days_of_def)
  qed
qed

section \<open>RFC 3339\<close>

text \<open>Days from 1 January of year 1 to 1 January 1970.\<close>

definition unixToInternal :: int where
  "unixToInternal = 719162"

text \<open>\<open>appendFormatRFC3339\<close>, for a location \<open>offset\<close> seconds east of UTC.\<close>

definition Format_RFC3339 :: "int \<Rightarrow> time \<Rightarrow> string" where
  "Format_RFC3339 offset t =
     (let abs = t div 1000000 + offset;
          (y, m, d) = absDate (abs div 86400 + unixToInternal);
          sec = abs mod 86400;
          zone = (if offset < 0 then - (- offset div 60) else offset div 60)
      in appendInt y 4 @ ''-'' @ appendInt m 2 @ ''-'' @ appendInt d 2 @ ''T'' @
         appendInt (sec div 3600) 2 @ '':'' @ appendInt (sec mod 3600 div 60) 2 @ '':'' @
         appendInt (sec mod 60) 2 @
         (if offset = 0 then ''Z''
          else (if zone < 0 then ''-'' else ''+'') @
            appendInt (\<bar>zone\<bar> div 60) 2 @ '':'' @ appendInt (\<bar>zone\<bar> mod 60) 2))"

text \<open>The reader of a timestamp: the second it names, counted from the epoch.\<close>

definition read_2 :: "string \<Rightarrow> nat \<Rightarrow> int" where
  "read_2 s i = 10 * digit_value (s ! i) + digit_value (s ! (i + 1))"

definition read_zone :: "string \<Rightarrow> int" where
  "read_zone s =
     (if s ! 0 = CHR ''Z'' then 0
      else (if s ! 0 = CHR ''-'' then -1 else 1) * (3600 * read_2 s 1 + 60 * read_2 s 4))"

definition read_RFC3339 :: "string \<Rightarrow> int" where
  "read_RFC3339 s =
     86400 * (days_of (100 * read_2 s 0 + read_2 s 2, read_2 s 5, read_2 s 8) - unixToInternal) +
     3600 * read_2 s 11 + 60 * read_2 s 14 + read_2 s 17 - read_zone (drop 19 s)"

lemma read_appendInt_2:
  assumes "0 \<le> n" "n < 100"
  obtains a b where "appendInt n 2 = [a, b]" "10 * digit_value a + digit_value b = n"
proof -
  obtain k where k: "n = int k" using assms(1) nonneg_int_cases by blast
  then have "appendInt n 2 = [digit (k div 10), digit k]" using assms(2) by (simp add: appendInt_2)
  moreover have "10 * digit_value (digit (k div 10)) + digit_value (digit k) = n"
  proof -
    have "int (10 * (k div 10) + k mod 10) = n" unfolding k by (simp only: mult_div_mod_eq)
    moreover have "k div 10 mod 10 = k div 10" using assms(2) k by simp
    ultimately show ?thesis by (simp only: digit_value_digit of_nat_add of_nat_mult of_nat_numeral)
  qed
  ultimately show ?thesis by (rule that)
qed

lemma four_digits:
  "10 * k1 + m0 = k \<Longrightarrow> 10 * k2 + m1 = k1 \<Longrightarrow> 10 * k3 + m2 = k2 \<Longrightarrow>
     100 * (10 * k3 + m2) + (10 * m1 + m0) = (k :: nat)"
  by simp

lemma read_appendInt_4:
  assumes "0 \<le> n" "n < 10000"
  obtains a b c d where "appendInt n 4 = [a, b, c, d]"
    "100 * (10 * digit_value a + digit_value b) + (10 * digit_value c + digit_value d) = n"
proof -
  obtain k where k: "n = int k" using assms(1) nonneg_int_cases by blast
  then have "appendInt n 4 = [digit (k div 1000), digit (k div 100), digit (k div 10), digit k]"
    using assms(2) by (simp add: appendInt_4)
  moreover have "100 * (10 * digit_value (digit (k div 1000)) + digit_value (digit (k div 100))) +
      (10 * digit_value (digit (k div 10)) + digit_value (digit k)) = n"
  proof -
    have "100 * (10 * (k div 1000) + k div 100 mod 10) + (10 * (k div 10 mod 10) + k mod 10) = k"
      using mult_div_mod_eq [of 10 "k div 10"] mult_div_mod_eq [of 10 "k div 100"]
      by (intro four_digits [of "k div 10" _ _ "k div 100"]) (simp_all add: div_mult2_eq [symmetric])
    moreover have "k div 1000 mod 10 = k div 1000" using assms(2) k by simp
    ultimately have "100 * (10 * (k div 1000 mod 10) + k div 100 mod 10) + (10 * (k div 10 mod 10) + k mod 10) = k"
      by simp
    then show ?thesis
      unfolding k digit_value_digit by (metis of_nat_add of_nat_mult of_nat_numeral)
  qed
  ultimately show ?thesis by (rule that)
qed

text \<open>A day before the year 10000 has a year of four digits.\<close>

lemma absDate_year:
  assumes "0 \<le> n" "n < 3652059" "absDate n = (y, m, d)"
  shows "1 \<le> y" "y < 10000"
proof -
  obtain y' yday where yd: "absYear n = (y', yday)" by fastforce
  then have y: "y = y'" using assms(3) by (auto simp: absDate_def split: if_splits)
  note yr = absYear_days [OF assms(1) yd]
  show "1 \<le> y" using yr(4) y by simp
  have "(y' - 1) div 100 \<le> (y' - 1) div 4" using yr(4) by (intro zdiv_mono2) simp_all
  then have "365 * (y' - 1) + (y' - 1) div 4 - (y' - 1) div 100 + (y' - 1) div 400 \<le> n"
    using yr(1,2) by simp
  moreover have "3652059 \<le> 365 * (y' - 1) + (y' - 1) div 4 - (y' - 1) div 100 + (y' - 1) div 400"
    if "10000 \<le> y'"
  proof -
    have "2499 \<le> (y' - 1) div 4" "24 \<le> (y' - 1) div 400"
      using that zdiv_mono1 [of 9999 "y' - 1" 4] zdiv_mono1 [of 9999 "y' - 1" 400] by simp_all
    moreover have "(y' - 1) div 100 = (y' - 1) div 4 div 25" by (simp add: zdiv_zmult2_eq [symmetric])
    moreover have "2499 \<le> q \<Longrightarrow> 2400 \<le> q - q div 25" for q :: int by presburger
    ultimately show ?thesis using that by (smt (verit))
  qed
  ultimately show "y < 10000" using assms(2) y by force
qed

lemma RFC3339_fields:
  assumes "appendInt y 4 = [a, b, c, d]" "appendInt m 2 = [e, f]" "appendInt g 2 = [h, i]"
    "appendInt p 2 = [j, k]" "appendInt q 2 = [l, n]" "appendInt r 2 = [u, v]"
  shows "read_RFC3339 (appendInt y 4 @ ''-'' @ appendInt m 2 @ ''-'' @ appendInt g 2 @ ''T'' @
      appendInt p 2 @ '':'' @ appendInt q 2 @ '':'' @ appendInt r 2 @ zone) =
    86400 * (days_of (100 * (10 * digit_value a + digit_value b) + (10 * digit_value c + digit_value d),
      10 * digit_value e + digit_value f, 10 * digit_value h + digit_value i) - unixToInternal) +
    3600 * (10 * digit_value j + digit_value k) + 60 * (10 * digit_value l + digit_value n) +
    (10 * digit_value u + digit_value v) - read_zone zone"
  unfolding assms by (simp add: read_RFC3339_def read_2_def)

text \<open>A zone of whole minutes is printed exactly.\<close>

definition zone_suffix :: "int \<Rightarrow> string" where
  "zone_suffix offset =
     (let zone = (if offset < 0 then - (- offset div 60) else offset div 60) in
      if offset = 0 then ''Z''
      else (if zone < 0 then ''-'' else ''+'') @ appendInt (\<bar>zone\<bar> div 60) 2 @ '':'' @ appendInt (\<bar>zone\<bar> mod 60) 2)"

lemma read_zone_suffix:
  assumes "offset mod 60 = 0" "\<bar>offset\<bar> < 360000"
  shows "read_zone (zone_suffix offset) = offset"
proof (cases "offset = 0")
  case False
  define k where "k = \<bar>offset\<bar> div 60"
  have k: "\<bar>offset\<bar> = 60 * k" "0 < k" "k < 6000"
    using assms False by (auto simp: k_def abs_if zmod_zminus1_eq_if)
  obtain a b where ab: "appendInt (k div 60) 2 = [a, b]" "10 * digit_value a + digit_value b = k div 60"
    by (rule read_appendInt_2 [of "k div 60"]) (use k in simp_all)
  obtain c d where cd: "appendInt (k mod 60) 2 = [c, d]" "10 * digit_value c + digit_value d = k mod 60"
  proof (rule read_appendInt_2 [of "k mod 60"])
    show "k mod 60 < 100" using pos_mod_bound [of 60 k] by simp
  qed simp_all
  have zone: "(if offset < 0 then - (- offset div 60) else offset div 60) = (if offset < 0 then - k else k)"
    by (simp add: k_def)
  have "zone_suffix offset = (if offset < 0 then ''-'' else ''+'') @ [a, b] @ '':'' @ [c, d]"
    unfolding zone_suffix_def Let_def zone using False k(2) ab(1) cd(1) by simp
  then have "read_zone (zone_suffix offset) =
      (if offset < 0 then -1 else 1) * (3600 * (k div 60) + 60 * (k mod 60))"
    using ab(2) cd(2) by (simp add: read_zone_def read_2_def)
  moreover have "3600 * q + 60 * m = 60 * k" if "60 * q + m = k" for q m using that by simp
  then have "3600 * (k div 60) + 60 * (k mod 60) = 60 * k" using mult_div_mod_eq [of 60 k] .
  ultimately show ?thesis using k(1) by (auto simp: abs_if split: if_splits)
qed (simp add: zone_suffix_def read_zone_def)

lemma field_bounds: "0 \<le> (r::int) mod 3600 div 60" "r mod 3600 div 60 < 100" "0 \<le> r mod 60" "r mod 60 < 100"
  using pos_mod_bound [of 3600 r] pos_mod_sign [of 3600 r] pos_mod_bound [of 60 r] pos_mod_sign [of 60 r]
  by (simp_all add: pos_imp_zdiv_nonneg_iff)

lemma read_Format_RFC3339:
  assumes "offset mod 60 = 0" "\<bar>offset\<bar> < 360000"
    and "0 \<le> t div 1000000 + offset" "t div 1000000 + offset < 253402300800"
  shows "read_RFC3339 (Format_RFC3339 offset t) = t div 1000000"
proof -
  define s where "s = t div 1000000 + offset"
  have s: "0 \<le> s" "s < 253402300800" using assms(3,4) by (simp_all add: s_def)
  define n where "n = s div 86400 + unixToInternal"
  have n: "0 \<le> n" "n < 3652059" using s by (simp_all add: n_def unixToInternal_def)
  obtain y m d where date: "absDate n = (y, m, d)" by (cases "absDate n") auto
  note days = absDate_days [OF n(1) date] and year = absDate_year [OF n date]
  define r where "r = s mod 86400"
  have r: "0 \<le> r" "r < 86400" by (simp_all add: r_def)
  obtain a b c e where fy: "appendInt y 4 = [a, b, c, e]"
    "100 * (10 * digit_value a + digit_value b) + (10 * digit_value c + digit_value e) = y"
    by (rule read_appendInt_4 [of y]) (use year in simp_all)
  obtain f g where fm: "appendInt m 2 = [f, g]" "10 * digit_value f + digit_value g = m"
    by (rule read_appendInt_2 [of m]) (use days in simp_all)
  obtain h i where fd: "appendInt d 2 = [h, i]" "10 * digit_value h + digit_value i = d"
    by (rule read_appendInt_2 [of d]) (use days in simp_all)
  obtain j k where fh: "appendInt (r div 3600) 2 = [j, k]" "10 * digit_value j + digit_value k = r div 3600"
    by (rule read_appendInt_2 [of "r div 3600"]) (use r in simp_all)
  obtain l o' where fi: "appendInt (r mod 3600 div 60) 2 = [l, o']"
    "10 * digit_value l + digit_value o' = r mod 3600 div 60"
    by (rule read_appendInt_2 [of "r mod 3600 div 60"]) (use field_bounds [of r] in simp_all)
  obtain u v where fs: "appendInt (r mod 60) 2 = [u, v]" "10 * digit_value u + digit_value v = r mod 60"
    by (rule read_appendInt_2 [of "r mod 60"]) (use field_bounds [of r] in simp_all)
  have "Format_RFC3339 offset t = appendInt y 4 @ ''-'' @ appendInt m 2 @ ''-'' @ appendInt d 2 @ ''T'' @
      appendInt (r div 3600) 2 @ '':'' @ appendInt (r mod 3600 div 60) 2 @ '':'' @ appendInt (r mod 60) 2 @ zone_suffix offset"
    using date by (simp add: Format_RFC3339_def zone_suffix_def Let_def s_def [symmetric] n_def r_def)
  then have "read_RFC3339 (Format_RFC3339 offset t) =
      86400 * (days_of (y, m, d) - unixToInternal) + 3600 * (r div 3600) + 60 * (r mod 3600 div 60) + r mod 60 - offset"
    by (simp only: read_zone_suffix [OF assms(1,2)] RFC3339_fields [OF fy(1) fm(1) fd(1) fh(1) fi(1) fs(1)] fy(2) fm(2) fd(2) fh(2) fi(2) fs(2))
  moreover have "3600 * (r div 3600) + 60 * (r mod 3600 div 60) + r mod 60 = r"
  proof -
    have "r mod 3600 mod 60 = r mod 60" by (rule mod_mod_cancel) simp
    then show ?thesis
      using mult_div_mod_eq [of 3600 r] mult_div_mod_eq [of 60 "r mod 3600"] by (simp only: add.assoc)
  qed
  moreover have "86400 * (n - unixToInternal) + r = s" by (simp add: n_def r_def)
  ultimately show ?thesis using days by (simp add: s_def)
qed

end
