(* ===== verification/Handlers.thy ===== *)
theory Handlers
  imports Proto GoTime CoreQueue CoreSettle
begin

text \<open>
  The unary gRPC handlers of \<open>internal/handlers\<close>: read the message through its getters, check
  what the core does not, call the service, and put the job or the error on the wire. A handler is
  the record of the service it was constructed with, any implementation of the interface the Go
  handler declares; a call passes its context and a state of any type through it.
\<close>

section \<open>What goes on the wire\<close>

datatype grpc_code =
    CodeInvalidArgument | CodeNotFound | CodeAlreadyExists | CodeFailedPrecondition
  | CodeInternal | CodeCanceled | CodeDeadlineExceeded | CodeUnknown

text \<open>\<open>status.Error(code, message)\<close>, an error handed through as it is, or a panic of the handler.\<close>

datatype rpc_error =
    RpcStatus grpc_code string
  | RpcError gerr
  | RpcPanic string

fun jobStatusToProto :: "JobStatus \<Rightarrow> protogen_JobStatus" where
  "jobStatusToProto JobStatusPending = JOB_STATUS_PENDING"
| "jobStatusToProto JobStatusClaimed = JOB_STATUS_CLAIMED"
| "jobStatusToProto JobStatusSucceeded = JOB_STATUS_SUCCEEDED"
| "jobStatusToProto JobStatusFailed = JOB_STATUS_FAILED"
| "jobStatusToProto JobStatusAbandoned = JOB_STATUS_ABANDONED"
| "jobStatusToProto JobStatusCancelled = JOB_STATUS_CANCELLED"

definition derefString :: "string option \<Rightarrow> string" where
  "derefString value = (case value of None \<Rightarrow> '''' | Some s \<Rightarrow> s)"

definition formatTime :: "ext \<Rightarrow> time option \<Rightarrow> string" where
  "formatTime x value = (case value of None \<Rightarrow> '''' | Some t \<Rightarrow> Format_RFC3339 (x_zone x t) t)"

definition jobToProto :: "ext \<Rightarrow> core_Job \<Rightarrow> protogen_Job" where
  "jobToProto x job =
     \<lparr> pj_Id = x_uuid_String x (cj_ID job),
       pj_Kind = cj_Kind job,
       pj_Payload = cj_Payload job,
       pj_OwnerId = x_uuid_String x (cj_OwnerID job),
       pj_Status = jobStatusToProto (cj_Status job),
       pj_Attempt = scast (cj_Attempt job),
       pj_MaxAttempts = scast (cj_MaxAttempts job),
       pj_Result = cj_Result job,
       pj_Error = cj_Error job,
       pj_ProviderCallId = derefString (cj_ProviderCallID job),
       pj_CreatedAt = Format_RFC3339 (x_zone x (cj_CreatedAt job)) (cj_CreatedAt job),
       pj_UpdatedAt = Format_RFC3339 (x_zone x (cj_UpdatedAt job)) (cj_UpdatedAt job),
       pj_SettledAt = formatTime x (cj_SettledAt job),
       pj_ExpiresAt = formatTime x (cj_ExpiresAt job) \<rparr>"

definition mapJobError :: "gerr \<Rightarrow> rpc_error" where
  "mapJobError err =
     (if errors_Is err ErrInvalidRequest then RpcStatus CodeInvalidArgument ''invalid request''
      else if errors_Is err ErrJobNotFound then RpcStatus CodeNotFound ''job not found''
      else if errors_Is err ErrJobConflict
      then RpcStatus CodeAlreadyExists ''idempotency key reused for a different request''
      else if errors_Is err ErrJobNotClaimed
      then RpcStatus CodeFailedPrecondition ''job not claimed by this worker''
      else RpcStatus CodeInternal ''internal error'')"

lemma mapJobError_unnamed [simp]:
  "unnamed_error err \<Longrightarrow> mapJobError err = RpcStatus CodeInternal ''internal error''"
  by (simp add: mapJobError_def unnamed_error_def service_sentinels_def)

text \<open>What every handler does with the answer of its service.\<close>

definition reply :: "('a \<Rightarrow> 'b) \<Rightarrow> (gerr + 'a) \<times> 's \<Rightarrow> (rpc_error + 'b) \<times> 's" where
  "reply f out =
     (case out of
        (Inl err, s) \<Rightarrow> (Inl (mapJobError err), s)
      | (Inr v, s) \<Rightarrow> (Inr (f v), s))"

lemma reply_simps [simp]:
  "reply f (Inl err, s) = (Inl (mapJobError err), s)" "reply f (Inr v, s) = (Inr (f v), s)"
  by (simp_all add: reply_def)

lemma snd_reply [simp]: "snd (reply f out) = snd out"
  by (auto simp: reply_def split: prod.splits sum.splits)

section \<open>JobClaim\<close>

type_synonym ('c, 's) JobClaimService = "('c, core_JobClaimRequest, core_Job list, 's) exec"

record ('c, 's) handlers_JobClaim =
  hjc_service :: "('c, 's) JobClaimService"

definition handlers_NewJobClaim :: "('c, 's) JobClaimService \<Rightarrow> ('c, 's) handlers_JobClaim" where
  "handlers_NewJobClaim service = \<lparr> hjc_service = service \<rparr>"

definition handler_JobClaim ::
  "ext \<Rightarrow> ('c, 's) handlers_JobClaim \<Rightarrow> 'c \<Rightarrow>
   protogen_JobClaimRequest option \<Rightarrow> 's \<Rightarrow> (rpc_error + protogen_JobClaimResponse) \<times> 's" where
  "handler_JobClaim x handler ctx request s =
     reply (\<lambda>jobs. \<lparr> pcr_Jobs = map (jobToProto x) jobs \<rparr>)
       (hjc_service handler ctx
         \<lparr> ccr_Kinds = JobClaimRequest_GetKinds request,
           ccr_WorkerID = JobClaimRequest_GetWorkerId request,
           ccr_Limit = sint (JobClaimRequest_GetLimit request),
           ccr_LeaseSeconds = sint (JobClaimRequest_GetLeaseSeconds request) \<rparr> s)"

section \<open>JobEnqueue\<close>

text \<open>\<open>math.MaxInt16\<close> bounds the cap before it is narrowed to an \<open>int16\<close>.\<close>

type_synonym ('c, 's) JobEnqueueService = "('c, core_JobEnqueueRequest, JobEnqueueResult, 's) exec"

record ('c, 's) handlers_JobEnqueue =
  hje_service :: "('c, 's) JobEnqueueService"

definition handlers_NewJobEnqueue :: "('c, 's) JobEnqueueService \<Rightarrow> ('c, 's) handlers_JobEnqueue" where
  "handlers_NewJobEnqueue service = \<lparr> hje_service = service \<rparr>"

definition handler_JobEnqueue ::
  "ext \<Rightarrow> ('c, 's) handlers_JobEnqueue \<Rightarrow> 'c \<Rightarrow>
   protogen_JobEnqueueRequest option \<Rightarrow> 's \<Rightarrow> (rpc_error + protogen_JobEnqueueResponse) \<times> 's" where
  "handler_JobEnqueue x handler ctx request s =
     (case x_uuid_Parse x (JobEnqueueRequest_GetOwnerId request) of
        None \<Rightarrow> (Inl (RpcStatus CodeInvalidArgument ''invalid owner id''), s)
      | Some ownerID \<Rightarrow>
          if JobEnqueueRequest_GetMaxAttempts request <s 0 \<or>
             32767 <s JobEnqueueRequest_GetMaxAttempts request
          then (Inl (RpcStatus CodeInvalidArgument ''invalid max attempts''), s)
          else (case request of
              None \<Rightarrow> (Inl (RpcPanic ''nil pointer dereference''), s)
            | Some m \<Rightarrow>
                reply (\<lambda>result. \<lparr> per_Job = Some (jobToProto x (res_Job result)),
                                  per_Created = res_Created result \<rparr>)
                  (hje_service handler ctx
                    \<lparr> cer_Kind = JobEnqueueRequest_GetKind request,
                      cer_Payload = JobEnqueueRequest_GetPayload request,
                      cer_OwnerID = ownerID,
                      cer_IdempotencyKey = peq_IdempotencyKey m,
                      cer_MaxAttempts = ucast (JobEnqueueRequest_GetMaxAttempts request) \<rparr> s)))"

section \<open>JobGet\<close>

type_synonym ('c, 's) JobGetService = "('c, core_JobGetRequest, core_Job, 's) exec"

record ('c, 's) handlers_JobGet =
  hjg_service :: "('c, 's) JobGetService"

definition handlers_NewJobGet :: "('c, 's) JobGetService \<Rightarrow> ('c, 's) handlers_JobGet" where
  "handlers_NewJobGet service = \<lparr> hjg_service = service \<rparr>"

definition handler_JobGet ::
  "ext \<Rightarrow> ('c, 's) handlers_JobGet \<Rightarrow> 'c \<Rightarrow>
   protogen_JobGetRequest option \<Rightarrow> 's \<Rightarrow> (rpc_error + protogen_JobGetResponse) \<times> 's" where
  "handler_JobGet x handler ctx request s =
     (case x_uuid_Parse x (JobGetRequest_GetId request) of
        None \<Rightarrow> (Inl (RpcStatus CodeInvalidArgument ''invalid job id''), s)
      | Some jobID \<Rightarrow>
          (case x_uuid_Parse x (JobGetRequest_GetOwnerId request) of
             None \<Rightarrow> (Inl (RpcStatus CodeInvalidArgument ''invalid owner id''), s)
           | Some ownerID \<Rightarrow>
               reply (\<lambda>job. \<lparr> pgr_Job = Some (jobToProto x job) \<rparr>)
                 (hjg_service handler ctx \<lparr> cgr_ID = jobID, cgr_OwnerID = ownerID \<rparr> s)))"

section \<open>JobSettle\<close>

text \<open>An outcome that is not a failure is a success, also when the oneof is not set at all.\<close>

definition settle_outcome :: "protogen_JobSettleRequest option \<Rightarrow> rawmsg \<times> JobFailure option" where
  "settle_outcome request =
     (let failure = JobSettleRequest_GetFailure request in
      if failure \<noteq> None
      then (None, Some \<lparr> fl_Error = JobFailure_GetError failure,
                         fl_Retryable = JobFailure_GetRetryable failure \<rparr>)
      else (JobSettleRequest_GetResult request, None))"

type_synonym ('c, 's) JobSettleService = "('c, core_JobSettleRequest, core_Job, 's) exec"

record ('c, 's) handlers_JobSettle =
  hjs_service :: "('c, 's) JobSettleService"

definition handlers_NewJobSettle :: "('c, 's) JobSettleService \<Rightarrow> ('c, 's) handlers_JobSettle" where
  "handlers_NewJobSettle service = \<lparr> hjs_service = service \<rparr>"

definition handler_JobSettle ::
  "ext \<Rightarrow> ('c, 's) handlers_JobSettle \<Rightarrow> 'c \<Rightarrow>
   protogen_JobSettleRequest option \<Rightarrow> 's \<Rightarrow> (rpc_error + protogen_JobSettleResponse) \<times> 's" where
  "handler_JobSettle x handler ctx request s =
     (case x_uuid_Parse x (JobSettleRequest_GetId request) of
        None \<Rightarrow> (Inl (RpcStatus CodeInvalidArgument ''invalid job id''), s)
      | Some jobID \<Rightarrow>
          reply (\<lambda>job. \<lparr> psr_Job = Some (jobToProto x job) \<rparr>)
            (hjs_service handler ctx
              \<lparr> csr_ID = jobID, csr_WorkerID = JobSettleRequest_GetWorkerId request,
                csr_Result = fst (settle_outcome request),
                csr_Failure = snd (settle_outcome request) \<rparr> s))"

section \<open>The handlers as \<open>cmd/grpc/main.go\<close> wires them\<close>

definition grpc_JobClaim ::
  "ext \<Rightarrow> stmt \<Rightarrow> protogen_JobClaimRequest option \<Rightarrow> table \<Rightarrow> (rpc_error + protogen_JobClaimResponse) \<times> table" where
  "grpc_JobClaim x e = handler_JobClaim x (handlers_NewJobClaim (JobClaim_Exec x)) e"

definition grpc_JobEnqueue ::
  "ext \<Rightarrow> stmt \<Rightarrow> uuid option \<Rightarrow> protogen_JobEnqueueRequest option \<Rightarrow> table \<Rightarrow>
     (rpc_error + protogen_JobEnqueueResponse) \<times> table" where
  "grpc_JobEnqueue x e newV7 = handler_JobEnqueue x (handlers_NewJobEnqueue (\<lambda>e. JobEnqueue_Exec x e newV7)) e"

definition grpc_JobGet ::
  "ext \<Rightarrow> stmt \<Rightarrow> protogen_JobGetRequest option \<Rightarrow> table \<Rightarrow> (rpc_error + protogen_JobGetResponse) \<times> table" where
  "grpc_JobGet x e = handler_JobGet x (handlers_NewJobGet (JobGet_Exec x)) e"

definition grpc_JobSettle ::
  "ext \<Rightarrow> txn \<Rightarrow> stmt \<Rightarrow> stmt \<Rightarrow> int \<Rightarrow> protogen_JobSettleRequest option \<Rightarrow> table \<Rightarrow>
     (rpc_error + protogen_JobSettleResponse) \<times> table" where
  "grpc_JobSettle x tx e1 e2 days =
     handler_JobSettle x
       (handlers_NewJobSettle (\<lambda>cx. JobSettle_Exec x (tc_txn cx) (tc_first cx) (tc_second cx) days))
       \<lparr> tc_txn = tx, tc_first = e1, tc_second = e2 \<rparr>"

text \<open>Their services, for the simplifier.\<close>

lemma handler_services [simp]:
  "hjc_service (handlers_NewJobClaim claim) = claim" "hje_service (handlers_NewJobEnqueue enqueue) = enqueue"
  "hjg_service (handlers_NewJobGet get) = get" "hjs_service (handlers_NewJobSettle settle) = settle"
  by (simp_all add: handlers_NewJobClaim_def handlers_NewJobEnqueue_def handlers_NewJobGet_def
      handlers_NewJobSettle_def)

end
