(* ===== verification/HandlerSpec.thy ===== *)
theory HandlerSpec
  imports Handlers SettleSpec EnqueueSpec RetryRace
begin

text \<open>
  The contract of the wire: what a caller can read off a job, which errors it can see, and what
  the handlers let through to the core.
\<close>

section \<open>The wire form of a job\<close>

lemma scast_int16 [simp]: "sint (scast (a :: int16) :: int32) = sint a"
proof -
  have "- (2 ^ 31) \<le> sint a" "sint a < 2 ^ 31" using sint16_range [of a] by simp_all
  then show ?thesis by (simp add: signed_scast_eq signed_take_bit_int_eq_self_iff)
qed

lemma jobStatusToProto_eq_iff: "jobStatusToProto a = jobStatusToProto b \<longleftrightarrow> a = b"
  by (cases a; cases b) (simp_all add: job_status_values)

text \<open>
  A point in time the wire can carry to its second: the local zone is some whole number of minutes
  from UTC, and the year there has four digits.
\<close>

definition datable :: "ext \<Rightarrow> time \<Rightarrow> bool" where
  "datable x t \<longleftrightarrow> x_zone x t mod 60 = 0 \<and> \<bar>x_zone x t\<bar> < 360000 \<and>
     0 \<le> t div 1000000 + x_zone x t \<and> t div 1000000 + x_zone x t < 253402300800"

lemma Format_RFC3339_nonempty: "Format_RFC3339 offset t \<noteq> ''''"
  unfolding Format_RFC3339_def Let_def case_prod_beta append_is_Nil_conv by blast

definition times_of :: "core_Job \<Rightarrow> time set" where
  "times_of job = {cj_CreatedAt job, cj_UpdatedAt job} \<union> set_option (cj_SettledAt job) \<union> set_option (cj_ExpiresAt job)"

text \<open>An optional timestamp on the wire: the empty text exactly if there is none, and else its second.\<close>

definition reads_back :: "string \<Rightarrow> time option \<Rightarrow> bool" where
  "reads_back s at =
     (case at of None \<Rightarrow> s = '''' | Some t \<Rightarrow> s \<noteq> '''' \<and> read_RFC3339 s = t div 1000000)"

lemma formatTime_reads_back:
  "(\<And>t. at = Some t \<Longrightarrow> datable x t) \<Longrightarrow> reads_back (formatTime x at) at"
  by (cases at)
    (simp_all add: formatTime_def reads_back_def datable_def read_Format_RFC3339 Format_RFC3339_nonempty)

text \<open>
  C36: nothing a caller needs is lost in the message of a job. From it its identifier and
  owner parse back, kind, payload, result and error are the stored bytes, the provider's call
  identifier is the stored one or empty if there is none, the status is the named value of exactly
  that status and never the unspecified one, and the two attempt counts keep their value through the
  widening. Each of the four timestamps reads back to its second, the two optional ones being empty
  exactly if they are not set, as long as the server's zone is a whole number of minutes from UTC and
  the years have four digits.
\<close>

theorem job_survives_the_wire:
  assumes "uuid_documented x" "\<forall>t\<in>times_of job. datable x t"
  shows "x_uuid_Parse x (Job_GetId (Some (jobToProto x job))) = Some (cj_ID job) \<and>
    x_uuid_Parse x (Job_GetOwnerId (Some (jobToProto x job))) = Some (cj_OwnerID job) \<and>
    Job_GetKind (Some (jobToProto x job)) = cj_Kind job \<and>
    Job_GetPayload (Some (jobToProto x job)) = cj_Payload job \<and>
    Job_GetResult (Some (jobToProto x job)) = cj_Result job \<and>
    Job_GetError (Some (jobToProto x job)) = cj_Error job \<and>
    Job_GetProviderCallId (Some (jobToProto x job)) = (case cj_ProviderCallID job of None \<Rightarrow> '''' | Some s \<Rightarrow> s) \<and>
    Job_GetStatus (Some (jobToProto x job)) \<noteq> JOB_STATUS_UNSPECIFIED \<and>
    Job_GetStatus (Some (jobToProto x job)) \<in> dom JobStatus_name \<and>
    (\<forall>s. Job_GetStatus (Some (jobToProto x job)) = jobStatusToProto s \<longleftrightarrow> s = cj_Status job) \<and>
    sint (Job_GetAttempt (Some (jobToProto x job))) = sint (cj_Attempt job) \<and>
    sint (Job_GetMaxAttempts (Some (jobToProto x job))) = sint (cj_MaxAttempts job) \<and>
    reads_back (Job_GetCreatedAt (Some (jobToProto x job))) (Some (cj_CreatedAt job)) \<and>
    reads_back (Job_GetUpdatedAt (Some (jobToProto x job))) (Some (cj_UpdatedAt job)) \<and>
    reads_back (Job_GetSettledAt (Some (jobToProto x job))) (cj_SettledAt job) \<and>
    reads_back (Job_GetExpiresAt (Some (jobToProto x job))) (cj_ExpiresAt job)"
proof -
  have "jobStatusToProto s \<noteq> JOB_STATUS_UNSPECIFIED \<and> jobStatusToProto s \<in> dom JobStatus_name" for s
    by (cases s) (simp_all add: job_status_values JobStatus_name_def dom_def)
  moreover have "jobStatusToProto (cj_Status job) = jobStatusToProto s \<longleftrightarrow> s = cj_Status job" for s
    using jobStatusToProto_eq_iff by metis
  moreover have "reads_back (formatTime x (Some (cj_CreatedAt job))) (Some (cj_CreatedAt job))"
    "reads_back (formatTime x (Some (cj_UpdatedAt job))) (Some (cj_UpdatedAt job))"
    "reads_back (formatTime x (cj_SettledAt job)) (cj_SettledAt job)"
    "reads_back (formatTime x (cj_ExpiresAt job)) (cj_ExpiresAt job)"
    using assms(2) by (auto simp: times_of_def intro!: formatTime_reads_back)
  ultimately show ?thesis
    using assms(1)
    by (simp add: jobToProto_def Job_GetId_def Job_GetOwnerId_def Job_GetKind_def Job_GetPayload_def
        Job_GetResult_def Job_GetError_def Job_GetStatus_def Job_GetAttempt_def Job_GetMaxAttempts_def
        Job_GetProviderCallId_def Job_GetCreatedAt_def Job_GetUpdatedAt_def Job_GetSettledAt_def
        Job_GetExpiresAt_def derefString_def formatTime_def)
qed

text \<open>The witness: the settled job of the story, whose retention ends a week after the epoch.\<close>

lemma job_survives_the_wire_witness:
  "read_RFC3339 (Job_GetExpiresAt (Some (jobToProto ext0 (jobToCore row_succeeded)))) = 604800 \<and>
   x_uuid_Parse ext0 (Job_GetId (Some (jobToProto ext0 (jobToCore row_succeeded)))) = Some 1"
proof -
  have "times_of (jobToCore row_succeeded) = {10, 50, 604800000050}" "cj_ExpiresAt (jobToCore row_succeeded) = Some 604800000050"
    by (auto simp: times_of_def story_rows)
  moreover have "x_zone ext0 t = 0" for t by (simp add: ext0_def)
  ultimately show ?thesis
    using job_survives_the_wire [OF ext0_uuid, of "jobToCore row_succeeded"]
    by (simp add: datable_def reads_back_def)
qed

section \<open>The errors a caller can see\<close>

definition public_errors :: "rpc_error list" where
  "public_errors =
     [RpcStatus CodeInvalidArgument ''invalid request'',
      RpcStatus CodeNotFound ''job not found'',
      RpcStatus CodeAlreadyExists ''idempotency key reused for a different request'',
      RpcStatus CodeFailedPrecondition ''job not claimed by this worker'',
      RpcStatus CodeInternal ''internal error'',
      RpcStatus CodeInvalidArgument ''invalid owner id'',
      RpcStatus CodeInvalidArgument ''invalid max attempts'',
      RpcStatus CodeInvalidArgument ''invalid job id'']"

lemma mapJobError_public: "mapJobError err \<in> set public_errors"
  by (simp add: mapJobError_def public_errors_def)

lemma reply_public: "fst (reply f out) = Inl err \<Longrightarrow> err \<in> set public_errors"
  using mapJobError_public by (auto simp: reply_def split: prod.splits sum.splits)

text \<open>
  No detail of a failure leaves a handler. Whatever the service behind a handler answers,
  and whatever message the caller sends, the error a unary RPC returns is one of eight fixed
  statuses; the text of the underlying error (a query, a host, a key) is in none of them.
\<close>

theorem errors_carry_no_detail:
  "(fst (handler_JobClaim x claim ctx1 request1 s1) = Inl err \<longrightarrow> err \<in> set public_errors) \<and>
   (fst (handler_JobEnqueue x enqueue ctx2 (Some request2) s2) = Inl err \<longrightarrow> err \<in> set public_errors) \<and>
   (fst (handler_JobGet x get ctx3 request3 s3) = Inl err \<longrightarrow> err \<in> set public_errors) \<and>
   (fst (handler_JobSettle x settle ctx4 request4 s4) = Inl err \<longrightarrow> err \<in> set public_errors)"
  unfolding handler_JobClaim_def handler_JobEnqueue_def handler_JobGet_def handler_JobSettle_def
  by (auto dest!: reply_public split: option.splits if_splits) (auto simp: public_errors_def)

lemma errors_carry_no_detail_witness:
  "fst (handler_JobClaim ext0 (handlers_NewJobClaim (\<lambda>_ _ s. (Inl (Sentinel DriverFailure), s))) () None ()) =
     Inl (RpcStatus CodeInternal ''internal error'') \<and>
   RpcStatus CodeInternal ''internal error'' \<in> set public_errors"
proof -
  have f: "fst (handler_JobClaim ext0 (handlers_NewJobClaim (\<lambda>_ _ s. (Inl (Sentinel DriverFailure), s))) () None ()) =
      Inl (RpcStatus CodeInternal ''internal error'')"
    by (simp add: handler_JobClaim_def)
  show ?thesis
    using errors_carry_no_detail [where x = ext0 and ?request1.0 = None and ?s1.0 = "()" and ?ctx1.0 = "()"
        and claim = "handlers_NewJobClaim (\<lambda>_ _ s. (Inl (Sentinel DriverFailure), s))"
        and err = "RpcStatus CodeInternal ''internal error''", THEN conjunct1] f
    by blast
qed

section \<open>Enqueue\<close>

text \<open>The narrowing of the cap is exact inside the range the handler lets through.\<close>

lemma ucast_int32_int16:
  assumes "0 \<le> sint (v :: int32)" "sint v \<le> 32767"
  shows "sint (ucast v :: int16) = sint v"
proof -
  have "take_bit 32 (sint v) = sint v" using assms by (simp add: take_bit_int_eq_self_iff)
  then have "uint v = sint v" by (simp add: uint_sint)
  moreover have "signed_take_bit 15 (sint v) = sint v"
    using assms by (simp add: signed_take_bit_int_eq_self_iff)
  ultimately show ?thesis by (simp add: signed_ucast_eq)
qed

text \<open>
  An attempt cap is taken at its value or refused, never truncated. A cap outside the range of
  the column is an invalid argument before the service is called, and leaves no trace; inside it,
  the service gets exactly the number that was on the wire.
\<close>

lemma cap_is_exact_or_refused:
  assumes "x_uuid_Parse x (peq_OwnerId m) = Some owner"
  shows "if sint (peq_MaxAttempts m) < 0 \<or> 32767 < sint (peq_MaxAttempts m)
    then handler_JobEnqueue x handler ctx (Some m) s =
      (Inl (RpcStatus CodeInvalidArgument ''invalid max attempts''), s)
    else \<exists>cap. sint cap = sint (peq_MaxAttempts m) \<and>
      handler_JobEnqueue x handler ctx (Some m) s =
        reply (\<lambda>result. \<lparr> per_Job = Some (jobToProto x (res_Job result)), per_Created = res_Created result \<rparr>)
          (hje_service handler ctx
            \<lparr> cer_Kind = peq_Kind m, cer_Payload = peq_Payload m, cer_OwnerID = owner,
              cer_IdempotencyKey = peq_IdempotencyKey m, cer_MaxAttempts = cap \<rparr> s)"
proof (cases "sint (peq_MaxAttempts m) < 0 \<or> 32767 < sint (peq_MaxAttempts m)")
  case True
  then show ?thesis using assms by (simp add: handler_JobEnqueue_def request_getters sless_sint)
next
  case False
  then have "sint (ucast (peq_MaxAttempts m) :: int16) = sint (peq_MaxAttempts m)"
    by (intro ucast_int32_int16) simp_all
  then show ?thesis
    using False assms by (auto simp: handler_JobEnqueue_def request_getters sless_sint)
qed

text \<open>The witness: a service that counts its calls is not called.\<close>

lemma cap_is_exact_or_refused_witness:
  "handler_JobEnqueue ext0 (handlers_NewJobEnqueue (\<lambda>_ _ n. (Inl (Sentinel DriverFailure), Suc n))) ()
     (Some \<lparr> peq_Kind = ''k'', peq_Payload = None, peq_OwnerId = ''x'', peq_IdempotencyKey = None,
             peq_MaxAttempts = 65537 \<rparr>) 0 =
   (Inl (RpcStatus CodeInvalidArgument ''invalid max attempts''), 0)"
  using cap_is_exact_or_refused [of ext0 "\<lparr> peq_Kind = ''k'', peq_Payload = None, peq_OwnerId = ''x'',
      peq_IdempotencyKey = None, peq_MaxAttempts = 65537 \<rparr>" 1 "handlers_NewJobEnqueue (\<lambda>_ _ n. (Inl (Sentinel DriverFailure), Suc n))" "()" 0]
  by (simp add: ext0_parse)

section \<open>Settle\<close>

text \<open>
  A settle that sets neither outcome counts as a success. The wire contract says exactly one
  arm is set; a message with none is not refused: for the worker that holds the job it records
  success with no result at all.
\<close>

theorem unset_outcome_is_success:
  assumes "table_wf t" "validator_documented x" "undisturbed e1" "json_documented x"
    and "x_uuid_Parse x (psq_Id m) = Some u" "u \<noteq> 0" "psq_WorkerId m \<noteq> ''''"
    and "held_job t u (psq_WorkerId m) = Some r" "psq_Outcome m = OutcomeUnset"
  shows "grpc_JobSettle x tx e1 e2 days (Some m) t =
    (Inr \<lparr> psr_Job = Some (jobToProto x (jobToCore (settle_row e1 JobStatusSucceeded None None days r))) \<rparr>,
     update_rows (\<lambda>s. job_ID s = u) (settle_row e1 JobStatusSucceeded None None days) t)"
proof -
  let ?q = "\<lparr> csr_ID = u, csr_WorkerID = psq_WorkerId m, csr_Result = None, csr_Failure = None \<rparr>"
  have out: "settle_outcome (Some m) = (None, None)"
    using assms(9) by (simp add: settle_outcome_def request_getters)
  have "valid_settle x ?q" using assms(2,6,7) by (simp add: valid_settle_def)
  then have "JobSettle_Exec x tx e1 e2 days ?q t =
      (Inr (jobToCore (settle_row e1 JobStatusSucceeded None None days r)),
       update_rows (\<lambda>s. job_ID s = u) (settle_row e1 JobStatusSucceeded None None days) t)"
    using JobSettle_settle_held [of t e1 x JobStatusSucceeded ?q r None None None None days] assms(1,3,4,8)
    by (simp add: JobSettle_Exec_eq)
  then show ?thesis
    using assms(5) out by (simp add: grpc_JobSettle_def handler_JobSettle_def request_getters)
qed

lemma unset_outcome_is_success_witness:
  "\<exists>j. grpc_JobSettle ext0 txn_alone (stmt_at 50) (stmt_at 50) 7
       (Some \<lparr> psq_Id = ''x'', psq_WorkerId = ''w'', psq_Outcome = OutcomeUnset \<rparr>) [row_last] =
     (Inr \<lparr> psr_Job = Some j \<rparr>, [settle_row (stmt_at 50) JobStatusSucceeded None None 7 row_last]) \<and>
     pj_Status j = JOB_STATUS_SUCCEEDED \<and> pj_Result j = None"
  using unset_outcome_is_success [of "[row_last]" ext0 "stmt_at 50"
      "\<lparr> psq_Id = ''x'', psq_WorkerId = ''w'', psq_Outcome = OutcomeUnset \<rparr>" 1 row_last txn_alone "stmt_at 50" 7]
  by (simp add: ext0_parse update_rows_def jobToProto_def row_simps)

text \<open>
  C40: what a worker that no longer holds its job is told depends on when it lost it. If it had
  lost it before the call, the status is failed precondition, which tells the worker to drop the
  work. If the sweep came between the two statements of a retryable failure, it is an internal
  error. The table ends the same, and in the second case the claim is just as lost.
\<close>

theorem lost_claim_has_two_statuses:
  assumes "table_wf t" "table_wf t'" "valid_settle x request" "undisturbed e1" "undisturbed e2"
    and "json_documented x" "tx_begins tx" "tx_between tx t = t'"
    and "held_job t (csr_ID request) (csr_WorkerID request) = Some r"
    and "held_job t' (csr_ID request) (csr_WorkerID request) = None"
    and "csr_Failure request = Some f" "fl_Retryable f" "x_json_arg x (fl_Error f) \<noteq> None"
  shows "reply g (JobSettle_Exec x tx e1 e2 days request t) =
      (Inl (RpcStatus CodeInternal ''internal error''), t') \<and>
    reply g (JobSettle_Exec x tx e1 e2 days request t') =
      (Inl (RpcStatus CodeFailedPrecondition ''job not claimed by this worker''), t')"
proof
  obtain err where "JobSettle_Exec x tx e1 e2 days request t = (Inl err, t')" "unnamed_error err"
    using JobSettle_Exec_stale [of t x request e1 e2 tx r f days] assms by auto
  then show "reply g (JobSettle_Exec x tx e1 e2 days request t) =
      (Inl (RpcStatus CodeInternal ''internal error''), t')" by simp
  have "JobSettle_Exec x tx e1 e2 days request t' =
      (Inl (if find_job t' (csr_ID request) = None
            then Joined [Wrapf ''execute query''
                   (Joined [Sentinel SqlErrNoRows, Sentinel DaoErrJobGetByIDNotFound]), Sentinel ErrJobNotClaimed]
            else Sentinel ErrJobNotClaimed), t')"
    using assms(3,7,10-12)
    by (simp add: JobSettle_Exec_eq JobSettle_retry_def WithinTx_def retry_body_def
        retry_read_delivered [OF assms(2,4)])
  then show "reply g (JobSettle_Exec x tx e1 e2 days request t') =
      (Inl (RpcStatus CodeFailedPrecondition ''job not claimed by this worker''), t')"
    by (simp add: mapJobError_def)
qed

lemma lost_claim_has_two_statuses_witness:
  "fst (reply id (JobSettle_Exec ext0 tx_swept (stmt_at 30) (stmt_at 30000050) 7 (story_failure True) [row_claimed])) =
     Inl (RpcStatus CodeInternal ''internal error'') \<and>
   fst (reply id (JobSettle_Exec ext0 tx_swept (stmt_at 30) (stmt_at 30000050) 7 (story_failure True) [row_recovered])) =
     Inl (RpcStatus CodeFailedPrecondition ''job not claimed by this worker'')"
  using lost_claim_has_two_statuses [of "[row_claimed]" "[row_recovered]" ext0 "story_failure True" "stmt_at 30"
      "stmt_at 30000050" tx_swept row_claimed "\<lparr> fl_Error = Some [0x32], fl_Retryable = True \<rparr>" id 7]
  by simp

end
