(* ===== verification/Watch.thy ===== *)
theory Watch
  imports Handlers Leases
begin

text \<open>
  \<open>internal/handlers/grpc.jobWatch.go\<close>: a stream that polls the owner-scoped read, sends the job
  when its status differs from the last one sent, and ends on a terminal status. One record per
  turn of the loop says what the outside does in it: what the read answers, whether the stream
  takes the message, and whether the context is done or the ticker fires.
\<close>

section \<open>The handler\<close>

datatype ctx_err = ContextCanceled | ContextDeadlineExceeded

text \<open>\<open>status.FromContextError(err).Err()\<close>\<close>

fun FromContextError :: "ctx_err \<Rightarrow> rpc_error" where
  "FromContextError ContextCanceled = RpcStatus CodeCanceled ''context canceled''"
| "FromContextError ContextDeadlineExceeded =
     RpcStatus CodeDeadlineExceeded ''context deadline exceeded''"

record turn =
  tn_service :: "core_JobGetRequest \<Rightarrow> gerr + core_Job"
  tn_send :: "gerr option"
  tn_done :: "ctx_err option"

datatype watch_end = Watching | WatchOK | WatchErr rpc_error

fun isTerminalStatus :: "JobStatus \<Rightarrow> bool" where
  "isTerminalStatus JobStatusSucceeded = True"
| "isTerminalStatus JobStatusFailed = True"
| "isTerminalStatus JobStatusAbandoned = True"
| "isTerminalStatus JobStatusCancelled = True"
| "isTerminalStatus _ = False"

text \<open>
  \<open>prev\<close> is the pair of variables \<open>sent\<close> and \<open>lastStatus\<close>: \<^term>\<open>None\<close> until something was sent.
  \<^const>\<open>Watching\<close> means that the turns given are used up and the loop goes on.
\<close>

fun watch_loop ::
  "ext \<Rightarrow> core_JobGetRequest \<Rightarrow> JobStatus option \<Rightarrow> turn list \<Rightarrow> protogen_JobWatchResponse list \<times> watch_end" where
  "watch_loop x getRequest prev [] = ([], Watching)"
| "watch_loop x getRequest prev (turn # turns) =
     (case tn_service turn getRequest of
        Inl err \<Rightarrow> ([], WatchErr (mapJobError err))
      | Inr job \<Rightarrow>
          let changed = (prev = None \<or> prev \<noteq> Some (cj_Status job)) in
          (case (if changed then tn_send turn else None) of
             Some err \<Rightarrow> ([], WatchErr (RpcError err))
           | None \<Rightarrow>
               let out = (if changed then [\<lparr> pwr_Job = Some (jobToProto x job) \<rparr>] else []);
                   prev' = (if changed then Some (cj_Status job) else prev) in
               if isTerminalStatus (cj_Status job) then (out, WatchOK)
               else (case tn_done turn of
                   Some cause \<Rightarrow> (out, WatchErr (FromContextError cause))
                 | None \<Rightarrow>
                     let (rest, stop) = watch_loop x getRequest prev' turns in (out @ rest, stop))))"

definition handler_JobWatch ::
  "ext \<Rightarrow> protogen_JobWatchRequest option \<Rightarrow> turn list \<Rightarrow> protogen_JobWatchResponse list \<times> watch_end" where
  "handler_JobWatch x request turns =
     (case x_uuid_Parse x (JobWatchRequest_GetId request) of
        None \<Rightarrow> ([], WatchErr (RpcStatus CodeInvalidArgument ''invalid job id''))
      | Some jobID \<Rightarrow>
          (case x_uuid_Parse x (JobWatchRequest_GetOwnerId request) of
             None \<Rightarrow> ([], WatchErr (RpcStatus CodeInvalidArgument ''invalid owner id''))
           | Some ownerID \<Rightarrow> watch_loop x \<lparr> cgr_ID = jobID, cgr_OwnerID = ownerID \<rparr> None turns))"

text \<open>
  The handler as constructed: a service and an interval. What a poll meets is the context and the
  state its read runs on, the answer of the stream, and what the \<open>select\<close> picks.
\<close>

type_synonym ('c, 's) JobWatchService = "('c, core_JobGetRequest, core_Job, 's) exec"

record ('c, 's) handlers_JobWatch =
  hjw_service :: "('c, 's) JobWatchService"
  hjw_pollInterval :: int64

definition handlers_NewJobWatch :: "('c, 's) JobWatchService \<Rightarrow> int64 \<Rightarrow> ('c, 's) handlers_JobWatch" where
  "handlers_NewJobWatch service pollInterval =
     \<lparr> hjw_service = service, hjw_pollInterval = pollInterval \<rparr>"

record ('c, 's) poll =
  po_ctx :: 'c
  po_state :: 's
  po_send :: "gerr option"
  po_done :: "ctx_err option"

definition poll_turn :: "('c, 's) handlers_JobWatch \<Rightarrow> ('c, 's) poll \<Rightarrow> turn" where
  "poll_turn handler po =
     \<lparr> tn_service = (\<lambda>request. fst (hjw_service handler (po_ctx po) request (po_state po))),
       tn_send = po_send po, tn_done = po_done po \<rparr>"

definition grpc_JobWatch ::
  "ext \<Rightarrow> ('c, 's) handlers_JobWatch \<Rightarrow> ('c, 's) poll list \<Rightarrow> protogen_JobWatchRequest option \<Rightarrow>
     protogen_JobWatchResponse list \<times> watch_end" where
  "grpc_JobWatch x handler polls request = handler_JobWatch x request (map (poll_turn handler) polls)"

lemma isTerminalStatus_sql: "isTerminalStatus s = sql_terminal s"
  by (cases s) simp_all

section \<open>A caller that keeps listening\<close>

text \<open>A turn in which the read answers and nothing goes wrong.\<close>

definition quiet :: "core_Job \<Rightarrow> turn" where
  "quiet job = \<lparr> tn_service = (\<lambda>_. Inr job), tn_send = None, tn_done = None \<rparr>"

lemma quiet_simps [simp]:
  "tn_service (quiet job) r = Inr job" "tn_send (quiet job) = None" "tn_done (quiet job) = None"
  by (simp_all add: quiet_def)

text \<open>The jobs read up to and including the first settled one.\<close>

fun until_settled :: "core_Job list \<Rightarrow> core_Job list" where
  "until_settled [] = []"
| "until_settled (job # jobs) =
     (if sql_terminal (cj_Status job) then [job] else job # until_settled jobs)"

text \<open>The first job read in each stretch of one status.\<close>

fun status_changes :: "JobStatus option \<Rightarrow> core_Job list \<Rightarrow> core_Job list" where
  "status_changes prev [] = []"
| "status_changes prev (job # jobs) =
     (if prev = Some (cj_Status job) then status_changes prev jobs
      else job # status_changes (Some (cj_Status job)) jobs)"

lemma watch_loop_quiet:
  "watch_loop x request prev (map quiet jobs) =
     (map (\<lambda>job. \<lparr> pwr_Job = Some (jobToProto x job) \<rparr>) (status_changes prev (until_settled jobs)),
      if \<exists>job\<in>set jobs. sql_terminal (cj_Status job) then WatchOK else Watching)"
  by (induction jobs arbitrary: prev) (auto simp: isTerminalStatus_sql Let_def split: prod.splits)

lemma status_changes_head:
  "status_changes (Some s) jobs = job # rest \<Longrightarrow> cj_Status job \<noteq> s"
  by (induction jobs) (auto split: if_splits)

lemma status_changes_distinct_adj: "distinct_adj (map cj_Status (status_changes prev jobs))"
proof (induction jobs arbitrary: prev)
  case (Cons job jobs)
  show ?case
    using Cons.IH [of "Some (cj_Status job)"] Cons.IH [of prev]
      status_changes_head [of "cj_Status job" jobs]
    by (cases "status_changes (Some (cj_Status job)) jobs") (auto simp: distinct_adj_Cons)
qed simp

text \<open>What was sent last, or was sent before, is the status read last.\<close>

definition last_status :: "JobStatus option \<Rightarrow> core_Job list \<Rightarrow> JobStatus option" where
  "last_status prev sent = (if sent = [] then prev else Some (cj_Status (last sent)))"

lemma last_status_Cons: "last_status prev (job # sent) = last_status (Some (cj_Status job)) sent"
  by (simp add: last_status_def)

lemma status_changes_last: "last_status prev (status_changes prev jobs) = last_status prev jobs"
  by (induction jobs arbitrary: prev) (simp_all add: last_status_Cons)

lemma status_changes_subset: "set (status_changes prev jobs) \<subseteq> set jobs"
  by (induction jobs arbitrary: prev) auto

section \<open>What a watched job promises\<close>

text \<open>
  The interface the loop relies on: a feed of reads of one job. It is always the same job, its
  attempt count never falls, when it is terminal it does not change any more, and once it is gone it
  does not come back.
\<close>

locale job_feed =
  fixes feed :: "nat \<Rightarrow> core_Job option"
  assumes feed_evolves: "i \<le> j \<Longrightarrow> feed i = Some a \<Longrightarrow> feed j = Some b \<Longrightarrow>
    cj_ID b = cj_ID a \<and> sint (cj_Attempt a) \<le> sint (cj_Attempt b) \<and> (sql_terminal (cj_Status a) \<longrightarrow> b = a)"
    and feed_gone: "i \<le> j \<Longrightarrow> j \<le> k \<Longrightarrow> feed i = Some a \<Longrightarrow> feed k = Some b \<Longrightarrow> feed j \<noteq> None"
begin

definition read_at :: "nat \<Rightarrow> core_Job" where
  "read_at i = the (feed i)"

lemma read_at_known: "feed 0 = Some a \<Longrightarrow> feed n = Some b \<Longrightarrow> i \<le> n \<Longrightarrow> feed i = Some (read_at i)"
  using feed_gone [of 0 i n a b] by (auto simp: read_at_def)

lemma read_at_same: "feed 0 = Some a \<Longrightarrow> feed n = Some b \<Longrightarrow> i \<le> n \<Longrightarrow> cj_ID (read_at i) = cj_ID a"
  using feed_evolves [of 0 i a "read_at i"] read_at_known by blast

lemma read_at_final:
  assumes "feed 0 = Some a" "feed n = Some b" "i \<le> j" "j \<le> n" "sql_terminal (cj_Status (read_at i))"
  shows "read_at j = read_at i"
  using feed_evolves [OF assms(3) read_at_known [OF assms(1,2)] read_at_known [OF assms(1,2,4)]] assms(3-5) by simp

lemma until_settled_prefix:
  "(\<And>i. i < n \<Longrightarrow> \<not> sql_terminal (cj_Status (f i))) \<Longrightarrow>
     until_settled (map f [0..<n] @ jobs) = map f [0..<n] @ until_settled jobs"
  by (induction n arbitrary: jobs) simp_all

text \<open>The first settled read is the job's final state.\<close>

lemma settles_once:
  assumes "feed 0 = Some a" "feed n = Some b" "sql_terminal (cj_Status (read_at n))"
  obtains m where "m \<le> n" "sql_terminal (cj_Status (read_at m))"
    "\<And>i. i < m \<Longrightarrow> \<not> sql_terminal (cj_Status (read_at i))" "read_at m = read_at n"
proof -
  define m where "m = (LEAST i. sql_terminal (cj_Status (read_at i)))"
  have m: "sql_terminal (cj_Status (read_at m))" "m \<le> n"
    unfolding m_def using assms(3) by (auto intro: LeastI Least_le)
  moreover have "\<not> sql_terminal (cj_Status (read_at i))" if "i < m" for i
    using that not_less_Least unfolding m_def by blast
  moreover have "read_at m = read_at n" using read_at_final [OF assms(1,2) m(2) order_refl m(1)] by simp
  ultimately show ?thesis using that by blast
qed

lemma reads_until_settled:
  assumes "m \<le> n" "sql_terminal (cj_Status (read_at m))"
    and "\<And>i. i < m \<Longrightarrow> \<not> sql_terminal (cj_Status (read_at i))"
  shows "until_settled (map read_at [0..<Suc n]) = map read_at [0..<Suc m]"
proof -
  have "[0..<Suc n] = [0..<m] @ m # [Suc m..<Suc n]"
    using assms(1) upt_add_eq_append [of 0 m "Suc n - m"] upt_conv_Cons [of m "Suc n"] by (simp del: upt_Suc)
  then have "until_settled (map read_at [0..<Suc n]) =
      map read_at [0..<m] @ until_settled (read_at m # map read_at [Suc m..<Suc n])"
    using until_settled_prefix [of m read_at] assms(3) by (simp del: until_settled.simps)
  then show ?thesis using assms(2) by simp
qed

lemma watch_ends_final:
  assumes "feed 0 = Some a" "feed n = Some b" "sql_terminal (cj_Status b)"
  shows "\<exists>sent. watch_loop x request None (map quiet (map read_at [0..<Suc n])) =
      (map (\<lambda>job. \<lparr> pwr_Job = Some (jobToProto x job) \<rparr>) sent, WatchOK) \<and>
    sent \<noteq> [] \<and> last sent = b \<and> distinct_adj (map cj_Status sent) \<and>
    list_all (\<lambda>job. cj_ID job = cj_ID a) sent"
proof -
  have b: "read_at n = b" using assms(2) by (simp add: read_at_def)
  obtain m where m: "m \<le> n" "sql_terminal (cj_Status (read_at m))"
    "\<And>i. i < m \<Longrightarrow> \<not> sql_terminal (cj_Status (read_at i))" "read_at m = read_at n"
    by (rule settles_once [OF assms(1,2)]) (use assms(3) b in blast)+
  let ?reads = "map read_at [0..<Suc m]" and ?sent = "status_changes None (map read_at [0..<Suc m])"
  note until = reads_until_settled [OF m(1-3)]
  have ne: "?sent \<noteq> []" by (simp add: upt_conv_Cons del: upt_Suc)
  have "last_status None ?sent = last_status None ?reads" by (rule status_changes_last)
  then have ends: "cj_Status (last ?sent) = cj_Status (last ?reads)" using ne by (simp add: last_status_def del: upt_Suc)
  have last_reads: "last ?reads = read_at m" by simp
  have "last ?sent \<in> set ?reads"
    using status_changes_subset [of None ?reads] last_in_set [OF ne] by blast
  then obtain i where "i \<in> set [0..<Suc m]" and last_sent: "last ?sent = read_at i"
    unfolding set_map by blast
  then have i: "i \<le> m" by (simp del: upt_Suc)
  have "sql_terminal (cj_Status (read_at i))" using m(2) ends unfolding last_sent last_reads by simp
  from read_at_final [OF assms(1,2) i m(1) this] have final: "last ?sent = b"
    unfolding last_sent using m(4) b by simp
  have "cj_ID job = cj_ID a" if "job \<in> set ?reads" for job
  proof -
    from that obtain k where "k \<in> set [0..<Suc m]" and job: "job = read_at k" unfolding set_map by blast
    then have "k \<le> n" using m(1) by (simp del: upt_Suc)
    then show ?thesis unfolding job by (rule read_at_same [OF assms(1,2)])
  qed
  then have same: "list_all (\<lambda>job. cj_ID job = cj_ID a) ?sent"
    using status_changes_subset [of None ?reads] unfolding list_all_iff by blast
  have "\<exists>job\<in>set (map read_at [0..<Suc n]). sql_terminal (cj_Status job)"
    by (rule bexI [of _ "read_at n"]) (simp add: assms(3) b, simp)
  then have "watch_loop x request None (map quiet (map read_at [0..<Suc n])) =
      (map (\<lambda>job. \<lparr> pwr_Job = Some (jobToProto x job) \<rparr>) ?sent, WatchOK)"
    by (simp only: watch_loop_quiet until if_True)
  then show ?thesis using ne final same status_changes_distinct_adj by blast
qed

end

end
