(* ===== verification/WatchSpec.thy ===== *)
theory WatchSpec
  imports Watch HandlerSpec SharedSpec
begin

text \<open>
  What a caller of JobWatch sees, and what it does not. The reads of a watch are a \<^emph>\<open>job_feed\<close>, whose laws
  the queue of \<^emph>\<open>SharedQueue\<close> keeps whatever runs between two polls.
\<close>

lemma watch_loop_service:
  assumes "list_all2 (\<lambda>turn job. tn_service turn request = Inr job \<and> tn_send turn = None \<and> tn_done turn = None)
    turns jobs"
  shows "watch_loop x request prev turns = watch_loop x request prev (map quiet jobs)"
  using assms
proof (induction turns jobs arbitrary: prev rule: list_all2_induct)
  case (Cons turn turns job jobs)
  then show ?case by (simp add: Let_def)
qed simp

lemma watch_messages_Status:
  "(\<lambda>m. Job_GetStatus (JobWatchResponse_GetJob (Some m))) \<circ>
     (\<lambda>job. \<lparr> pwr_Job = Some (jobToProto x job) \<rparr>) = (\<lambda>job. jobStatusToProto (cj_Status job))"
  by (simp add: fun_eq_iff Job_GetStatus_def JobWatchResponse_GetJob_def jobToProto_def)

lemma status_changes_remdups:
  "map cj_Status (status_changes prev jobs) =
     (case prev of
        None \<Rightarrow> remdups_adj (map cj_Status jobs)
      | Some s \<Rightarrow> tl (remdups_adj (s # map cj_Status jobs)))"
proof (induction jobs arbitrary: prev)
  case (Cons job jobs)
  then show ?case
    by (cases prev) (auto simp: remdups_adj_Cons split: list.splits)
qed (simp split: option.split)

text \<open>
  C31: a watch streams exactly the changes of status it polls. For a caller that keeps listening,
  over any sequence of reads, the statuses sent are those read, up to and including the first
  terminal one, with adjacent repetitions left out: the current state first, then one message per
  change seen. The stream ends by itself exactly if a terminal status was read; on a job that is
  not settled it never ends.
\<close>

theorem watch_streams_changes:
  assumes "x_uuid_Parse x (pwq_Id m) = Some u" "x_uuid_Parse x (pwq_OwnerId m) = Some owner"
    and "list_all2 (\<lambda>turn job. tn_service turn \<lparr> cgr_ID = u, cgr_OwnerID = owner \<rparr> = Inr job \<and>
      tn_send turn = None \<and> tn_done turn = None) turns jobs"
  shows "\<exists>messages stop. handler_JobWatch x (Some m) turns = (messages, stop) \<and>
    map (\<lambda>r. Job_GetStatus (JobWatchResponse_GetJob (Some r))) messages =
      map jobStatusToProto (remdups_adj (map cj_Status (until_settled jobs))) \<and>
    stop = (if \<exists>job\<in>set jobs. sql_terminal (cj_Status job) then WatchOK else Watching)"
proof -
  let ?sent = "status_changes None (until_settled jobs)"
  have "handler_JobWatch x (Some m) turns =
      (map (\<lambda>job. \<lparr> pwr_Job = Some (jobToProto x job) \<rparr>) ?sent,
       if \<exists>job\<in>set jobs. sql_terminal (cj_Status job) then WatchOK else Watching)"
    using assms(1,2) watch_loop_service [OF assms(3)]
    by (simp add: handler_JobWatch_def request_getters watch_loop_quiet)
  moreover have "map (\<lambda>job. jobStatusToProto (cj_Status job)) ?sent =
      map jobStatusToProto (remdups_adj (map cj_Status (until_settled jobs)))"
  proof -
    have "map (\<lambda>job. jobStatusToProto (cj_Status job)) ?sent = map jobStatusToProto (map cj_Status ?sent)"
      by (simp add: comp_def)
    then show ?thesis using status_changes_remdups [of None "until_settled jobs"] by simp
  qed
  ultimately show ?thesis by (simp add: watch_messages_Status)
qed

definition watch_of :: "uuid \<Rightarrow> protogen_JobWatchRequest" where
  "watch_of u = \<lparr> pwq_Id = replicate (unat u) CHR ''x'', pwq_OwnerId = replicate 7 CHR ''x'' \<rparr>"

lemma watch_of_parses [simp]:
  "x_uuid_Parse ext0 (pwq_Id (watch_of 1)) = Some 1" "x_uuid_Parse ext0 (pwq_OwnerId (watch_of 1)) = Some 7"
  by (simp_all add: watch_of_def ext0_parse)

text \<open>The jobs of the story, read in turn.\<close>

lemma story_statuses [simp]:
  "job_Status row_pending = JobStatusPending" "job_Status row_requeued = JobStatusPending"
  "job_Status row_last = JobStatusClaimed" "job_Status row_succeeded = JobStatusSucceeded"
  by (simp_all add: story_rows)

lemma watch_streams_changes_witness:
  "\<exists>messages. handler_JobWatch ext0 (Some (watch_of 1))
      (map (\<lambda>r. quiet (jobToCore r)) [row_pending, row_pending, row_claimed, row_succeeded]) = (messages, WatchOK) \<and>
    map (\<lambda>r. Job_GetStatus (JobWatchResponse_GetJob (Some r))) messages =
      [JOB_STATUS_PENDING, JOB_STATUS_CLAIMED, JOB_STATUS_SUCCEEDED]"
  using watch_streams_changes [OF watch_of_parses, of
      "map (\<lambda>r. quiet (jobToCore r)) [row_pending, row_pending, row_claimed, row_succeeded]"
      "map jobToCore [row_pending, row_pending, row_claimed, row_succeeded]"]
  by simp

text \<open>
  A change between two polls can be missed. A job that is handed back and claimed again
  between two reads is the same to the stream: the second run is never announced, and the caller
  still holds a snapshot with the first attempt's count.
\<close>

theorem watch_misses_second_run:
  "queue_run ext0 (story_world row_claimed 20) [story_events ! 2, story_events ! 3] (story_world row_last 40) \<and>
   cj_Attempt (jobToCore row_claimed) = 1 \<and> cj_Attempt (jobToCore row_last) = 2 \<and>
   (\<exists>message. handler_JobWatch ext0 (Some (watch_of 1)) (map (\<lambda>r. quiet (jobToCore r)) [row_claimed, row_last]) =
     ([message], Watching) \<and> Job_GetAttempt (JobWatchResponse_GetJob (Some message)) = 1)"
proof -
  have "queue_run ext0 (story_world row_claimed 20) (([] @ [story_events ! 2]) @ [story_events ! 3]) (story_world row_last 40)"
    by (rule queue_run.step [OF queue_run.step [OF queue_run.start story_steps(3)] story_steps(4)])
  moreover have attempts: "cj_Attempt (jobToCore row_claimed) = 1" "cj_Attempt (jobToCore row_last) = 2"
    by (simp_all add: story_rows)
  moreover have "handler_JobWatch ext0 (Some (watch_of 1)) (map (\<lambda>r. quiet (jobToCore r)) [row_claimed, row_last]) =
      ([\<lparr> pwr_Job = Some (jobToProto ext0 (jobToCore row_claimed)) \<rparr>], Watching)"
    by (simp add: handler_JobWatch_def request_getters)
  moreover have "Job_GetAttempt (JobWatchResponse_GetJob
      (Some \<lparr> pwr_Job = Some (jobToProto ext0 (jobToCore row_claimed)) \<rparr>)) = 1"
    using attempts(1) by (simp add: Job_GetAttempt_def JobWatchResponse_GetJob_def jobToProto_def)
  ultimately show ?thesis by simp
qed

section \<open>The feed the queue gives\<close>

text \<open>One job along a run in which retries interleave.\<close>

lemma shared_run_reaches:
  "shared_run x s acts' s' \<Longrightarrow> shared_run x s0 acts s \<Longrightarrow> shared_run x s0 (acts @ acts') s'"
proof (induction rule: shared_run.induct)
  case (step acts' s1 act s2)
  then show ?case using shared_run.step [OF step.IH [OF step.prems] step(2)] by simp
qed simp

lemma shared_step_evolves:
  assumes "shared_step x s act s'" "table_wf (sh_table s)" "find_job (sh_table s) u = Some r"
  shows "case find_job (sh_table s') u of None \<Rightarrow> act = Whole EvPurge | Some r' \<Rightarrow> job_evolves r r'"
proof (cases "act = Whole EvPurge")
  case True
  then have "queue_step x (sh_world s) EvPurge (sh_world s')"
    by - (rule shared_step_cases [OF assms(1)], use True in auto)
  from queue_step_purge_job_wf [OF this assms(2,3)] True show ?thesis
    by (cases "find_job (sh_table s') u") auto
next
  case False
  then show ?thesis using shared_step_job [OF assms(1,2) False assms(3)] by auto
qed

lemma shared_run_evolves:
  assumes "shared_run x s acts' s'" "shared_run x (shared_empty now) acts s" "json_documented x"
    and "find_job (sh_table s) u = Some r"
  shows "u \<in> set (w_minted (sh_world s')) \<and>
    (case find_job (sh_table s') u of None \<Rightarrow> True | Some r' \<Rightarrow> job_evolves r r')"
  using assms
proof (induction rule: shared_run.induct)
  case start
  then show ?case
    using shared_run_inv [OF start(1,2)] find_job_SomeD [OF start(3)] by (auto simp: shared_inv_def)
next
  case (step acts' s1 act s2)
  note IH = step.IH [OF step.prems]
  have wf: "table_wf (sh_table s1)"
    by (rule shared_inv_wf [OF shared_run_inv [OF shared_run_reaches [OF step(1) step.prems(1)] step.prems(2)]])
  have "case find_job (sh_table s2) u of None \<Rightarrow> True | Some r' \<Rightarrow> job_evolves r r'"
  proof (cases "find_job (sh_table s1) u")
    case None
    then show ?thesis using shared_step_absent [OF step(2)] IH by simp
  next
    case (Some r1)
    then show ?thesis
      using shared_step_evolves [OF step(2) wf Some] IH job_evolves_trans by (auto split: option.splits)
  qed
  then show ?case using IH shared_step_minted [OF step(2)] by blast
qed

lemma shared_run_gone:
  "shared_run x s acts s' \<Longrightarrow> u \<in> set (w_minted (sh_world s)) \<Longrightarrow> find_job (sh_table s) u = None \<Longrightarrow>
     u \<in> set (w_minted (sh_world s')) \<and> find_job (sh_table s') u = None"
  by (induction rule: shared_run.induct) (use shared_step_absent shared_step_minted in blast)+

text \<open>
  The states a watch finds at its polls: reached from an empty table, with any number of steps of any
  number of sessions between two polls.
\<close>

definition polled :: "ext \<Rightarrow> (nat \<Rightarrow> shared) \<Rightarrow> bool" where
  "polled x ss \<longleftrightarrow>
     (\<exists>now acts. shared_run x (shared_empty now) acts (ss 0)) \<and>
     (\<forall>i. \<exists>acts. shared_run x (ss i) acts (ss (Suc i)))"

lemma polled_run:
  assumes "polled x ss" "i \<le> j"
  shows "\<exists>acts. shared_run x (ss i) acts (ss j)"
  using assms(2)
proof (induction j rule: dec_induct)
  case base
  then show ?case using shared_run.start by blast
next
  case (step n)
  then show ?case using assms(1) shared_run_reaches unfolding polled_def by metis
qed

lemma polled_reachable: "polled x ss \<Longrightarrow> \<exists>now acts. shared_run x (shared_empty now) acts (ss i)"
  using polled_run [of x ss 0 i] shared_run_reaches unfolding polled_def by blast

definition owner_reads :: "ext \<Rightarrow> (nat \<Rightarrow> shared) \<Rightarrow> uuid \<Rightarrow> uuid \<Rightarrow> nat \<Rightarrow> core_Job option" where
  "owner_reads x ss u owner i =
     (if json_documented x \<and> polled x ss then map_option jobToCore (visible_job (sh_table (ss i)) u owner) else None)"

lemma owner_reads_Some:
  "owner_reads x ss u owner i = Some a \<longleftrightarrow>
     json_documented x \<and> polled x ss \<and>
     (\<exists>r. find_job (sh_table (ss i)) u = Some r \<and> job_OwnerID r = owner \<and> a = jobToCore r)"
  by (auto simp: owner_reads_def visible_job_def split: option.splits)

lemma polled_evolves:
  assumes "polled x ss" "json_documented x" "i \<le> j" "find_job (sh_table (ss i)) u = Some r"
  shows "u \<in> set (w_minted (sh_world (ss j))) \<and>
    (case find_job (sh_table (ss j)) u of None \<Rightarrow> True | Some r' \<Rightarrow> job_evolves r r')"
proof -
  obtain now acts acts' where "shared_run x (shared_empty now) acts (ss i)" "shared_run x (ss i) acts' (ss j)"
    using polled_reachable [OF assms(1)] polled_run [OF assms(1,3)] by blast
  then show ?thesis using shared_run_evolves assms(2,4) by blast
qed

interpretation shared_feed: job_feed "owner_reads x ss u owner"
  for x ss u owner
proof
  fix i j a b
  assume le: "i \<le> j" and a: "owner_reads x ss u owner i = Some a" and b: "owner_reads x ss u owner j = Some b"
  from a obtain r where r: "json_documented x" "polled x ss" "find_job (sh_table (ss i)) u = Some r" "a = jobToCore r"
    by (auto simp: owner_reads_Some)
  from b obtain s where s: "find_job (sh_table (ss j)) u = Some s" "b = jobToCore s" by (auto simp: owner_reads_Some)
  have "job_evolves r s" using polled_evolves [OF r(2,1) le r(3)] s(1) by simp
  then show "cj_ID b = cj_ID a \<and> sint (cj_Attempt a) \<le> sint (cj_Attempt b) \<and>
      (sql_terminal (cj_Status a) \<longrightarrow> b = a)"
    unfolding r(4) s(2) by (simp add: job_evolves_def same_identity_def)
next
  fix i j k a b
  assume le: "i \<le> j" "j \<le> k" and a: "owner_reads x ss u owner i = Some a" and b: "owner_reads x ss u owner k = Some b"
  then obtain r s where rs: "json_documented x" "polled x ss" "find_job (sh_table (ss i)) u = Some r"
    "job_OwnerID r = owner" "find_job (sh_table (ss k)) u = Some s"
    by (auto simp: owner_reads_Some)
  note here = polled_evolves [OF rs(2,1) le(1) rs(3)]
  obtain acts where "shared_run x (ss j) acts (ss k)" using polled_run [OF rs(2) le(2)] by blast
  then have "find_job (sh_table (ss j)) u \<noteq> None" using shared_run_gone here rs(5) by fastforce
  then show "owner_reads x ss u owner j \<noteq> None"
    using here rs(1,2,4) by (auto simp: owner_reads_def visible_job_def job_evolves_def same_identity_def)
qed

text \<open>
  C30: a watch that is read to its end reports the job's final state. Whatever happens before and
  during the watch, any number of enqueues, claims, settles, sweeps and purges between two polls, with
  transactions of retries open across them: if the owner's job is there when the caller subscribes
  and settled at the n-th poll, and no read or send of the watch itself fails, the stream ends by
  itself, its last message is the record as it will stay until it is purged, and every message is
  about the job asked for.
\<close>

theorem watch_ends_with_final_state:
  assumes "x_uuid_Parse x (pwq_Id m) = Some u" "x_uuid_Parse x (pwq_OwnerId m) = Some owner"
    and "valid_get x \<lparr> cgr_ID = u, cgr_OwnerID = owner \<rparr>" "\<forall>i. undisturbed (e i)" "json_documented x"
    and "polled x ss" "visible_job (sh_table (ss 0)) u owner = Some r"
    and "visible_job (sh_table (ss n)) u owner = Some final" "sql_terminal (job_Status final)"
  shows "\<exists>sent. handler_JobWatch x (Some m)
      (map (\<lambda>i. \<lparr> tn_service = (\<lambda>q. fst (JobGet_Exec x (e i) q (sh_table (ss i)))),
                  tn_send = None, tn_done = None \<rparr>) [0..<Suc n]) =
      (map (\<lambda>job. \<lparr> pwr_Job = Some (jobToProto x job) \<rparr>) sent, WatchOK) \<and>
    sent \<noteq> [] \<and> last sent = jobToCore final \<and> list_all (\<lambda>job. cj_ID job = u) sent \<and>
    (\<forall>acts s. shared_run x (ss n) acts s \<longrightarrow> visible_job (sh_table s) u owner \<in> {Some final, None})"
proof -
  let ?q = "\<lparr> cgr_ID = u, cgr_OwnerID = owner \<rparr>"
  let ?turn = "\<lambda>i. \<lparr> tn_service = (\<lambda>q. fst (JobGet_Exec x (e i) q (sh_table (ss i)))),
                    tn_send = None, tn_done = None \<rparr>"
  let ?read = "shared_feed.read_at x ss u owner"
  have ends: "owner_reads x ss u owner 0 = Some (jobToCore r)" "owner_reads x ss u owner n = Some (jobToCore final)"
    using assms(5-8) by (simp_all add: owner_reads_def)
  have wf: "table_wf (sh_table (ss i))" for i
    using polled_reachable [OF assms(6)] shared_inv_wf shared_run_inv assms(5) by blast
  have "fst (JobGet_Exec x (e i) ?q (sh_table (ss i))) = Inr (?read i)" if "i \<le> n" for i
    using shared_feed.read_at_known [OF ends that] assms(3-6)
    by (auto simp: JobGet_Exec_eq owner_reads_def dao_JobGet_Exec_delivered [OF wf] undisturbedD)
  then have "list_all2 (\<lambda>turn job. tn_service turn ?q = Inr job \<and> tn_send turn = None \<and> tn_done turn = None)
      (map ?turn [0..<Suc n]) (map ?read [0..<Suc n])"
    by (simp add: list_all2_conv_all_nth less_Suc_eq_le del: upt_Suc)
  note loop = watch_loop_service [OF this]
  obtain sent where sent: "watch_loop x ?q None (map quiet (map ?read [0..<Suc n])) =
      (map (\<lambda>job. \<lparr> pwr_Job = Some (jobToProto x job) \<rparr>) sent, WatchOK)"
    "sent \<noteq> []" "last sent = jobToCore final" "list_all (\<lambda>job. cj_ID job = job_ID r) sent"
    using shared_feed.watch_ends_final [OF ends, of x ?q] assms(9) by auto
  have "job_ID r = u" using assms(7) by (auto dest: visible_job_SomeD)
  moreover have "visible_job (sh_table s) u owner \<in> {Some final, None}" if "shared_run x (ss n) acts s" for acts s
  proof -
    have "find_job (sh_table (ss n)) u = Some final"
      using assms(8) by (auto simp: visible_job_def split: option.splits if_splits)
    then show ?thesis
      using polled_reachable [OF assms(6), of n] shared_run_settled [OF that _ assms(5) _ assms(9)] assms(8)
      by (fastforce simp: visible_job_def)
  qed
  ultimately show ?thesis
    using assms(1,2) sent loop by (auto simp: handler_JobWatch_def request_getters simp del: upt_Suc)
qed

text \<open>The witness: the job is claimed, handed back, claimed again and settled between two polls.\<close>

lemma whole_run:
  "queue_run x w es w' \<Longrightarrow> shared_run x \<lparr> sh_world = w, sh_open = txs \<rparr> (map Whole es) \<lparr> sh_world = w', sh_open = txs \<rparr>"
proof (induction rule: queue_run.induct)
  case (step es w1 ev w2)
  then show ?case using shared_run.step [OF step.IH shared_step.whole [OF step(2)]] by simp
qed (simp add: shared_run.start)

definition story_polls :: "nat \<Rightarrow> shared" where
  "story_polls i =
     (if i = 0 then race_world row_pending 10 [] else race_world row_succeeded 50 [])"

lemma story_polled: "polled ext0 story_polls"
proof -
  have "queue_run ext0 (empty_world 0) ([] @ [story_events ! 0]) (story_world row_pending 10)"
    by (rule queue_run.step [OF queue_run.start story_steps(1)])
  from whole_run [OF this, of "[]"]
  have first: "\<exists>now acts. shared_run ext0 (shared_empty now) acts (story_polls 0)"
    by (auto simp: shared_empty_def story_polls_def)
  have "queue_run ext0 (story_world row_pending 10)
      (((([] @ [story_events ! 1]) @ [story_events ! 2]) @ [story_events ! 3]) @ [story_events ! 4])
      (story_world row_succeeded 50)"
    by (rule queue_run.step [OF queue_run.step [OF queue_run.step [OF queue_run.step
      [OF queue_run.start story_steps(2)] story_steps(3)] story_steps(4)] story_steps(5)])
  from whole_run [OF this, of "[]"] have "\<exists>acts. shared_run ext0 (story_polls i) acts (story_polls (Suc i))" for i
    using shared_run.start by (cases i) (auto simp: story_polls_def)
  then show ?thesis using first by (simp add: polled_def)
qed

lemma row_owners: "job_OwnerID row_pending = 7" "job_OwnerID row_succeeded = 7"
  by (simp_all add: story_rows)

lemma watch_ends_with_final_state_witness:
  "\<exists>sent. handler_JobWatch ext0 (Some (watch_of 1))
      (map (\<lambda>i. \<lparr> tn_service = (\<lambda>q. fst (JobGet_Exec ext0 (stmt_at 60) q (sh_table (story_polls i)))),
                  tn_send = None, tn_done = None \<rparr>) [0..<Suc 1]) =
      (map (\<lambda>job. \<lparr> pwr_Job = Some (jobToProto ext0 job) \<rparr>) sent, WatchOK) \<and>
    sent \<noteq> [] \<and> last sent = jobToCore row_succeeded"
proof -
  have reads: "visible_job (sh_table (story_polls 0)) 1 7 = Some row_pending"
    "visible_job (sh_table (story_polls 1)) 1 7 = Some row_succeeded"
    by (simp_all add: story_polls_def story_world_def visible_job_def find_job_def row_owners)
  have "valid_get ext0 \<lparr> cgr_ID = 1, cgr_OwnerID = 7 \<rparr>" "sql_terminal (job_Status row_succeeded)"
    "\<forall>i. undisturbed ((\<lambda>_. stmt_at 60) i)"
    by (simp_all add: valid_get_def ext0_def)
  from watch_ends_with_final_state [OF watch_of_parses this(1,3) ext0_json story_polled reads this(2)]
  show ?thesis by blast
qed

end
