(* ===== verification/Reaper.thy ===== *)
theory Reaper
  imports CoreQueue
begin

text \<open>
  \<open>internal/lib/reaper.go\<close>: the loop that sweeps at once and then on every tick, until its context
  is cancelled. The service is that of the record \<open>NewReaper\<close> makes; a sweep runs it in an environment of its own (what the
  database decides for that statement) on the state the loop shares with the rest of the process.
\<close>

section \<open>One sweep\<close>

datatype log_line =
    LogSweepFailed gerr
  | LogRecovered nat

definition Reaper_Sweep :: "('s \<Rightarrow> (gerr + core_Job list) \<times> 's) \<Rightarrow> 's \<Rightarrow> (gerr + nat) \<times> 's" where
  "Reaper_Sweep service s =
     (case service s of
        (Inl err, s') \<Rightarrow> (Inl err, s')
      | (Inr jobs, s') \<Rightarrow> (Inr (length jobs), s'))"

definition Reaper_sweep :: "('s \<Rightarrow> (gerr + core_Job list) \<times> 's) \<Rightarrow> log_line list \<times> 's \<Rightarrow> log_line list \<times> 's" where
  "Reaper_sweep service ls =
     (case Reaper_Sweep service (snd ls) of
        (Inl err, s') \<Rightarrow> (fst ls @ [LogSweepFailed err], s')
      | (Inr recovered, s') \<Rightarrow> (fst ls @ (if 0 < recovered then [LogRecovered recovered] else []), s'))"

section \<open>The loop\<close>

text \<open>
  What each \<open>select\<close> of the loop picks: the cancelled context, or a tick, with the environment the
  sweep it starts will meet.
\<close>

datatype 'e wakeup = CtxDone | Tick 'e

fun Reaper_loop ::
  "('e \<Rightarrow> 's \<Rightarrow> (gerr + core_Job list) \<times> 's) \<Rightarrow> 'e wakeup list \<Rightarrow> log_line list \<times> 's \<Rightarrow> bool \<times> log_line list \<times> 's" where
  "Reaper_loop service [] ls = (False, ls)"
| "Reaper_loop service (CtxDone # rest) ls = (True, ls)"
| "Reaper_loop service (Tick e # rest) ls = Reaper_loop service rest (Reaper_sweep (service e) ls)"

text \<open>The flag of the result says whether \<open>Run\<close> has returned.\<close>

definition Reaper_Run ::
  "('e \<Rightarrow> 's \<Rightarrow> (gerr + core_Job list) \<times> 's) \<Rightarrow> 'e \<Rightarrow> 'e wakeup list \<Rightarrow> 's \<Rightarrow> bool \<times> log_line list \<times> 's" where
  "Reaper_Run service first wakeups s =
     Reaper_loop service wakeups (Reaper_sweep (service first) ([], s))"

section \<open>The reaper as constructed\<close>

type_synonym ('c, 's) JobReapService = "'c \<Rightarrow> 's \<Rightarrow> (gerr + core_Job list) \<times> 's"

record ('c, 's) lib_Reaper =
  rp_service :: "('c, 's) JobReapService"
  rp_interval :: int64

definition lib_NewReaper :: "('c, 's) JobReapService \<Rightarrow> int64 \<Rightarrow> ('c, 's) lib_Reaper" where
  "lib_NewReaper service interval = \<lparr> rp_service = service, rp_interval = interval \<rparr>"

text \<open>
  \<open>time.NewTicker\<close> panics on an interval that is not positive; it is called between the first sweep
  and the loop.
\<close>

datatype run_end = RunGoing | RunReturned | RunPanicked string

definition lib_Reaper_Run ::
  "('e, 's) lib_Reaper \<Rightarrow> 'e \<Rightarrow> 'e wakeup list \<Rightarrow> 's \<Rightarrow> run_end \<times> log_line list \<times> 's" where
  "lib_Reaper_Run reaper first wakeups s =
     (let ls = Reaper_sweep (rp_service reaper first) ([], s) in
      if rp_interval reaper \<le>s 0 then (RunPanicked ''non-positive interval for NewTicker'', ls)
      else let (returned, ls') = Reaper_loop (rp_service reaper) wakeups ls in
           (if returned then RunReturned else RunGoing, ls'))"

lemma lib_Reaper_Run_positive:
  assumes "0 <s rp_interval reaper"
  shows "lib_Reaper_Run reaper first wakeups s =
    (if fst (Reaper_Run (rp_service reaper) first wakeups s) then RunReturned else RunGoing,
     snd (Reaper_Run (rp_service reaper) first wakeups s))"
proof -
  have "\<not> rp_interval reaper \<le>s 0" using assms by simp
  then show ?thesis by (simp add: lib_Reaper_Run_def Reaper_Run_def case_prod_beta Let_def)
qed

section \<open>What the loop asks of its service, and what it gives\<close>

text \<open>The sweeps a run makes: the first, and one per tick before the cancellation.\<close>

fun ticks :: "'e wakeup list \<Rightarrow> 'e list" where
  "ticks [] = []"
| "ticks (CtxDone # rest) = []"
| "ticks (Tick e # rest) = e # ticks rest"

text \<open>Each sweep with the environment and the state it meets.\<close>

fun sweeps :: "('e \<Rightarrow> 's \<Rightarrow> (gerr + core_Job list) \<times> 's) \<Rightarrow> 'e list \<Rightarrow> 's \<Rightarrow> ('e \<times> 's) list" where
  "sweeps service [] s = []"
| "sweeps service (e # es) s = (e, s) # sweeps service es (snd (service e s))"

lemma snd_Reaper_sweep [simp]: "snd (Reaper_sweep service ls) = snd (service (snd ls))"
  by (auto simp: Reaper_sweep_def Reaper_Sweep_def split: prod.splits sum.splits)

lemma Reaper_loop_state:
  "snd (snd (Reaper_loop service wakeups ls)) = fold (\<lambda>e s. snd (service e s)) (ticks wakeups) (snd ls)"
  by (induction service wakeups ls rule: Reaper_loop.induct) simp_all

lemma Reaper_loop_returns: "fst (Reaper_loop service wakeups ls) \<longleftrightarrow> CtxDone \<in> set wakeups"
  by (induction service wakeups ls rule: Reaper_loop.induct) simp_all

text \<open>
  The sweeper's contract: a property of the shared state that every sweep keeps, whatever its
  outcome, is kept by the whole run.
\<close>

locale sweeper =
  fixes service :: "'e \<Rightarrow> 's \<Rightarrow> (gerr + core_Job list) \<times> 's" and ok :: "'s \<Rightarrow> bool"
    and evolves :: "'s \<Rightarrow> 's \<Rightarrow> bool"
  assumes sweep_ok: "ok s \<Longrightarrow> ok (snd (service e s)) \<and> evolves s (snd (service e s))"
    and evolves_refl: "evolves s s"
    and evolves_trans: "evolves a b \<Longrightarrow> evolves b c \<Longrightarrow> evolves a c"
begin

lemma fold_ok:
  "ok s \<Longrightarrow> ok (fold (\<lambda>e s. snd (service e s)) es s) \<and> evolves s (fold (\<lambda>e s. snd (service e s)) es s)"
proof (induction es arbitrary: s)
  case (Cons e es)
  then show ?case using sweep_ok [of s e] evolves_trans by simp blast
qed (simp add: evolves_refl)

lemma run_ok:
  "ok s \<Longrightarrow> ok (snd (snd (Reaper_Run service first wakeups s))) \<and>
    evolves s (snd (snd (Reaper_Run service first wakeups s)))"
  using fold_ok [of s "first # ticks wakeups"] by (simp add: Reaper_Run_def Reaper_loop_state)

end

interpretation reap_sweeper: sweeper "\<lambda>e. JobReap_Exec x e days" table_wf table_evolves
  for x days
  by unfold_locales (auto simp: reap_core.keeps_wf reap_core.evolves intro: table_evolves_trans)

end
