(* ===== verification/ReaperSpec.thy ===== *)
theory ReaperSpec
  imports Reaper ReapSpec
begin

text \<open>
  What the process may count on from its recovery loop.
\<close>

fun failure_line :: "log_line \<Rightarrow> bool" where
  "failure_line (LogSweepFailed err) = True"
| "failure_line (LogRecovered n) = False"

definition sweep_fails :: "('e \<Rightarrow> 's \<Rightarrow> (gerr + core_Job list) \<times> 's) \<Rightarrow> 'e \<times> 's \<Rightarrow> bool" where
  "sweep_fails service es = (case fst (service (fst es) (snd es)) of Inl err \<Rightarrow> True | Inr jobs \<Rightarrow> False)"

text \<open>The loop sweeps on whatever its service answers.\<close>

lemma Reaper_Run_outlives:
  "fst (Reaper_Run service first wakeups s) = (CtxDone \<in> set wakeups) \<and>
   snd (snd (Reaper_Run service first wakeups s)) =
     fold (\<lambda>e s. snd (service e s)) (first # ticks wakeups) s \<and>
   length (filter failure_line (fst (snd (Reaper_Run service first wakeups s)))) =
     length (filter (sweep_fails service) (sweeps service (first # ticks wakeups) s))"
proof -
  have logs: "length (filter failure_line (fst (Reaper_sweep (service e) ls))) =
      length (filter failure_line (fst ls)) + (if sweep_fails service (e, snd ls) then 1 else 0)" for e ls
    by (auto simp: Reaper_sweep_def Reaper_Sweep_def sweep_fails_def split: prod.splits sum.splits)
  have "length (filter failure_line (fst (snd (Reaper_loop service wakeups ls)))) =
      length (filter failure_line (fst ls)) +
      length (filter (sweep_fails service) (sweeps service (ticks wakeups) (snd ls)))" for ls
  proof (induction wakeups arbitrary: ls)
    case (Cons w ws)
    then show ?case by (cases w) (simp_all add: logs)
  qed simp
  then show ?thesis
    by (simp add: Reaper_Run_def Reaper_loop_returns Reaper_loop_state logs)
qed

text \<open>
  C33: recovery only needs one good sweep. Whatever happened to the sweeps before it (the database
  was away, the reply was lost, rows were locked), after a tick whose statement goes through, no
  job is left claimed past its lease, except rows another transaction has locked at that moment;
  and no settled record was touched on the way.
\<close>

theorem one_good_sweep_recovers:
  assumes "table_wf t" "x_json_arg x (Some jobReapError) = Some err"
    and "CtxDone \<notin> set wakeups" "undisturbed e"
    and "final = snd (snd (Reaper_Run (\<lambda>e. JobReap_Exec x e days) first (wakeups @ [Tick e]) t))"
  shows "(\<forall>r\<in>set final. job_Status r = JobStatusClaimed \<longrightarrow> \<not> st_locked e (job_ID r) \<longrightarrow>
      (case job_LeaseExpiresAt r of None \<Rightarrow> True | Some l \<Rightarrow> st_clock e (job_ID r) 0 \<le> l)) \<and>
    (\<forall>u r. find_job t u = Some r \<longrightarrow> sql_terminal (job_Status r) \<longrightarrow> find_job final u = Some r)"
proof
  let ?service = "\<lambda>e. JobReap_Exec x e days"
  let ?before = "fold (\<lambda>e s. snd (?service e s)) (first # ticks wakeups) t"
  have ticks: "ticks (wakeups @ [Tick e]) = ticks wakeups @ [e]"
    using assms(3) by (induction wakeups rule: ticks.induct) simp_all
  then have final: "final = snd (JobReap_Exec x e days ?before)"
    by (simp add: assms(5) Reaper_Run_def Reaper_loop_state)
  have before: "table_wf ?before \<and> table_evolves t ?before"
    using reap_sweeper.fold_ok [OF assms(1), where es = "first # ticks wakeups"] by blast
  then have wf: "table_wf ?before" by blast
  have "final = update_rows (reapable e) (reap_row e err days) ?before"
    unfolding final JobReap_Exec_ok [OF wf assms(4,2)] by (rule snd_conv)
  then have "\<not> reapable e r" if "r \<in> set final" for r
    using that swept_not_reapable by blast
  then show "\<forall>r\<in>set final. job_Status r = JobStatusClaimed \<longrightarrow> \<not> st_locked e (job_ID r) \<longrightarrow>
      (case job_LeaseExpiresAt r of None \<Rightarrow> True | Some l \<Rightarrow> st_clock e (job_ID r) 0 \<le> l)"
    by (fastforce simp: reapable_def not_less split: option.split)
  have "table_wf final \<and> table_evolves t final"
    using before reap_core.keeps_wf [OF wf] reap_core.evolves [OF wf] table_evolves_trans
    unfolding final by blast
  then show "\<forall>u r. find_job t u = Some r \<longrightarrow> sql_terminal (job_Status r) \<longrightarrow> find_job final u = Some r"
    using table_evolves_terminal by blast
qed

text \<open>The witness: the first sweep finds no handle, the tick's sweep goes through.\<close>

lemma one_good_sweep_recovers_witness:
  "filter (\<lambda>r. job_Status r = JobStatusClaimed \<and>
       (case job_LeaseExpiresAt r of None \<Rightarrow> False | Some l \<Rightarrow> l < 30000030))
     (snd (snd (Reaper_Run (\<lambda>e. JobReap_Exec ext0 e 7) ((stmt_at 40)\<lparr> st_handle := False \<rparr>)
       ([] @ [Tick (stmt_at 30000030)]) [row_claimed]))) = []"
proof -
  let ?final = "snd (snd (Reaper_Run (\<lambda>e. JobReap_Exec ext0 e 7) ((stmt_at 40)\<lparr> st_handle := False \<rparr>)
       ([] @ [Tick (stmt_at 30000030)]) [row_claimed]))"
  have "\<forall>r\<in>set ?final. job_Status r = JobStatusClaimed \<longrightarrow> \<not> st_locked (stmt_at 30000030) (job_ID r) \<longrightarrow>
      (case job_LeaseExpiresAt r of None \<Rightarrow> True | Some l \<Rightarrow> st_clock (stmt_at 30000030) (job_ID r) 0 \<le> l)"
    using one_good_sweep_recovers [OF story_wf(2) ext0_json_arg, of "[]" "stmt_at 30000030" ?final 7
        "(stmt_at 40)\<lparr> st_handle := False \<rparr>"] by simp
  then show ?thesis by (auto simp: filter_empty_conv split: option.splits)
qed

end
