(* ===== verification/StatusReport.thy ===== *)
theory StatusReport
  imports Proto GoErrors
begin

text \<open>
  \<open>internal/handlers/grpc.status.go\<close> with its messages: the health of the database, probed on every
  call, and the backlog, measured at most once per \<open>cacheTTL\<close>. The two fields of the cache are
  read together and written together under one mutex, so one call is a read of the cache, then the
  measurement, then a write; calls that overlap are in \<^emph>\<open>StatusOverlap\<close>. Clock readings and durations are in nanoseconds; \<open>durationpb.New\<close>
  is a parameter.
\<close>

section \<open>Messages\<close>

definition DEPENDENCY_STATUS_UNSPECIFIED :: int32 where "DEPENDENCY_STATUS_UNSPECIFIED = 0"
definition DEPENDENCY_STATUS_UP :: int32 where "DEPENDENCY_STATUS_UP = 1"
definition DEPENDENCY_STATUS_DOWN :: int32 where "DEPENDENCY_STATUS_DOWN = 2"

record protogen_DependencyHealth =
  pdh_Status :: int32

definition DependencyHealth_GetStatus :: "protogen_DependencyHealth option \<Rightarrow> int32" where
  "DependencyHealth_GetStatus = getter pdh_Status DEPENDENCY_STATUS_UNSPECIFIED"

record 'd protogen_QueueDepth =
  pqd_Pending :: int64
  pqd_OldestPendingAge :: "'d option"

definition QueueDepth_GetPending :: "'d protogen_QueueDepth option \<Rightarrow> int64" where
  "QueueDepth_GetPending = getter pqd_Pending 0"
definition QueueDepth_GetOldestPendingAge :: "'d protogen_QueueDepth option \<Rightarrow> 'd option" where
  "QueueDepth_GetOldestPendingAge = getter pqd_OldestPendingAge None"

record 'd protogen_StatusResponse =
  pst_Postgres :: "protogen_DependencyHealth option"
  pst_Queue :: "'d protogen_QueueDepth option"

definition StatusResponse_GetPostgres :: "'d protogen_StatusResponse option \<Rightarrow> protogen_DependencyHealth option" where
  "StatusResponse_GetPostgres = getter pst_Postgres None"
definition StatusResponse_GetQueue :: "'d protogen_StatusResponse option \<Rightarrow> 'd protogen_QueueDepth option" where
  "StatusResponse_GetQueue = getter pst_Queue None"

section \<open>The handler\<close>

record core_QueueDepth =
  qd_Pending :: int64
  qd_OldestPendingAge :: "int64 option"

text \<open>The handler's mutable fields: \<open>cached\<close> and \<open>cachedAt\<close>.\<close>

record status_cache =
  sc_cached :: "core_QueueDepth option"
  sc_cachedAt :: int

definition NewGrpcStatus :: status_cache where
  "NewGrpcStatus = \<lparr> sc_cached = None, sc_cachedAt = 0 \<rparr>"

text \<open>Its fields that never change.\<close>

type_synonym ('c, 's) QueueDepthService = "'c \<Rightarrow> 's \<Rightarrow> (gerr + core_QueueDepth) \<times> 's"

record ('c, 's) handlers_GrpcStatus =
  hgs_queueDepth :: "('c, 's) QueueDepthService"
  hgs_cacheTTL :: int64

definition handlers_NewGrpcStatus :: "('c, 's) QueueDepthService \<Rightarrow> int64 \<Rightarrow> ('c, 's) handlers_GrpcStatus" where
  "handlers_NewGrpcStatus queueDepth cacheTTL =
     \<lparr> hgs_queueDepth = queueDepth, hgs_cacheTTL = cacheTTL \<rparr>"

text \<open>What a call meets outside: the context's handle, the ping, two clock readings, the measurement.\<close>

record probe =
  pr_context :: "gerr option"
  pr_isDB :: bool
  pr_ping :: "gerr option"
  pr_since :: int
  pr_depth :: "gerr + core_QueueDepth"
  pr_now :: int

definition NewGrpcHealthStatus :: "gerr option \<Rightarrow> protogen_DependencyHealth" where
  "NewGrpcHealthStatus err =
     \<lparr> pdh_Status = (if err = None then DEPENDENCY_STATUS_UP else DEPENDENCY_STATUS_DOWN) \<rparr>"

definition reportPostgres :: "probe \<Rightarrow> gerr option" where
  "reportPostgres pr =
     (case pr_context pr of
        Some err \<Rightarrow> Some err
      | None \<Rightarrow> if \<not> pr_isDB pr then None else pr_ping pr)"

definition queueDepthToProto :: "(int64 \<Rightarrow> 'd) \<Rightarrow> core_QueueDepth \<Rightarrow> 'd protogen_QueueDepth" where
  "queueDepthToProto durationpb_New depth =
     \<lparr> pqd_Pending = qd_Pending depth,
       pqd_OldestPendingAge = map_option durationpb_New (qd_OldestPendingAge depth) \<rparr>"

definition cache_fresh :: "int \<Rightarrow> int \<Rightarrow> status_cache \<Rightarrow> bool" where
  "cache_fresh cacheTTL now c \<longleftrightarrow> sc_cached c \<noteq> None \<and> now - sc_cachedAt c < cacheTTL"

definition reportQueueDepth ::
  "(int64 \<Rightarrow> 'd) \<Rightarrow> int \<Rightarrow> probe \<Rightarrow> status_cache \<Rightarrow> 'd protogen_QueueDepth option \<times> status_cache" where
  "reportQueueDepth durationpb_New cacheTTL pr c =
     (if cache_fresh cacheTTL (pr_since pr) c
      then (Some (queueDepthToProto durationpb_New (the (sc_cached c))), c)
      else (case pr_depth pr of
          Inl err \<Rightarrow> (None, c)
        | Inr depth \<Rightarrow>
            (Some (queueDepthToProto durationpb_New depth),
             \<lparr> sc_cached = Some depth, sc_cachedAt = pr_now pr \<rparr>)))"

definition handler_Status ::
  "(int64 \<Rightarrow> 'd) \<Rightarrow> int \<Rightarrow> probe \<Rightarrow> status_cache \<Rightarrow> 'd protogen_StatusResponse \<times> status_cache" where
  "handler_Status durationpb_New cacheTTL pr c =
     (let (queue, c') = reportQueueDepth durationpb_New cacheTTL pr c in
      (\<lparr> pst_Postgres = Some (NewGrpcHealthStatus (reportPostgres pr)), pst_Queue = queue \<rparr>, c'))"

text \<open>Calls one after another, from a new handler.\<close>

fun status_calls ::
  "(int64 \<Rightarrow> 'd) \<Rightarrow> int \<Rightarrow> probe list \<Rightarrow> status_cache \<Rightarrow> 'd protogen_StatusResponse list \<times> status_cache" where
  "status_calls d ttl [] c = ([], c)"
| "status_calls d ttl (pr # prs) c =
     (let (r, c1) = handler_Status d ttl pr c; (rs, c2) = status_calls d ttl prs c1 in (r # rs, c2))"

text \<open>What the cache holds was measured by one of the calls made so far, and stored at its end.\<close>

definition cached_from :: "probe list \<Rightarrow> status_cache \<Rightarrow> bool" where
  "cached_from prs c \<longleftrightarrow>
     (case sc_cached c of
        None \<Rightarrow> True
      | Some d \<Rightarrow> \<exists>pr\<in>set prs. pr_depth pr = Inr d \<and> pr_now pr = sc_cachedAt c)"

lemma handler_Status_cached:
  assumes "cached_from prs c" "handler_Status d ttl pr c = (r, c')"
  shows "cached_from (prs @ [pr]) c'"
  using assms
  by (auto simp: handler_Status_def reportQueueDepth_def cached_from_def Let_def
      split: if_splits sum.splits option.splits)

lemma status_calls_snoc:
  "status_calls d ttl (prs @ [pr]) c =
     (let (rs, c1) = status_calls d ttl prs c; (r, c2) = handler_Status d ttl pr c1 in (rs @ [r], c2))"
  by (induction prs arbitrary: c) (auto simp: Let_def split: prod.splits)

lemma status_calls_cached: "cached_from prs (snd (status_calls d ttl prs NewGrpcStatus))"
proof (induction prs rule: rev_induct)
  case Nil
  then show ?case by (simp add: cached_from_def NewGrpcStatus_def)
next
  case (snoc pr prs)
  then show ?case
    using handler_Status_cached [of prs "snd (status_calls d ttl prs NewGrpcStatus)" d ttl pr]
    by (auto simp: status_calls_snoc Let_def split: prod.splits)
qed

section \<open>What a probe may rely on\<close>

lemma health_down: "pdh_Status (NewGrpcHealthStatus err) = DEPENDENCY_STATUS_DOWN \<longleftrightarrow> err \<noteq> None"
  by (cases err) (simp_all add: NewGrpcHealthStatus_def DEPENDENCY_STATUS_UP_def DEPENDENCY_STATUS_DOWN_def)

lemma reportPostgres_down:
  "reportPostgres pr \<noteq> None \<longleftrightarrow> pr_context pr \<noteq> None \<or> pr_isDB pr \<and> pr_ping pr \<noteq> None"
  by (auto simp: reportPostgres_def split: option.split)

text \<open>
  The status surface is never staler than its cache allows. After any sequence of calls, the
  next one reports the database down exactly if it could not be reached in that very call, and
  reports a backlog that was measured in that call or stored by an earlier one less than the TTL
  before; it reports none only if the measurement of this very call failed.
\<close>

theorem status_is_current:
  fixes d :: "int64 \<Rightarrow> 'd"
  assumes "handler_Status d ttl pr (snd (status_calls d ttl prs NewGrpcStatus)) = (r, c)"
  shows "(DependencyHealth_GetStatus (StatusResponse_GetPostgres (Some r)) = DEPENDENCY_STATUS_DOWN \<longleftrightarrow>
      pr_context pr \<noteq> None \<or> pr_isDB pr \<and> pr_ping pr \<noteq> None) \<and>
    (case StatusResponse_GetQueue (Some r) of
       None \<Rightarrow> \<exists>err. pr_depth pr = Inl err
     | Some q \<Rightarrow> \<exists>depth. q = queueDepthToProto d depth \<and>
         (pr_depth pr = Inr depth \<or>
          (\<exists>old\<in>set prs. pr_depth old = Inr depth \<and> pr_since pr - pr_now old < ttl)))"
proof
  let ?c = "snd (status_calls d ttl prs NewGrpcStatus)"
  show "DependencyHealth_GetStatus (StatusResponse_GetPostgres (Some r)) = DEPENDENCY_STATUS_DOWN \<longleftrightarrow>
      pr_context pr \<noteq> None \<or> pr_isDB pr \<and> pr_ping pr \<noteq> None"
    using assms reportPostgres_down [of pr]
    by (auto simp: handler_Status_def Let_def StatusResponse_GetPostgres_def DependencyHealth_GetStatus_def
        health_down split: prod.splits)
  have q: "StatusResponse_GetQueue (Some r) = fst (reportQueueDepth d ttl pr ?c)"
    using assms by (auto simp: handler_Status_def Let_def StatusResponse_GetQueue_def split: prod.splits)
  show "case StatusResponse_GetQueue (Some r) of
       None \<Rightarrow> \<exists>err. pr_depth pr = Inl err
     | Some q \<Rightarrow> \<exists>depth. q = queueDepthToProto d depth \<and>
         (pr_depth pr = Inr depth \<or>
          (\<exists>old\<in>set prs. pr_depth old = Inr depth \<and> pr_since pr - pr_now old < ttl))"
  proof (cases "cache_fresh ttl (pr_since pr) ?c")
    case True
    then obtain depth where depth: "sc_cached ?c = Some depth" "pr_since pr - sc_cachedAt ?c < ttl"
      by (auto simp: cache_fresh_def)
    then obtain old where "old \<in> set prs" "pr_depth old = Inr depth" "pr_since pr - pr_now old < ttl"
      using status_calls_cached [of prs d ttl] by (auto simp: cached_from_def)
    then have "\<exists>old\<in>set prs. pr_depth old = Inr depth \<and> pr_since pr - pr_now old < ttl" by blast
    then show ?thesis
      unfolding q using True depth(1) by (auto simp: reportQueueDepth_def intro!: exI [of _ depth])
  next
    case False
    then show ?thesis unfolding q by (cases "pr_depth pr") (auto simp: reportQueueDepth_def)
  qed
qed

definition story_probe :: "int \<Rightarrow> int64 \<Rightarrow> probe" where
  "story_probe now pending =
     \<lparr> pr_context = None, pr_isDB = True, pr_ping = None, pr_since = now,
       pr_depth = Inr \<lparr> qd_Pending = pending, qd_OldestPendingAge = None \<rparr>, pr_now = now \<rparr>"

text \<open>The witness: a second call inside the TTL gets the first one's measurement.\<close>

lemma status_is_current_witness:
  "(DependencyHealth_GetStatus (StatusResponse_GetPostgres (Some (fst (handler_Status id 1000 (story_probe 500 9)
      (snd (status_calls id 1000 [story_probe 0 4] NewGrpcStatus)))))) \<noteq> DEPENDENCY_STATUS_DOWN) \<and>
   (case StatusResponse_GetQueue (Some (fst (handler_Status id 1000 (story_probe 500 9)
      (snd (status_calls id 1000 [story_probe 0 4] NewGrpcStatus))))) of
      None \<Rightarrow> False
    | Some q \<Rightarrow> pqd_Pending q = 9 \<or> pqd_Pending q = 4)"
  using status_is_current [of id 1000 "story_probe 500 9" "[story_probe 0 4]"
      "fst (handler_Status id 1000 (story_probe 500 9) (snd (status_calls id 1000 [story_probe 0 4] NewGrpcStatus)))"
      "snd (handler_Status id 1000 (story_probe 500 9) (snd (status_calls id 1000 [story_probe 0 4] NewGrpcStatus)))"]
  by (auto simp: story_probe_def queueDepthToProto_def simp del: status_calls.simps split: option.splits)

end
