(* ===== verification/StatusOverlap.thy ===== *)
theory StatusOverlap
  imports StatusReport
begin

text \<open>
  \<open>internal/handlers/grpc.status.go\<close> under load. The mutex guards the two accesses to the cache, not the
  measurement between them nor the answer after them, so calls overlap: each reads the cache, those
  that find it stale measure side by side, each stores what it measured when it is done, and answers
  some time after. A step is one locked section, the end of a measurement that failed, or an answer.
\<close>

record status_state =
  ss_cache :: status_cache
  ss_measuring :: "probe list"
  ss_answering :: "(probe \<times> core_QueueDepth option) list"

definition status_start :: status_state where
  "status_start = \<lparr> ss_cache = NewGrpcStatus, ss_measuring = [], ss_answering = [] \<rparr>"

datatype 'd status_event =
    Hit probe
  | Missed probe
  | Failed probe
  | Stored probe
  | Answered probe "'d protogen_StatusResponse"

definition status_response :: "probe \<Rightarrow> 'd protogen_QueueDepth option \<Rightarrow> 'd protogen_StatusResponse" where
  "status_response pr queue =
     \<lparr> pst_Postgres = Some (NewGrpcHealthStatus (reportPostgres pr)), pst_Queue = queue \<rparr>"

lemma status_response_fields [simp]:
  "StatusResponse_GetQueue (Some (status_response pr queue)) = queue"
  "DependencyHealth_GetStatus (StatusResponse_GetPostgres (Some (status_response pr queue))) = DEPENDENCY_STATUS_DOWN \<longleftrightarrow>
     pr_context pr \<noteq> None \<or> pr_isDB pr \<and> pr_ping pr \<noteq> None"
  using reportPostgres_down [of pr]
  by (simp_all only: status_response_def StatusResponse_GetQueue_def StatusResponse_GetPostgres_def
      DependencyHealth_GetStatus_def getter_simps protogen_StatusResponse.select_convs health_down)

inductive status_step ::
  "(int64 \<Rightarrow> 'd) \<Rightarrow> int \<Rightarrow> status_state \<Rightarrow> 'd status_event \<Rightarrow> status_state \<Rightarrow> bool" for d ttl where
  hit: "cache_fresh ttl (pr_since pr) (ss_cache s) \<Longrightarrow>
     status_step d ttl s (Hit pr) (s\<lparr> ss_answering := (pr, sc_cached (ss_cache s)) # ss_answering s \<rparr>)"
| miss: "\<not> cache_fresh ttl (pr_since pr) (ss_cache s) \<Longrightarrow>
     status_step d ttl s (Missed pr) (s\<lparr> ss_measuring := pr # ss_measuring s \<rparr>)"
| failed: "pr \<in> set (ss_measuring s) \<Longrightarrow> pr_depth pr = Inl err \<Longrightarrow>
     status_step d ttl s (Failed pr)
       (s\<lparr> ss_measuring := remove1 pr (ss_measuring s), ss_answering := (pr, None) # ss_answering s \<rparr>)"
| stored: "pr \<in> set (ss_measuring s) \<Longrightarrow> pr_depth pr = Inr depth \<Longrightarrow>
     status_step d ttl s (Stored pr)
       (s\<lparr> ss_cache := \<lparr> sc_cached = Some depth, sc_cachedAt = pr_now pr \<rparr>,
          ss_measuring := remove1 pr (ss_measuring s), ss_answering := (pr, Some depth) # ss_answering s \<rparr>)"
| answered: "(pr, depth) \<in> set (ss_answering s) \<Longrightarrow>
     status_step d ttl s (Answered pr (status_response pr (map_option (queueDepthToProto d) depth)))
       (s\<lparr> ss_answering := remove1 (pr, depth) (ss_answering s) \<rparr>)"

inductive_cases status_step_answeredE: "status_step d ttl s (Answered pr r) s'"

inductive status_run ::
  "(int64 \<Rightarrow> 'd) \<Rightarrow> int \<Rightarrow> 'd status_event list \<Rightarrow> status_state \<Rightarrow> bool" for d ttl where
  start: "status_run d ttl [] status_start"
| step: "status_run d ttl es s \<Longrightarrow> status_step d ttl s ev s' \<Longrightarrow> status_run d ttl (es @ [ev]) s'"

text \<open>A call on its own is two steps or three: \<^const>\<open>handler_Status\<close>.\<close>

lemma status_run_answer:
  assumes "status_run d ttl es (s\<lparr> ss_answering := (pr, depth) # ss_answering s \<rparr>)"
  shows "status_run d ttl (es @ [Answered pr (status_response pr (map_option (queueDepthToProto d) depth))]) s"
  using status_run.step [OF assms status_step.answered, of pr depth] by simp

lemma handler_Status_steps:
  assumes "status_run d ttl es s" "ss_cache s = c" "handler_Status d ttl pr c = (r, c')"
  shows "\<exists>es' s'. status_run d ttl (es @ es' @ [Answered pr r]) s' \<and> ss_cache s' = c'"
proof (cases "cache_fresh ttl (pr_since pr) c")
  case True
  then have r: "r = status_response pr (map_option (queueDepthToProto d) (sc_cached c))" "c' = c"
    using assms(3) by (auto simp: handler_Status_def reportQueueDepth_def status_response_def cache_fresh_def)
  have "status_run d ttl (es @ [Hit pr]) (s\<lparr> ss_answering := (pr, sc_cached c) # ss_answering s \<rparr>)"
    using status_run.step [OF assms(1) status_step.hit] True assms(2) by simp
  from status_run_answer [OF this] have "status_run d ttl (es @ [Hit pr] @ [Answered pr r]) s" by (simp add: r)
  then show ?thesis using assms(2) r(2) by blast
next
  case False
  let ?m = "s\<lparr> ss_measuring := pr # ss_measuring s \<rparr>"
  have m: "status_run d ttl (es @ [Missed pr]) ?m"
    by (rule status_run.step [OF assms(1) status_step.miss]) (use False assms(2) in simp)
  show ?thesis
  proof (cases "pr_depth pr")
    case (Inl err)
    then have r: "r = status_response pr None" "c' = c"
      using assms(3) False by (auto simp: handler_Status_def reportQueueDepth_def status_response_def)
    from status_run.step [OF m status_step.failed [OF _ Inl]]
    have "status_run d ttl (es @ [Missed pr, Failed pr]) (s\<lparr> ss_answering := (pr, None) # ss_answering s \<rparr>)" by simp
    from status_run_answer [OF this] have "status_run d ttl (es @ [Missed pr, Failed pr] @ [Answered pr r]) s"
      by (simp add: r)
    then show ?thesis using assms(2) r(2) by blast
  next
    case (Inr depth)
    then have r: "r = status_response pr (Some (queueDepthToProto d depth))"
      "c' = \<lparr> sc_cached = Some depth, sc_cachedAt = pr_now pr \<rparr>"
      using assms(3) False by (auto simp: handler_Status_def reportQueueDepth_def status_response_def)
    let ?s = "s\<lparr> ss_cache := c' \<rparr>"
    from status_run.step [OF m status_step.stored [OF _ Inr]]
    have "status_run d ttl (es @ [Missed pr, Stored pr]) (?s\<lparr> ss_answering := (pr, Some depth) # ss_answering ?s \<rparr>)"
      by (simp add: r)
    from status_run_answer [OF this] have "status_run d ttl (es @ [Missed pr, Stored pr] @ [Answered pr r]) ?s"
      by (simp add: r)
    then show ?thesis by fastforce
  qed
qed

section \<open>Where an answer comes from\<close>

text \<open>What the cache holds was stored by a call.\<close>

definition cache_of :: "'d status_event list \<Rightarrow> status_cache \<Rightarrow> bool" where
  "cache_of es c \<longleftrightarrow>
     (case sc_cached c of
        None \<Rightarrow> True
      | Some depth \<Rightarrow> \<exists>pr. Stored pr \<in> set es \<and> pr_depth pr = Inr depth \<and> pr_now pr = sc_cachedAt c)"

text \<open>
  What a call is about to report it has measured, or it found it fresh in the cache, where some call
  had stored it before.
\<close>

definition reported_of :: "int \<Rightarrow> 'd status_event list \<Rightarrow> probe \<Rightarrow> core_QueueDepth option \<Rightarrow> bool" where
  "reported_of ttl es pr reported \<longleftrightarrow>
     (case reported of
        None \<Rightarrow> \<exists>err. pr_depth pr = Inl err
      | Some depth \<Rightarrow> pr_depth pr = Inr depth \<or>
          (\<exists>old before after. es = before @ Hit pr # after \<and> Stored old \<in> set before \<and>
             pr_depth old = Inr depth \<and> pr_since pr - pr_now old < ttl))"

lemma cache_of_mono: "cache_of es c \<Longrightarrow> set es \<subseteq> set es' \<Longrightarrow> cache_of es' c"
  by (auto simp: cache_of_def split: option.splits)

lemma reported_of_mono: "reported_of ttl es pr reported \<Longrightarrow> reported_of ttl (es @ [ev]) pr reported"
  unfolding reported_of_def by (cases reported) (auto, metis append.assoc append_Cons)

definition status_inv :: "int \<Rightarrow> 'd status_event list \<Rightarrow> status_state \<Rightarrow> bool" where
  "status_inv ttl es s \<longleftrightarrow>
     cache_of es (ss_cache s) \<and> (\<forall>(pr, reported)\<in>set (ss_answering s). reported_of ttl es pr reported)"

lemma status_step_inv:
  assumes "status_step d ttl s ev s'" "status_inv ttl es s"
  shows "status_inv ttl (es @ [ev]) s'"
proof -
  have "cache_of (es @ [ev]) (ss_cache s)"
    using assms(2) cache_of_mono [of es "ss_cache s" "es @ [ev]"] by (auto simp: status_inv_def)
  moreover have "reported_of ttl (es @ [ev]) pr reported" if "(pr, reported) \<in> set (ss_answering s)" for pr reported
    using that assms(2) by (intro reported_of_mono) (auto simp: status_inv_def)
  ultimately have kept: "cache_of (es @ [ev]) (ss_cache s)"
    "\<And>pr reported. (pr, reported) \<in> set (ss_answering s) \<Longrightarrow> reported_of ttl (es @ [ev]) pr reported"
    by blast+
  from assms(1) show ?thesis
  proof cases
    case (hit pr)
    then obtain depth where depth: "sc_cached (ss_cache s) = Some depth" "pr_since pr - sc_cachedAt (ss_cache s) < ttl"
      by (auto simp: cache_fresh_def)
    moreover from this(1) obtain old where "Stored old \<in> set es" "pr_depth old = Inr depth"
      "pr_now old = sc_cachedAt (ss_cache s)"
      using assms(2) by (auto simp: status_inv_def cache_of_def)
    ultimately have "\<exists>old before after. es @ [Hit pr] = before @ Hit pr # after \<and> Stored old \<in> set before \<and>
        pr_depth old = Inr depth \<and> pr_since pr - pr_now old < ttl" by metis
    then have "reported_of ttl (es @ [ev]) pr (Some depth)" using hit(1) by (simp add: reported_of_def)
    then show ?thesis using kept hit depth(1) by (auto simp: status_inv_def)
  next
    case (miss pr)
    then show ?thesis using kept by (auto simp: status_inv_def)
  next
    case (failed pr err)
    then have "reported_of ttl (es @ [ev]) pr None" by (simp add: reported_of_def)
    then show ?thesis using kept failed by (auto simp: status_inv_def)
  next
    case (stored pr depth)
    then have "reported_of ttl (es @ [ev]) pr (Some depth)" "cache_of (es @ [ev]) (ss_cache s')"
      by (auto simp: reported_of_def cache_of_def)
    then show ?thesis using kept(2) stored(2) by (auto simp: status_inv_def)
  next
    case (answered pr depth)
    then show ?thesis using kept by (auto simp: status_inv_def dest: subsetD [OF set_remove1_subset])
  qed
qed

lemma status_run_inv: "status_run d ttl es s \<Longrightarrow> status_inv ttl es s"
proof (induction rule: status_run.induct)
  case start
  then show ?case by (simp add: status_inv_def cache_of_def status_start_def NewGrpcStatus_def)
qed (rule status_step_inv)

text \<open>
  C39: the status surface is never staler than its cache allows, however its calls overlap. An answer
  reports the database down exactly if it could not be reached in that very call. A backlog in it
  was measured by that call, or the call found it in the cache, where another had stored it less than
  the TTL before the call looked; an answer without a backlog means that its own measurement failed.
\<close>

theorem overlapping_status_is_current:
  fixes d :: "int64 \<Rightarrow> 'd"
  assumes "status_run d ttl es s" "status_step d ttl s (Answered pr r) s'"
  shows "(DependencyHealth_GetStatus (StatusResponse_GetPostgres (Some r)) = DEPENDENCY_STATUS_DOWN \<longleftrightarrow>
      pr_context pr \<noteq> None \<or> pr_isDB pr \<and> pr_ping pr \<noteq> None) \<and>
    (case StatusResponse_GetQueue (Some r) of
       None \<Rightarrow> \<exists>err. pr_depth pr = Inl err
     | Some q \<Rightarrow> \<exists>depth. q = queueDepthToProto d depth \<and>
         (pr_depth pr = Inr depth \<or>
          (\<exists>old before after. es = before @ Hit pr # after \<and> Stored old \<in> set before \<and>
             pr_depth old = Inr depth \<and> pr_since pr - pr_now old < ttl)))"
proof -
  obtain reported where r: "r = status_response pr (map_option (queueDepthToProto d) reported)"
    "(pr, reported) \<in> set (ss_answering s)"
    using assms(2) by (rule status_step_answeredE) blast
  then have "reported_of ttl es pr reported"
    using status_run_inv [OF assms(1)] by (auto simp: status_inv_def)
  then show ?thesis by (cases reported) (auto simp: r(1) reported_of_def)
qed

text \<open>
  The witness: two calls measure side by side; a third takes what the first has stored, and answers
  before it does.
\<close>

lemma overlapping_status_is_current_witness:
  "\<exists>es s s' r. status_run (\<lambda>n. n) 1000 es s \<and> (\<forall>pr r. Answered pr r \<notin> set es) \<and>
     status_step (\<lambda>n. n) 1000 s (Answered (story_probe 600 0) r) s' \<and>
     StatusResponse_GetQueue (Some r) = Some (queueDepthToProto (\<lambda>n. n) \<lparr> qd_Pending = 9, qd_OldestPendingAge = None \<rparr>)"
proof -
  let ?a = "story_probe 500 9" and ?b = "story_probe 501 8" and ?c = "story_probe 600 0"
  let ?d = "\<lparr> qd_Pending = 9, qd_OldestPendingAge = None \<rparr> :: core_QueueDepth"
  let ?s2 = "\<lparr> ss_cache = NewGrpcStatus, ss_measuring = [?b, ?a], ss_answering = [] \<rparr>"
  let ?s3 = "\<lparr> ss_cache = \<lparr> sc_cached = Some ?d, sc_cachedAt = 500 \<rparr>, ss_measuring = [?b], ss_answering = [(?a, Some ?d)] \<rparr>"
  let ?s4 = "?s3\<lparr> ss_answering := [(?c, Some ?d), (?a, Some ?d)] \<rparr>"
  let ?r = "status_response ?c (Some (queueDepthToProto (\<lambda>n. n) ?d))"
  have stale: "\<not> cache_fresh 1000 t NewGrpcStatus" for t by (simp add: cache_fresh_def NewGrpcStatus_def)
  have two: "status_run (\<lambda>n. n) 1000 (([] @ [Missed ?a]) @ [Missed ?b]) ?s2"
    using status_run.step [OF status_run.step [OF status_run.start status_step.miss] status_step.miss, of 1000 ?a ?b "\<lambda>n. n"]
    by (simp add: status_start_def stale)
  have "?b \<noteq> ?a" by (simp add: story_probe_def)
  then have stored: "status_step (\<lambda>n. n) 1000 ?s2 (Stored ?a) ?s3"
    using status_step.stored [of ?a ?s2 ?d "\<lambda>n. n" 1000] by (simp add: story_probe_def)
  have hit: "status_step (\<lambda>n. n) 1000 ?s3 (Hit ?c) ?s4"
    using status_step.hit [of 1000 ?c ?s3 "\<lambda>n. n"] by (simp add: cache_fresh_def story_probe_def)
  note run = status_run.step [OF status_run.step [OF two stored] hit]
  have answered: "status_step (\<lambda>n. n) 1000 ?s4 (Answered ?c ?r) ?s3"
    using status_step.answered [of ?c "Some ?d" ?s4 "\<lambda>n. n" 1000] by simp
  have "StatusResponse_GetQueue (Some ?r) = Some (queueDepthToProto (\<lambda>n. n) ?d)"
    using overlapping_status_is_current [OF run answered] by simp
  then show ?thesis using run answered by (intro exI conjI) (assumption | simp)+
qed

end
