(* ===== verification/Float64.thy ===== *)
theory Float64
  imports Complex_Main Prelude "HOL-Library.Log_Nat"
begin

text \<open>
  The arithmetic of Go's \<open>float64\<close> that the source computes with: IEEE 754 binary64, every
  operation the exact result rounded to the nearest representable number, ties to the even one.
  A float is the rational number it stands for. Infinities, NaN and the sign of zero have no
  place here: every value the source forms is far below \<open>2 ^ 1024\<close>, and it divides by nothing
  but constants.
\<close>

section \<open>Rounding\<close>

text \<open>The exponent of a positive rational: the largest power of two below it.\<close>

definition exponent2 :: "rat \<Rightarrow> int" where
  "exponent2 x =
     (let (p, q) = quotient_of x; k = bitlen p - bitlen q in if 2 powi k \<le> x then k else k - 1)"

text \<open>The nearest integer, and of two equally near ones the even one.\<close>

definition half_even :: "rat \<Rightarrow> int" where
  "half_even x =
     (let n = \<lfloor>x\<rfloor>; r = x - of_int n in
      if r < 1 / 2 then n else if 1 / 2 < r then n + 1 else n + n mod 2)"

text \<open>
  The unit in the last place of 53 significant bits, which below the normal range stays
  \<open>2 powi - 1074\<close>.
\<close>

definition ulp64 :: "rat \<Rightarrow> rat" where
  "ulp64 x = 2 powi (max (exponent2 \<bar>x\<bar> - 52) (- 1074))"

definition float64 :: "rat \<Rightarrow> rat" where
  "float64 x = (if x = 0 then 0 else of_int (half_even (x / ulp64 x)) * ulp64 x)"

text \<open>\<open>int64(f)\<close> of a float drops the fraction; the result of one out of range is the platform's.\<close>

definition float_trunc :: "rat \<Rightarrow> int" where
  "float_trunc f = (if 0 \<le> f then \<lfloor>f\<rfloor> else \<lceil>f\<rceil>)"

definition int64_of_float :: "(rat \<Rightarrow> int64) \<Rightarrow> rat \<Rightarrow> int64" where
  "int64_of_float overflow f =
     (if - (2 ^ 63) \<le> float_trunc f \<and> float_trunc f < 2 ^ 63 then word_of_int (float_trunc f) else overflow f)"

lemma sint_word64: "- (2 ^ 63) \<le> n \<Longrightarrow> n < 2 ^ 63 \<Longrightarrow> sint (word_of_int n :: int64) = n"
  by (simp add: sint_sbintrunc' signed_take_bit_int_eq_self_iff)

section \<open>How far rounding moves a number\<close>

lemma exponent2_bounds:
  assumes "0 < x"
  shows "2 powi (exponent2 x) \<le> x" and "x < 2 powi (exponent2 x + 1)"
proof -
  obtain p q where pq: "quotient_of x = (p, q)" by (cases "quotient_of x")
  have q: "0 < q" using quotient_of_denom_pos [OF pq] .
  have x: "x = of_int p / of_int q" by (rule quotient_of_div [OF pq])
  have p: "0 < p" using assms q by (simp add: x zero_less_divide_iff)
  define k where "k = bitlen p - bitlen q"
  have pb: "1 \<le> bitlen p" "1 \<le> bitlen q"
    using p q bitlen_nonneg [of p] bitlen_nonneg [of q] bitlen_eq_zero_iff [of p] bitlen_eq_zero_iff [of q]
    by linarith+
  have scale: "2 powi (bitlen n - 1) \<le> (of_int n :: rat) \<and> (of_int n :: rat) < 2 powi bitlen n"
    if n: "0 < n" "1 \<le> bitlen n" for n
  proof -
    have pow: "(2::rat) powi m = of_int (2 ^ nat m)" if "0 \<le> m" for m
      using that by (simp add: power_int_def)
    have "2 powi (bitlen n - 1) = (of_int (2 ^ nat (bitlen n - 1)) :: rat)"
      "2 powi bitlen n = (of_int (2 ^ nat (bitlen n)) :: rat)"
      using n(2) by (simp_all only: pow)
    then show ?thesis using bitlen_bounds [OF n(1)] by (simp only: of_int_le_iff of_int_less_iff)
  qed
  note P = scale [OF p pb(1)] and Q = scale [OF q pb(2)]
  have up: "x < 2 powi (k + 1)"
  proof -
    have "(2::rat) powi bitlen p = 2 powi (k + 1) * 2 powi (bitlen q - 1)"
      by (simp add: k_def flip: power_int_add)
    also have "\<dots> \<le> 2 powi (k + 1) * of_int q"
      by (rule mult_left_mono) (use Q in simp_all)
    finally have "of_int p < 2 powi (k + 1) * (of_int q :: rat)" using P by linarith
    then show ?thesis using q by (simp add: x pos_divide_less_eq)
  qed
  have low: "2 powi (k - 1) \<le> x"
  proof -
    have "(2::rat) powi (k - 1) * of_int q \<le> 2 powi (k - 1) * 2 powi bitlen q"
      by (rule mult_left_mono) (use Q in simp_all)
    also have "\<dots> = 2 powi (bitlen p - 1)"
      by (simp add: k_def flip: power_int_add)
    finally have "2 powi (k - 1) * of_int q \<le> (of_int p :: rat)" using P by linarith
    then show ?thesis using q by (simp add: x pos_le_divide_eq)
  qed
  have e: "exponent2 x = (if 2 powi k \<le> x then k else k - 1)"
    by (simp add: exponent2_def pq k_def)
  show "2 powi (exponent2 x) \<le> x" using low by (simp add: e)
  show "x < 2 powi (exponent2 x + 1)" using up by (simp add: e not_le)
qed

lemma half_even_near: "\<bar>of_int (half_even x) - x\<bar> \<le> 1 / 2"
proof -
  define r where "r = x - of_int \<lfloor>x\<rfloor>"
  have r: "0 \<le> r" "r < 1" by (simp_all add: r_def) linarith
  have "r = 1 / 2 \<Longrightarrow> \<lfloor>x\<rfloor> mod 2 = 0 \<or> \<lfloor>x\<rfloor> mod 2 = 1" by presburger
  then show ?thesis
    using r by (auto simp: half_even_def Let_def r_def abs_le_iff field_simps split: if_splits)
qed

lemma half_even_of_int [simp]: "half_even (of_int n) = n"
  by (simp add: half_even_def)

lemma ulp64_pos [simp]: "0 < ulp64 x"
  unfolding ulp64_def by (rule zero_less_power_int) simp

lemma ulp64_nonzero [simp]: "ulp64 x \<noteq> 0" "0 \<le> ulp64 x"
  by (rule less_imp_neq [OF ulp64_pos, symmetric], rule less_imp_le [OF ulp64_pos])

lemma float64_zero [simp]: "float64 0 = 0"
  by (simp add: float64_def)

lemma float64_near: "\<bar>float64 x - x\<bar> \<le> ulp64 x / 2"
proof (cases "x = 0")
  case True
  then show ?thesis by simp
next
  case False
  have "float64 x - x = (of_int (half_even (x / ulp64 x)) - x / ulp64 x) * ulp64 x"
    by (simp add: float64_def False left_diff_distrib)
  then have "\<bar>float64 x - x\<bar> = \<bar>of_int (half_even (x / ulp64 x)) - x / ulp64 x\<bar> * ulp64 x"
    by (simp add: abs_mult)
  also have "\<dots> \<le> 1 / 2 * ulp64 x"
    by (rule mult_right_mono [OF half_even_near]) (simp add: less_imp_le)
  finally show ?thesis by simp
qed

text \<open>In the normal range the relative error is at most \<open>2 powi - 53\<close>.\<close>

lemma ulp64_le:
  assumes "2 powi (- 1022) \<le> \<bar>x\<bar>"
  shows "ulp64 x \<le> \<bar>x\<bar> / 2 ^ 52"
proof -
  have pos: "0 < \<bar>x\<bar>" using assms by (rule less_le_trans [rotated]) simp
  have "(2::rat) powi (- 1022) < 2 powi (exponent2 \<bar>x\<bar> + 1)"
    using assms exponent2_bounds(2) [OF pos] by linarith
  then have "- 1022 < exponent2 \<bar>x\<bar> + 1"
    by (meson linorder_not_less one_le_numeral power_int_increasing)
  then have "max (exponent2 \<bar>x\<bar> - 52) (- 1074) = exponent2 \<bar>x\<bar> - 52" by linarith
  then have "ulp64 x = 2 powi (exponent2 \<bar>x\<bar> - 52)" by (simp only: ulp64_def)
  also have "\<dots> = 2 powi (exponent2 \<bar>x\<bar>) / 2 ^ 52"
    by (simp add: power_int_diff)
  also have "\<dots> \<le> \<bar>x\<bar> / 2 ^ 52"
    by (rule divide_right_mono [OF exponent2_bounds(1) [OF pos]]) simp
  finally show ?thesis .
qed

lemma float64_rel:
  assumes "2 powi (- 1022) \<le> \<bar>x\<bar>"
  shows "\<bar>float64 x - x\<bar> \<le> \<bar>x\<bar> / 2 ^ 53"
  using float64_near [of x] ulp64_le [OF assms] by simp

lemma tiny_le: "c \<le> \<bar>x\<bar> \<Longrightarrow> 2 powi (- 1022) \<le> c \<Longrightarrow> 2 powi (- 1022) \<le> \<bar>x\<bar>" for x :: rat
  by simp

end
