(* ===== verification/Backlog.thy ===== *)
theory Backlog
  imports CoreQueue StatusReport Float64
begin

text \<open>
  The two probes of the backlog: \<open>internal/dao/pg.jobQueueDepth\<close>, which the status surface reads,
  and \<open>internal/dao/pg.jobCountPending\<close>, with their services in \<open>internal/core\<close>. Both read the
  table and leave it alone. The age of the oldest job leaves the database as a decimal number of
  seconds, is scanned into a \<open>float64\<close> and multiplied back into nanoseconds; what the platform
  makes of a float no \<open>int64\<close> holds is the parameter \<open>overflow\<close>.
\<close>

section \<open>The aggregates\<close>

text \<open>
  \<open>min(run_at)\<close> is null over no rows. \<open>clock_timestamp() - min(run_at)\<close> is read once, when the
  rows have been counted; an interval is a number of microseconds.
\<close>

definition oldest_age :: "stmt \<Rightarrow> job list \<Rightarrow> time option" where
  "oldest_age e rows =
     (if rows = [] then None else Some (st_clock e 0 1 - Min (set (map job_RunAt rows))))"

definition depth_due :: "stmt \<Rightarrow> job \<Rightarrow> bool" where
  "depth_due e r \<longleftrightarrow> job_Status r = JobStatusPending \<and> job_RunAt r \<le> st_clock e (job_ID r) 0"

definition sql_jobQueueDepth :: "stmt \<Rightarrow> table \<Rightarrow> (int64 \<times> time option) outcome" where
  "sql_jobQueueDepth e t =
     (let rows = filter (depth_due e) t in (Inr (word_of_nat (length rows), oldest_age e rows), t))"

text \<open>The other query has no \<open>run_at\<close> in its WHERE clause, and coalesces a null age to zero.\<close>

definition sql_jobCountPending :: "stmt \<Rightarrow> table \<Rightarrow> (int64 \<times> time) outcome" where
  "sql_jobCountPending e t =
     (let rows = filter (\<lambda>r. job_Status r = JobStatusPending) t in
      (Inr (word_of_nat (length rows), case oldest_age e rows of None \<Rightarrow> 0 | Some age \<Rightarrow> age), t))"

section \<open>From an interval to a duration\<close>

text \<open>
  \<open>extract(epoch FROM \<dots>)\<close> is exact to the microsecond; parsing it into a \<open>float64\<close> rounds, and so
  does the multiplication by \<open>float64(time.Second)\<close>.
\<close>

definition epoch_seconds :: "time \<Rightarrow> rat" where
  "epoch_seconds micros = float64 (of_int micros / 1000000)"

definition seconds_Duration :: "(rat \<Rightarrow> int64) \<Rightarrow> rat \<Rightarrow> int64" where
  "seconds_Duration overflow seconds = int64_of_float overflow (float64 (seconds * 1000000000))"

definition age_Duration :: "(rat \<Rightarrow> int64) \<Rightarrow> time \<Rightarrow> int64" where
  "age_Duration overflow micros = seconds_Duration overflow (epoch_seconds micros)"

section \<open>The data-access objects and the services\<close>

record dao_QueueDepth =
  dqd_Pending :: int64
  dqd_OldestPendingAge :: "int64 option"

definition dao_JobQueueDepth_Exec :: "(rat \<Rightarrow> int64) \<Rightarrow> stmt \<Rightarrow> table \<Rightarrow> dao_QueueDepth outcome" where
  "dao_JobQueueDepth_Exec overflow e =
     dao_query e (\<lambda>err. err)
       (\<lambda>(pending, age). Inr \<lparr> dqd_Pending = pending,
                               dqd_OldestPendingAge = map_option (age_Duration overflow) age \<rparr>)
       (sql_jobQueueDepth e)"

definition dao_NewJobQueueDepth :: "(rat \<Rightarrow> int64) \<Rightarrow> stmt \<Rightarrow> table \<Rightarrow> dao_QueueDepth outcome" where
  "dao_NewJobQueueDepth overflow = dao_JobQueueDepth_Exec overflow"

record dao_JobPendingStats =
  djp_Pending :: int64
  djp_OldestAge :: int64

definition dao_JobCountPending_Exec :: "(rat \<Rightarrow> int64) \<Rightarrow> stmt \<Rightarrow> table \<Rightarrow> dao_JobPendingStats outcome" where
  "dao_JobCountPending_Exec overflow e =
     dao_query e (\<lambda>err. err)
       (\<lambda>(pending, age). Inr \<lparr> djp_Pending = pending, djp_OldestAge = age_Duration overflow age \<rparr>)
       (sql_jobCountPending e)"

definition dao_NewJobCountPending :: "(rat \<Rightarrow> int64) \<Rightarrow> stmt \<Rightarrow> table \<Rightarrow> dao_JobPendingStats outcome" where
  "dao_NewJobCountPending overflow = dao_JobCountPending_Exec overflow"

type_synonym ('c, 's) JobQueueDepthDao = "'c \<Rightarrow> 's \<Rightarrow> (gerr + dao_QueueDepth) \<times> 's"

record ('c, 's) core_JobQueueDepth =
  sjq_dao :: "('c, 's) JobQueueDepthDao"

definition core_NewJobQueueDepth :: "('c, 's) JobQueueDepthDao \<Rightarrow> ('c, 's) core_JobQueueDepth" where
  "core_NewJobQueueDepth dao = \<lparr> sjq_dao = dao \<rparr>"

definition core_JobQueueDepth_Exec :: "('c, 's) core_JobQueueDepth \<Rightarrow> 'c \<Rightarrow> 's \<Rightarrow> (gerr + core_QueueDepth) \<times> 's" where
  "core_JobQueueDepth_Exec service ctx s =
     via_dao (Wrapf ''measure queue depth'')
       (\<lambda>depth. Inr \<lparr> qd_Pending = dqd_Pending depth, qd_OldestPendingAge = dqd_OldestPendingAge depth \<rparr>)
       (sjq_dao service ctx s)"

definition JobQueueDepth_Exec :: "(rat \<Rightarrow> int64) \<Rightarrow> stmt \<Rightarrow> table \<Rightarrow> core_QueueDepth outcome" where
  "JobQueueDepth_Exec overflow = core_JobQueueDepth_Exec (core_NewJobQueueDepth (dao_NewJobQueueDepth overflow))"

lemma JobQueueDepth_Exec_eq:
  "JobQueueDepth_Exec overflow e t =
     via_dao (Wrapf ''measure queue depth'')
       (\<lambda>depth. Inr \<lparr> qd_Pending = dqd_Pending depth, qd_OldestPendingAge = dqd_OldestPendingAge depth \<rparr>)
       (dao_JobQueueDepth_Exec overflow e t)"
  by (simp add: JobQueueDepth_Exec_def core_JobQueueDepth_Exec_def core_NewJobQueueDepth_def dao_NewJobQueueDepth_def)

record core_JobPendingStats =
  cjp_Pending :: int64
  cjp_OldestAge :: int64

type_synonym ('c, 's) JobCountPendingDao = "'c \<Rightarrow> 's \<Rightarrow> (gerr + dao_JobPendingStats) \<times> 's"

record ('c, 's) core_JobCountPending =
  sjp_dao :: "('c, 's) JobCountPendingDao"

definition core_NewJobCountPending :: "('c, 's) JobCountPendingDao \<Rightarrow> ('c, 's) core_JobCountPending" where
  "core_NewJobCountPending dao = \<lparr> sjp_dao = dao \<rparr>"

definition core_JobCountPending_Exec :: "('c, 's) core_JobCountPending \<Rightarrow> 'c \<Rightarrow> 's \<Rightarrow> (gerr + core_JobPendingStats) \<times> 's" where
  "core_JobCountPending_Exec service ctx s =
     via_dao (Wrapf ''count pending jobs'')
       (\<lambda>stats. Inr \<lparr> cjp_Pending = djp_Pending stats, cjp_OldestAge = djp_OldestAge stats \<rparr>)
       (sjp_dao service ctx s)"

definition JobCountPending_Exec :: "(rat \<Rightarrow> int64) \<Rightarrow> stmt \<Rightarrow> table \<Rightarrow> core_JobPendingStats outcome" where
  "JobCountPending_Exec overflow = core_JobCountPending_Exec (core_NewJobCountPending (dao_NewJobCountPending overflow))"

lemma JobCountPending_Exec_eq:
  "JobCountPending_Exec overflow e t =
     via_dao (Wrapf ''count pending jobs'')
       (\<lambda>stats. Inr \<lparr> cjp_Pending = djp_Pending stats, cjp_OldestAge = djp_OldestAge stats \<rparr>)
       (dao_JobCountPending_Exec overflow e t)"
  by (simp add: JobCountPending_Exec_def core_JobCountPending_Exec_def core_NewJobCountPending_def dao_NewJobCountPending_def)

section \<open>Reads\<close>

lemma snd_sql_jobQueueDepth [simp]: "snd (sql_jobQueueDepth e t) = t"
  by (simp add: sql_jobQueueDepth_def Let_def)

lemma snd_sql_jobCountPending [simp]: "snd (sql_jobCountPending e t) = t"
  by (simp add: sql_jobCountPending_def Let_def)

lemma snd_JobQueueDepth_Exec [simp]: "snd (JobQueueDepth_Exec overflow e t) = t"
  using dao_query_table [where q = "sql_jobQueueDepth e" and t = t]
  by (simp add: JobQueueDepth_Exec_eq dao_JobQueueDepth_Exec_def)

lemma snd_JobCountPending_Exec [simp]: "snd (JobCountPending_Exec overflow e t) = t"
  using dao_query_table [where q = "sql_jobCountPending e" and t = t]
  by (simp add: JobCountPending_Exec_eq dao_JobCountPending_Exec_def)

interpretation depth_service: table_op "JobQueueDepth_Exec overflow e"
  for overflow e
  by (rule table_op_read) simp

interpretation count_service: table_op "JobCountPending_Exec overflow e"
  for overflow e
  by (rule table_op_read) simp

lemma JobQueueDepth_Exec_ok:
  assumes "undisturbed e"
  shows "JobQueueDepth_Exec overflow e t =
    (Inr \<lparr> qd_Pending = word_of_nat (length (filter (depth_due e) t)),
           qd_OldestPendingAge = map_option (age_Duration overflow) (oldest_age e (filter (depth_due e) t)) \<rparr>, t)"
  using assms
  by (simp add: JobQueueDepth_Exec_eq dao_JobQueueDepth_Exec_def dao_query_delivered undisturbedD
      sql_jobQueueDepth_def Let_def)

lemma JobCountPending_Exec_ok:
  assumes "undisturbed e"
  shows "JobCountPending_Exec overflow e t =
    (Inr \<lparr> cjp_Pending = word_of_nat (length (filter (\<lambda>r. job_Status r = JobStatusPending) t)),
           cjp_OldestAge = age_Duration overflow
             (case oldest_age e (filter (\<lambda>r. job_Status r = JobStatusPending) t) of
                None \<Rightarrow> 0 | Some age \<Rightarrow> age) \<rparr>, t)"
  using assms
  by (simp add: JobCountPending_Exec_eq dao_JobCountPending_Exec_def dao_query_delivered undisturbedD
      sql_jobCountPending_def Let_def)

section \<open>How exact the age is\<close>

text \<open>Two roundings to 53 bits and a truncation.\<close>

lemma float64_rel_nonneg:
  assumes "2 powi (- 1022) \<le> x"
  shows "\<bar>float64 x - x\<bar> \<le> x / 2 ^ 53"
proof -
  have "0 \<le> x" using assms by (rule order_trans [rotated]) simp
  then show ?thesis using float64_rel [of x] assms by simp
qed

lemma age_float_near:
  assumes "0 \<le> micros"
  shows "\<bar>float64 (epoch_seconds micros * 1000000000) - of_int (1000 * micros)\<bar> \<le> of_int micros / 2 ^ 42"
proof (cases "micros = 0")
  case True
  then show ?thesis by (simp add: epoch_seconds_def)
next
  case False
  define u :: rat where "u = of_int micros"
  have u: "1 \<le> u" using assms False by (simp add: u_def)
  have "(2::rat) powi (- 1022) \<le> 2 powi (- 20)" by (rule power_int_increasing) simp_all
  then have tiny: "(2::rat) powi (- 1022) \<le> 1 / 1000000" by (rule order_trans) (simp add: power_int_def power_divide)
  define s where "s = epoch_seconds micros"
  have s: "\<bar>s - u / 1000000\<bar> \<le> u / 1000000 / 2 ^ 53"
    unfolding s_def epoch_seconds_def u_def [symmetric]
    by (rule float64_rel_nonneg) (use u tiny in simp)
  have bounds: "u / 1000000 - u / 1000000 / 2 ^ 53 \<le> s" "s \<le> u / 1000000 + u / 1000000 / 2 ^ 53"
    using s by linarith+
  have sbig: "1 \<le> s * 1000000000" using bounds(1) u by simp
  have "\<bar>float64 (s * 1000000000) - s * 1000000000\<bar> \<le> s * 1000000000 / 2 ^ 53"
    by (rule float64_rel_nonneg) (use sbig tiny in simp)
  then have f: "float64 (s * 1000000000) - s * 1000000000 \<le> s * 1000000000 / 2 ^ 53"
    "s * 1000000000 - float64 (s * 1000000000) \<le> s * 1000000000 / 2 ^ 53"
    by linarith+
  have "float64 (s * 1000000000) - 1000 * u \<le> u / 2 ^ 42" "1000 * u - float64 (s * 1000000000) \<le> u / 2 ^ 42"
    using bounds f u by simp_all
  then have "\<bar>float64 (s * 1000000000) - 1000 * u\<bar> \<le> u / 2 ^ 42" by (intro abs_leI) linarith+
  then show ?thesis by (simp add: s_def u_def)
qed

lemma float_trunc_near: "\<bar>of_int (float_trunc f) - f\<bar> < 1"
  unfolding float_trunc_def by (cases "0 \<le> f") (simp, linarith, simp, linarith)

lemma age_Duration_near:
  assumes "0 \<le> micros" "micros \<le> 9 * 10 ^ 15"
  shows "\<bar>sint (age_Duration overflow micros) - 1000 * micros\<bar> \<le> 1 + micros div 2 ^ 42"
proof -
  define f where "f = float64 (epoch_seconds micros * 1000000000)"
  define n where "n = float_trunc f"
  have near: "\<bar>of_int n - of_int (1000 * micros)\<bar> < 1 + (of_int micros / 2 ^ 42 :: rat)"
    using age_float_near [OF assms(1)] float_trunc_near [of f] unfolding f_def [symmetric] n_def by linarith
  define d where "d = micros div 2 ^ 42"
  have "micros < 2 ^ 42 * (d + 1)" unfolding d_def by simp
  then have "(of_int micros :: rat) < of_int (2 ^ 42 * (d + 1))" by (simp only: of_int_less_iff)
  then have "(of_int micros / 2 ^ 42 :: rat) < of_int d + 1" by simp
  then have "(of_int \<bar>n - 1000 * micros\<bar> :: rat) < of_int (2 + d)"
    using near by simp
  then have close: "\<bar>n - 1000 * micros\<bar> \<le> 1 + micros div 2 ^ 42"
    unfolding of_int_less_iff by (simp add: d_def)
  moreover have "micros div 2 ^ 42 \<le> 9 * 10 ^ 15 div 2 ^ 42"
    by (rule zdiv_mono1 [OF assms(2)]) simp
  ultimately have range: "- (2 ^ 63) \<le> n" "n < 2 ^ 63"
    using assms by (simp_all add: abs_le_iff)
  then have "age_Duration overflow micros = word_of_int n"
    by (simp add: age_Duration_def seconds_Duration_def int64_of_float_def f_def n_def)
  moreover have "sint (word_of_int n :: int64) = n"
    by (rule sint_word64 [OF range])
  ultimately show ?thesis using close by simp
qed

end
