(* ===== verification/BacklogSpec.thy ===== *)
theory BacklogSpec
  imports Backlog ClaimSpec
begin

text \<open>
  What the backlog the status surface reports is worth to whoever scales the workers: it is what
  they could claim at that instant. The other probe, which no entrypoint serves, measures
  something else.
\<close>

section \<open>The depth is the work available\<close>

lemma depth_due_claim_due:
  assumes "clock_within e now now" "clock_within e' now now" "job_Kind r \<in> set kinds"
  shows "depth_due e r \<longleftrightarrow> claim_due e' kinds r"
proof -
  have "st_clock e (job_ID r) 0 = now" "st_clock e' (job_ID r) 0 = now"
    using clock_within_bounds(1,2) [OF assms(1)] clock_within_bounds(1,2) [OF assms(2)] by (meson order_antisym)+
  then show ?thesis using assms(3) by (simp add: depth_due_def claim_due_def)
qed

lemma oldest_age_cases [consumes 1, case_names none oldest]:
  assumes "clock_within e now now"
  obtains (none) "rows = []" "oldest_age e rows = None"
  | (oldest) r where "r \<in> set rows" "\<And>s. s \<in> set rows \<Longrightarrow> job_RunAt r \<le> job_RunAt s"
      "oldest_age e rows = Some (now - job_RunAt r)"
proof (cases "rows = []")
  case True
  then show ?thesis by (intro none) (simp_all add: oldest_age_def)
next
  case False
  then have "Min (set (map job_RunAt rows)) \<in> set (map job_RunAt rows)" by (intro Min_in) simp_all
  then obtain r where r: "r \<in> set rows" "Min (set (map job_RunAt rows)) = job_RunAt r" by auto
  have "job_RunAt r \<le> job_RunAt s" if "s \<in> set rows" for s
    unfolding r(2) [symmetric] using that by (intro Min_le) simp_all
  moreover have "st_clock e 0 1 = now" using clock_within_bounds(1,2) [OF assms] by (meson order_antisym)
  ultimately show ?thesis using False r by (intro oldest [of r]) (simp_all add: oldest_age_def)
qed

text \<open>The rows the probe counts are the rows such a claim takes.\<close>

lemma claim_takes_due_rows:
  assumes "table_wf t" "clock_within e now now" "clock_within e' now now" "\<forall>u. \<not> st_locked e' u"
    and "\<forall>r\<in>set t. job_Status r = JobStatusPending \<longrightarrow> job_Kind r \<in> set (ccr_Kinds request)"
    and "int (length t) \<le> ccr_Limit request"
  shows "length (claim_batch e' (claim_request request) t) = length (filter (depth_due e) t)"
    and "cj_ID ` set (map jobToCore (claim_batch e' (claim_request request) t)) = job_ID ` set (filter (depth_due e) t)"
proof -
  let ?rows = "filter (depth_due e) t"
  let ?batch = "claim_batch e' (claim_request request) t"
  have due: "depth_due e r \<longleftrightarrow> claim_due e' (ccr_Kinds request) r" if "r \<in> set t" for r
    using depth_due_claim_due [OF assms(2,3)] assms(5) that by (auto simp: depth_due_def claim_due_def)
  then have rows: "?rows = filter (\<lambda>r. claim_due e' (ccr_Kinds request) r \<and> \<not> st_locked e' (job_ID r)) t"
    using assms(4) by (intro filter_cong) simp_all
  have "length ?rows \<le> nat (ccr_Limit request)"
    using assms(6) length_filter_le [of "depth_due e" t] by linarith
  then show "length ?batch = length ?rows"
    and all: "cj_ID ` set (map jobToCore ?batch) = job_ID ` set ?rows"
    unfolding rows
    by (simp_all add: claim_batch_length [OF assms(1)] claim_request_def claim_batch_set [OF assms(1)]
        claimable_all image_image row_simps)
qed

lemma oldest_due_age:
  assumes "clock_within e now now" "\<forall>r\<in>set t. job_Status r = JobStatusPending \<longrightarrow> now - job_RunAt r \<le> 9 * 10 ^ 15"
  shows "case map_option (age_Duration overflow) (oldest_age e (filter (depth_due e) t)) of
       None \<Rightarrow> filter (depth_due e) t = []
     | Some age \<Rightarrow> \<exists>r\<in>set (filter (depth_due e) t).
         (\<forall>s\<in>set (filter (depth_due e) t). job_RunAt r \<le> job_RunAt s) \<and> job_RunAt r \<le> now \<and>
         \<bar>sint age - 1000 * (now - job_RunAt r)\<bar> \<le> 1 + (now - job_RunAt r) div 2 ^ 42"
  using assms(1)
proof (cases rule: oldest_age_cases [of e now "filter (depth_due e) t"])
  case (oldest r)
  then have r: "r \<in> set t" "job_Status r = JobStatusPending" "job_RunAt r \<le> now"
    using clock_within_bounds(2) [OF assms(1), of "job_ID r" 0] by (auto simp: depth_due_def)
  then have "0 \<le> now - job_RunAt r" "now - job_RunAt r \<le> 9 * 10 ^ 15" using assms(2) by auto
  from age_Duration_near [OF this] show ?thesis using oldest r by auto
qed simp

text \<open>
  C14: the queue depth is the work that is there to take. Whenever the probe and a claim that
  serves every kind, asks for enough and meets no lock run at the same instant, both succeed, the
  probe counts exactly the jobs the claim takes, and it reports no age exactly if there are none.
  Otherwise the age is that of the oldest job taken, which is due, to within a nanosecond and
  another for every 51 days it has waited: what two roundings to a float and a truncation cost, for
  jobs that have waited at most 285 years.
\<close>

theorem backlog_is_claimable_work:
  assumes "queue_inv days t" "validator_documented x" "valid_claim x request"
    and "undisturbed e" "clock_within e now now"
    and "undisturbed e'" "clock_within e' now now" "\<forall>u. \<not> st_locked e' u"
    and "\<forall>r\<in>set t. job_Status r = JobStatusPending \<longrightarrow>
      job_Kind r \<in> set (ccr_Kinds request) \<and> now - job_RunAt r \<le> 9 * 10 ^ 15"
    and "int (length t) \<le> ccr_Limit request"
  shows "\<exists>depth batch t'.
    JobQueueDepth_Exec overflow e t = (Inr depth, t) \<and>
    JobClaim_Exec x e' request t = (Inr batch, t') \<and>
    qd_Pending depth = word_of_nat (length batch) \<and>
    (case qd_OldestPendingAge depth of
       None \<Rightarrow> batch = []
     | Some age \<Rightarrow> \<exists>r\<in>set t. job_ID r \<in> cj_ID ` set batch \<and>
         (\<forall>s\<in>set t. job_ID s \<in> cj_ID ` set batch \<longrightarrow> job_RunAt r \<le> job_RunAt s) \<and> job_RunAt r \<le> now \<and>
         \<bar>sint age - 1000 * (now - job_RunAt r)\<bar> \<le> 1 + (now - job_RunAt r) div 2 ^ 42)"
proof -
  let ?rows = "filter (depth_due e) t"
  let ?batch = "claim_batch e' (claim_request request) t"
  note wf = queue_inv_wf [OF assms(1)]
  have kinds: "\<forall>r\<in>set t. job_Status r = JobStatusPending \<longrightarrow> job_Kind r \<in> set (ccr_Kinds request)"
    and ages: "\<forall>r\<in>set t. job_Status r = JobStatusPending \<longrightarrow> now - job_RunAt r \<le> 9 * 10 ^ 15"
    using assms(9) by blast+
  note batch = claim_takes_due_rows [OF wf assms(5,7,8) kinds assms(10)]
  have member: "job_ID s \<in> job_ID ` set ?rows \<longleftrightarrow> s \<in> set ?rows" if "s \<in> set t" for s
    using that table_wf_unique [OF wf] by auto
  have age: "case map_option (age_Duration overflow) (oldest_age e ?rows) of
       None \<Rightarrow> map jobToCore ?batch = []
     | Some age \<Rightarrow> \<exists>r\<in>set t. job_ID r \<in> job_ID ` set ?rows \<and>
         (\<forall>s\<in>set t. job_ID s \<in> job_ID ` set ?rows \<longrightarrow> job_RunAt r \<le> job_RunAt s) \<and> job_RunAt r \<le> now \<and>
         \<bar>sint age - 1000 * (now - job_RunAt r)\<bar> \<le> 1 + (now - job_RunAt r) div 2 ^ 42"
    using oldest_due_age [OF assms(5) ages, of overflow] batch(1) member by (auto split: option.splits)
  show ?thesis
    by (intro exI conjI, rule JobQueueDepth_Exec_ok [OF assms(4)], rule JobClaim_Exec_ok [OF assms(1-3,6)])
      (use batch(1) age in \<open>simp_all only: core_QueueDepth.select_convs length_map batch(2)\<close>)
qed

text \<open>The witness: one job of two is due, and the claim takes it.\<close>

definition row_tomorrow :: job where
  "row_tomorrow = row_pending\<lparr> job_ID := 2, job_IdempotencyKey := None, job_RunAt := 86400000010 \<rparr>"

definition claim_two :: core_JobClaimRequest where
  "claim_two = \<lparr> ccr_Kinds = [''k''], ccr_WorkerID = ''w'', ccr_Limit = 2, ccr_LeaseSeconds = 30 \<rparr>"

lemma tomorrow_inv: "queue_inv 7 [row_tomorrow, row_pending]"
  by (simp add: queue_inv_def table_wf_def row_inv_def row_ok_iff keyed_def row_tomorrow_def row_pending_def)

lemma row_tomorrow_simps [simp]:
  "job_Status row_tomorrow = JobStatusPending" "job_RunAt row_tomorrow = 86400000010"
  "job_Kind row_tomorrow = ''k''" "job_Status row_pending = JobStatusPending"
  "job_RunAt row_pending = 10" "job_Kind row_pending = ''k''"
  by (simp_all add: row_tomorrow_def row_pending_def)

lemma backlog_is_claimable_work_witness:
  "\<exists>depth batch t'.
     JobQueueDepth_Exec (\<lambda>_. 0) (stmt_at 20) [row_tomorrow, row_pending] = (Inr depth, [row_tomorrow, row_pending]) \<and>
     JobClaim_Exec ext0 (stmt_at 20) claim_two [row_tomorrow, row_pending] = (Inr batch, t') \<and>
     qd_Pending depth = 1 \<and> word_of_nat (length batch) = (1 :: int64)"
proof -
  have "valid_claim ext0 claim_two" by (simp add: valid_claim_def claim_two_def)
  from backlog_is_claimable_work [where overflow = "\<lambda>_. 0" and now = 20, OF tomorrow_inv ext0_validator this
      undisturbed_stmt_at clock_within_stmt_at undisturbed_stmt_at clock_within_stmt_at]
  obtain depth batch t' where *:
    "JobQueueDepth_Exec (\<lambda>_. 0) (stmt_at 20) [row_tomorrow, row_pending] = (Inr depth, [row_tomorrow, row_pending])"
    "JobClaim_Exec ext0 (stmt_at 20) claim_two [row_tomorrow, row_pending] = (Inr batch, t')"
    "qd_Pending depth = word_of_nat (length batch)"
    by (auto simp: claim_two_def)
  then have "qd_Pending depth = 1"
    by (auto simp: JobQueueDepth_Exec_ok depth_due_def)
  then show ?thesis using * by auto
qed

section \<open>The other probe counts work that is not due\<close>

text \<open>
  The count behind \<open>JobCountPending\<close> takes every pending job, due or not: with one job scheduled
  for tomorrow it reports one job waiting, for a negative time, where the depth reports none.
\<close>

lemma pending_count_includes_scheduled:
  "JobQueueDepth_Exec overflow (stmt_at 20) [row_tomorrow] =
     (Inr \<lparr> qd_Pending = 0, qd_OldestPendingAge = None \<rparr>, [row_tomorrow]) \<and>
   JobCountPending_Exec overflow (stmt_at 20) [row_tomorrow] =
     (Inr \<lparr> cjp_Pending = 1, cjp_OldestAge = - 86399999990000 \<rparr>, [row_tomorrow])"
proof
  show "JobQueueDepth_Exec overflow (stmt_at 20) [row_tomorrow] =
     (Inr \<lparr> qd_Pending = 0, qd_OldestPendingAge = None \<rparr>, [row_tomorrow])"
    by (simp add: JobQueueDepth_Exec_ok depth_due_def oldest_age_def)
  have "float64 (epoch_seconds (- 86399999990) * 1000000000) = - 86399999990000" by code_simp
  then have "age_Duration overflow (- 86399999990) = - 86399999990000"
    by (simp add: age_Duration_def seconds_Duration_def int64_of_float_def float_trunc_def)
  then show "JobCountPending_Exec overflow (stmt_at 20) [row_tomorrow] =
     (Inr \<lparr> cjp_Pending = 1, cjp_OldestAge = - 86399999990000 \<rparr>, [row_tomorrow])"
    by (simp add: JobCountPending_Exec_ok oldest_age_def)
qed

end
