(* ===== verification/GoDuration.thy ===== *)
theory GoDuration
  imports GoTime Float64
begin

text \<open>
  \<open>time.ParseDuration\<close> of Go's library, which the configuration reads the reaper's cadence with: a
  sign, then numbers with a unit each, added up. Integers are \<open>uint64\<close> and wrap where Go's wrap;
  a fraction goes through \<open>float64\<close>. A duration is a number of nanoseconds, an \<open>int64\<close>.
\<close>

type_synonym uint64 = "64 word"

datatype duration_error =
    InvalidDuration string
  | MissingUnit string
  | UnknownUnit string string

section \<open>Numbers\<close>

definition is_digit :: "char \<Rightarrow> bool" where
  "is_digit c \<longleftrightarrow> 48 \<le> (of_char c :: nat) \<and> (of_char c :: nat) \<le> 57"

text \<open>\<^term>\<open>None\<close> is the overflow error.\<close>

fun leadingInt :: "uint64 \<Rightarrow> string \<Rightarrow> (uint64 \<times> string) option" where
  "leadingInt x [] = Some (x, [])"
| "leadingInt x (c # s) =
     (if \<not> is_digit c then Some (x, c # s)
      else if 2 ^ 63 div 10 < x then None
      else let x' = x * 10 + of_char c - 48 in
        if 2 ^ 63 < x' then None else leadingInt x' s)"

text \<open>Digits past what a \<open>uint64\<close> holds are consumed and dropped.\<close>

fun leadingFraction :: "uint64 \<Rightarrow> rat \<Rightarrow> bool \<Rightarrow> string \<Rightarrow> uint64 \<times> rat \<times> string" where
  "leadingFraction x scale overflow [] = (x, scale, [])"
| "leadingFraction x scale overflow (c # s) =
     (if \<not> is_digit c then (x, scale, c # s)
      else if overflow then leadingFraction x scale True s
      else if (2 ^ 63 - 1) div 10 < x then leadingFraction x scale True s
      else let y = x * 10 + of_char c - 48 in
        if 2 ^ 63 < y then leadingFraction x scale True s
        else leadingFraction y (float64 (scale * 10)) False s)"

section \<open>Units\<close>

text \<open>The micro sign and the Greek letter mu, both in UTF-8.\<close>

definition unitMap :: "(string \<times> uint64) list" where
  "unitMap =
     [(''ns'', 1), (''us'', 1000),
      ([CHR 0xC2, CHR 0xB5, CHR ''s''], 1000),
      ([CHR 0xCE, CHR 0xBC, CHR ''s''], 1000),
      (''ms'', 1000000), (''s'', 1000000000), (''m'', 60000000000), (''h'', 3600000000000)]"

definition unit_char :: "char \<Rightarrow> bool" where
  "unit_char c \<longleftrightarrow> c \<noteq> CHR ''.'' \<and> \<not> is_digit c"

section \<open>One number with its unit\<close>

text \<open>\<open>uint64(float64(f) * (float64(unit) / scale))\<close>.\<close>

definition fraction_of :: "uint64 \<Rightarrow> rat \<Rightarrow> uint64 \<Rightarrow> uint64" where
  "fraction_of f scale unit =
     word_of_int (float_trunc
       (float64 (float64 (of_int (uint f)) * float64 (float64 (of_int (uint unit)) / scale))))"

definition parse_unit :: "string \<Rightarrow> uint64 \<Rightarrow> uint64 \<Rightarrow> rat \<Rightarrow> string \<Rightarrow> duration_error + uint64 \<times> string" where
  "parse_unit orig v f scale s =
     (let u = takeWhile unit_char s; rest = dropWhile unit_char s in
      if u = [] then Inl (MissingUnit orig)
      else (case map_of unitMap u of
          None \<Rightarrow> Inl (UnknownUnit u orig)
        | Some unit \<Rightarrow>
            if 2 ^ 63 div unit < v then Inl (InvalidDuration orig)
            else let v' = (if 0 < f then v * unit + fraction_of f scale unit else v * unit) in
              if 0 < f \<and> 2 ^ 63 < v' then Inl (InvalidDuration orig) else Inr (v', rest)))"

definition parse_number :: "string \<Rightarrow> string \<Rightarrow> duration_error + uint64 \<times> string" where
  "parse_number orig s =
     (if s = [] \<or> \<not> (hd s = CHR ''.'' \<or> is_digit (hd s)) then Inl (InvalidDuration orig)
      else (case leadingInt 0 s of
          None \<Rightarrow> Inl (InvalidDuration orig)
        | Some (v, s1) \<Rightarrow>
            if s1 \<noteq> [] \<and> hd s1 = CHR ''.''
            then let (f, scale, s2) = leadingFraction 0 1 False (tl s1) in
              if s1 = s \<and> s2 = tl s1 then Inl (InvalidDuration orig)
              else parse_unit orig v f scale s2
            else if s1 = s then Inl (InvalidDuration orig)
            else parse_unit orig v 0 1 s1))"

section \<open>The loop\<close>

lemma leadingInt_length: "leadingInt x s = Some (v, s') \<Longrightarrow> length s' \<le> length s"
  by (induction x s rule: leadingInt.induct) (auto simp: Let_def split: if_splits)

lemma leadingFraction_length: "leadingFraction x k b s = (f, k', s') \<Longrightarrow> length s' \<le> length s"
  by (induction x k b s rule: leadingFraction.induct) (auto simp: Let_def split: if_splits)

lemma parse_unit_length: "parse_unit orig v f k s = Inr (d, rest) \<Longrightarrow> length rest < length s"
proof -
  assume "parse_unit orig v f k s = Inr (d, rest)"
  then have "takeWhile unit_char s \<noteq> []" "rest = dropWhile unit_char s"
    by (auto simp: parse_unit_def Let_def split: if_splits option.splits)
  moreover have "length (takeWhile unit_char s) + length (dropWhile unit_char s) = length s"
    by (metis length_append takeWhile_dropWhile_id)
  ultimately show ?thesis by (cases "takeWhile unit_char s") simp_all
qed

lemma parse_number_length: "parse_number orig s = Inr (d, rest) \<Longrightarrow> length rest < length s"
  by (auto simp: parse_number_def Let_def split: if_splits option.splits prod.splits
      dest!: parse_unit_length leadingInt_length leadingFraction_length)

function parse_loop :: "string \<Rightarrow> uint64 \<Rightarrow> string \<Rightarrow> duration_error + uint64" where
  "parse_loop orig d s =
     (if s = [] then Inr d
      else (case parse_number orig s of
          Inl err \<Rightarrow> Inl err
        | Inr (v, rest) \<Rightarrow>
            if 2 ^ 63 < d + v then Inl (InvalidDuration orig) else parse_loop orig (d + v) rest))"
  by pat_completeness auto
termination
  by (relation "measure (\<lambda>(orig, d, s). length s)") (auto dest: parse_number_length)

declare parse_loop.simps [simp del]

definition ParseDuration :: "string \<Rightarrow> duration_error + int64" where
  "ParseDuration orig =
     (let neg = (orig \<noteq> [] \<and> hd orig = CHR ''-'');
          s = (if orig \<noteq> [] \<and> (hd orig = CHR ''-'' \<or> hd orig = CHR ''+'') then tl orig else orig)
      in if s = ''0'' then Inr 0
         else if s = [] then Inl (InvalidDuration orig)
         else (case parse_loop orig 0 s of
             Inl err \<Rightarrow> Inl err
           | Inr d \<Rightarrow>
               if neg then Inr (- d)
               else if 2 ^ 63 - 1 < d then Inl (InvalidDuration orig) else Inr d))"

end
