(* ===== verification/Config.thy ===== *)
theory Config
  imports GoDuration
begin

text \<open>
  \<open>internal/config/env/env.go\<close> and the presets of \<open>internal/config\<close>: what the process reads from its
  environment and the configuration it starts with. The environment is a function from names to
  values, empty for a variable that is not set, as \<open>os.Getenv\<close> has it. \<open>config.LoadEnv\<close> of golib
  with its parsers is a parameter; the cadence of the reaper is the one setting the repository
  parses itself.
\<close>

section \<open>The environment\<close>

type_synonym environ = "string \<Rightarrow> string"

definition env_prefix :: "environ \<Rightarrow> string" where
  "env_prefix Getenv = Getenv ''SERVICE_JOBS_ENV_PREFIX''"

definition getEnv :: "environ \<Rightarrow> string \<Rightarrow> string" where
  "getEnv Getenv name = Getenv (env_prefix Getenv @ name)"

definition Second :: int64 where "Second = 1000000000"

definition AppNameDefault :: string where "AppNameDefault = ''service-jobs''"
definition GrpcPortDefault :: int where "GrpcPortDefault = 8080"
definition GrpcDefaultPing :: int64 where "GrpcDefaultPing = Second * 5"
definition ReaperIntervalDefault :: int64 where "ReaperIntervalDefault = Second * 30"
definition PostgresMaxOpenConnsDefault :: int where "PostgresMaxOpenConnsDefault = 20"
definition PostgresMaxIdleConnsDefault :: int where "PostgresMaxIdleConnsDefault = 20"

text \<open>\<open>config.LoadEnv(raw, default, parser)\<close> at each of the four parsers.\<close>

record loaders =
  ld_Int :: "string \<Rightarrow> int \<Rightarrow> int"
  ld_String :: "string \<Rightarrow> string \<Rightarrow> string"
  ld_Bool :: "string \<Rightarrow> bool \<Rightarrow> bool"
  ld_Duration :: "string \<Rightarrow> int64 \<Rightarrow> int64"

record settings =
  env_PostgresDsn :: string
  env_PostgresMaxOpenConns :: int
  env_PostgresMaxIdleConns :: int
  env_AppName :: string
  env_Otel :: bool
  env_GrpcPort :: int
  env_GrpcUrl :: string
  env_GrpcPing :: int64
  env_GcloudProjectId :: string

definition env_settings :: "loaders \<Rightarrow> environ \<Rightarrow> settings" where
  "env_settings ld Getenv =
     \<lparr> env_PostgresDsn = getEnv Getenv ''POSTGRES_DSN'',
       env_PostgresMaxOpenConns = ld_Int ld (getEnv Getenv ''POSTGRES_MAX_OPEN_CONNS'') PostgresMaxOpenConnsDefault,
       env_PostgresMaxIdleConns = ld_Int ld (getEnv Getenv ''POSTGRES_MAX_IDLE_CONNS'') PostgresMaxIdleConnsDefault,
       env_AppName = ld_String ld (getEnv Getenv ''APP_NAME'') AppNameDefault,
       env_Otel = ld_Bool ld (getEnv Getenv ''OTEL'') False,
       env_GrpcPort = ld_Int ld (getEnv Getenv ''GRPC_PORT'') GrpcPortDefault,
       env_GrpcUrl = getEnv Getenv ''GRPC_URL'',
       env_GrpcPing = ld_Duration ld (getEnv Getenv ''GRPC_PING'') GrpcDefaultPing,
       env_GcloudProjectId = getEnv Getenv ''GCLOUD_PROJECT_ID'' \<rparr>"

section \<open>The cadence of the reaper\<close>

definition RawReaperInterval :: "environ \<Rightarrow> string" where
  "RawReaperInterval Getenv = getEnv Getenv ''REAPER_INTERVAL''"

text \<open>\<open>parse REAPER_INTERVAL %q: %w\<close>, and \<open>errReaperIntervalNonPositive\<close> with the text it was given.\<close>

datatype interval_error =
    ParseFailed string duration_error
  | ReaperIntervalNonPositive string

definition ReaperInterval :: "string \<Rightarrow> interval_error + int64" where
  "ReaperInterval raw =
     (if raw = '''' then Inr ReaperIntervalDefault
      else (case ParseDuration raw of
          Inl err \<Rightarrow> Inl (ParseFailed raw err)
        | Inr interval \<Rightarrow>
            if interval \<le>s 0 then Inl (ReaperIntervalNonPositive raw) else Inr interval))"

section \<open>The presets\<close>

definition OtelFlushTimeout :: int64 where
  "OtelFlushTimeout = 2 * Second"

datatype logger_config =
    LoggerDev
  | LoggerProd string

datatype otel_config =
    OtelDisabled
  | OtelLocal int64
  | OtelGcloud string int64

record postgres_preset =
  pp_DSN :: string
  pp_MaxOpenConns :: int
  pp_MaxIdleConns :: int

record config_Main =
  cfg_Name :: string

record config_Grpc =
  cfg_Port :: int
  cfg_Ping :: int64

record config_App =
  cfg_App :: config_Main
  cfg_Grpc :: config_Grpc
  cfg_Otel :: otel_config
  cfg_Logger :: logger_config
  cfg_Postgres :: postgres_preset

text \<open>The pool is bounded on the preset, before anything opens it.\<close>

definition newPostgresPreset :: "settings \<Rightarrow> postgres_preset" where
  "newPostgresPreset env =
     \<lparr> pp_DSN = env_PostgresDsn env,
       pp_MaxOpenConns = env_PostgresMaxOpenConns env,
       pp_MaxIdleConns = env_PostgresMaxIdleConns env \<rparr>"

definition AppPresetDefault :: "settings \<Rightarrow> config_App" where
  "AppPresetDefault env =
     \<lparr> cfg_App = \<lparr> cfg_Name = env_AppName env \<rparr>,
       cfg_Grpc = \<lparr> cfg_Port = env_GrpcPort env, cfg_Ping = env_GrpcPing env \<rparr>,
       cfg_Otel =
         (if \<not> env_Otel env then OtelDisabled
          else if env_GcloudProjectId env = '''' then OtelLocal OtelFlushTimeout
          else OtelGcloud (env_GcloudProjectId env) OtelFlushTimeout),
       cfg_Logger =
         (if env_GcloudProjectId env = '''' then LoggerDev else LoggerProd (env_GcloudProjectId env)),
       cfg_Postgres = newPostgresPreset env \<rparr>"

end
