(* ===== verification/WireForm.thy ===== *)
theory WireForm
  imports StatusReport GoText GoTime
begin

text \<open>
  What a message of \<open>internal/handlers/protogen\<close> is after a trip over the wire, from the field types
  of the \<open>.proto\<close> files: which messages \<open>proto.Marshal\<close> accepts, and what \<open>proto.Unmarshal\<close> makes of
  the bytes. The syntax is \<open>proto3\<close>: a \<open>string\<close> must be valid UTF-8; a plain \<open>bytes\<close> field is not sent
  when it is empty, and reads as nil; a field with presence (an \<open>optional\<close>, a submessage, the
  arm of a oneof) is sent whenever it is set, so that a set arm without a value reads as set
  and empty.
\<close>

section \<open>UTF-8\<close>

text \<open>\<open>utf8.Valid\<close> of Go: no overlong form, no surrogate, nothing above U+10FFFF.\<close>

definition utf8_tail :: "nat \<Rightarrow> bool" where
  "utf8_tail b \<longleftrightarrow> 0x80 \<le> b \<and> b \<le> 0xBF"

definition utf8_second :: "nat \<Rightarrow> nat \<Rightarrow> bool" where
  "utf8_second a b \<longleftrightarrow>
     utf8_tail b \<and> (a = 0xE0 \<longrightarrow> 0xA0 \<le> b) \<and> (a = 0xED \<longrightarrow> b \<le> 0x9F) \<and>
     (a = 0xF0 \<longrightarrow> 0x90 \<le> b) \<and> (a = 0xF4 \<longrightarrow> b \<le> 0x8F)"

fun utf8_codes :: "nat list \<Rightarrow> bool" where
  "utf8_codes [] = True"
| "utf8_codes (a # s) =
     (if a < 0x80 then utf8_codes s
      else case s of
          [] \<Rightarrow> False
        | b # s2 \<Rightarrow>
            if 0xC2 \<le> a \<and> a \<le> 0xDF then utf8_tail b \<and> utf8_codes s2
            else (case s2 of
                [] \<Rightarrow> False
              | c # s3 \<Rightarrow>
                  if 0xE0 \<le> a \<and> a \<le> 0xEF then utf8_second a b \<and> utf8_tail c \<and> utf8_codes s3
                  else (case s3 of
                      [] \<Rightarrow> False
                    | d # s4 \<Rightarrow>
                        0xF0 \<le> a \<and> a \<le> 0xF4 \<and> utf8_second a b \<and> utf8_tail c \<and> utf8_tail d \<and>
                        utf8_codes s4)))"

definition valid_utf8 :: "string \<Rightarrow> bool" where
  "valid_utf8 s \<longleftrightarrow> utf8_codes (map of_char s)"

definition ascii :: "string \<Rightarrow> bool" where
  "ascii s \<longleftrightarrow> list_all (\<lambda>c. (of_char c :: nat) < 0x80) s"

lemma ascii_valid: "ascii s \<Longrightarrow> valid_utf8 s"
  by (induction s) (simp_all add: ascii_def valid_utf8_def)

lemma ascii_simps [simp]:
  "ascii ''''" "ascii (c # s) \<longleftrightarrow> (of_char c :: nat) < 0x80 \<and> ascii s" "ascii (s @ u) \<longleftrightarrow> ascii s \<and> ascii u"
  "ascii (replicate n c) \<longleftrightarrow> n = 0 \<or> (of_char c :: nat) < 0x80"
  by (auto simp: ascii_def list_all_iff)

text \<open>A timestamp is always text.\<close>

lemma ascii_decimal: "ascii (decimal n)"
proof (induction n rule: decimal.induct)
  case (1 n)
  have "ascii [digit n]" by (simp add: digit_def)
  then show ?case using 1 decimal_lt [of n] decimal_ge [of n] by (cases "n < 10") simp_all
qed

lemma ascii_appendInt [simp]: "ascii (appendInt n width)"
  by (simp add: appendInt_def Let_def ascii_decimal)

lemma ascii_Format_RFC3339: "ascii (Format_RFC3339 offset t)"
  by (simp add: Format_RFC3339_def Let_def split: prod.split)

text \<open>The text of a space rune is text; a lone continuation byte or a surrogate is not.\<close>

lemma valid_utf8_examples:
  "list_all valid_utf8 space_runes" "\<not> valid_utf8 [CHR 0x80]" "\<not> valid_utf8 [CHR 0xC0, CHR 0x80]"
  "\<not> valid_utf8 [CHR 0xED, CHR 0xA0, CHR 0x80]" "valid_utf8 [CHR 0xF0, CHR 0x9F, CHR 0x98, CHR 0x80]"
  by code_simp+

section \<open>Fields and messages\<close>

text \<open>A plain \<open>bytes\<close> field, and the \<open>bytes\<close> arm of a oneof.\<close>

definition plain_bytes :: "rawmsg \<Rightarrow> rawmsg" where
  "plain_bytes b = (if b = Some [] then None else b)"

definition arm_bytes :: "rawmsg \<Rightarrow> rawmsg" where
  "arm_bytes b = Some (case b of None \<Rightarrow> [] | Some bs \<Rightarrow> bs)"

text \<open>Which messages of a type are encoded, and what they decode to.\<close>

record 'm wire_form =
  wf_encodable :: "'m \<Rightarrow> bool"
  wf_decoded :: "'m \<Rightarrow> 'm"

definition form_plain :: "'m wire_form" where
  "form_plain = \<lparr> wf_encodable = (\<lambda>_. True), wf_decoded = (\<lambda>m. m) \<rparr>"

definition form_Job :: "protogen_Job wire_form" where
  "form_Job =
     \<lparr> wf_encodable = (\<lambda>m. list_all valid_utf8 [pj_Id m, pj_Kind m, pj_OwnerId m, pj_ProviderCallId m,
         pj_CreatedAt m, pj_UpdatedAt m, pj_SettledAt m, pj_ExpiresAt m]),
       wf_decoded = (\<lambda>m. m\<lparr> pj_Payload := plain_bytes (pj_Payload m), pj_Result := plain_bytes (pj_Result m),
         pj_Error := plain_bytes (pj_Error m) \<rparr>) \<rparr>"

text \<open>A submessage, sent when it is there.\<close>

definition sub_encodable :: "'m wire_form \<Rightarrow> 'm option \<Rightarrow> bool" where
  "sub_encodable form m = (case m of None \<Rightarrow> True | Some m' \<Rightarrow> wf_encodable form m')"

definition form_JobEnqueueRequest :: "protogen_JobEnqueueRequest wire_form" where
  "form_JobEnqueueRequest =
     \<lparr> wf_encodable = (\<lambda>m. valid_utf8 (peq_Kind m) \<and> valid_utf8 (peq_OwnerId m) \<and>
         (case peq_IdempotencyKey m of None \<Rightarrow> True | Some key \<Rightarrow> valid_utf8 key)),
       wf_decoded = (\<lambda>m. m\<lparr> peq_Payload := plain_bytes (peq_Payload m) \<rparr>) \<rparr>"

definition form_JobEnqueueResponse :: "protogen_JobEnqueueResponse wire_form" where
  "form_JobEnqueueResponse =
     \<lparr> wf_encodable = (\<lambda>m. sub_encodable form_Job (per_Job m)),
       wf_decoded = (\<lambda>m. m\<lparr> per_Job := map_option (wf_decoded form_Job) (per_Job m) \<rparr>) \<rparr>"

definition form_JobGetRequest :: "protogen_JobGetRequest wire_form" where
  "form_JobGetRequest =
     \<lparr> wf_encodable = (\<lambda>m. valid_utf8 (pgq_Id m) \<and> valid_utf8 (pgq_OwnerId m)), wf_decoded = (\<lambda>m. m) \<rparr>"

definition form_JobGetResponse :: "protogen_JobGetResponse wire_form" where
  "form_JobGetResponse =
     \<lparr> wf_encodable = (\<lambda>m. sub_encodable form_Job (pgr_Job m)),
       wf_decoded = (\<lambda>m. m\<lparr> pgr_Job := map_option (wf_decoded form_Job) (pgr_Job m) \<rparr>) \<rparr>"

definition form_JobClaimRequest :: "protogen_JobClaimRequest wire_form" where
  "form_JobClaimRequest =
     \<lparr> wf_encodable = (\<lambda>m. list_all valid_utf8 (pcq_Kinds m) \<and> valid_utf8 (pcq_WorkerId m)), wf_decoded = (\<lambda>m. m) \<rparr>"

definition form_JobClaimResponse :: "protogen_JobClaimResponse wire_form" where
  "form_JobClaimResponse =
     \<lparr> wf_encodable = (\<lambda>m. list_all (wf_encodable form_Job) (pcr_Jobs m)),
       wf_decoded = (\<lambda>m. m\<lparr> pcr_Jobs := map (wf_decoded form_Job) (pcr_Jobs m) \<rparr>) \<rparr>"

definition decoded_outcome :: "isJobSettleRequest_Outcome \<Rightarrow> isJobSettleRequest_Outcome" where
  "decoded_outcome out =
     (case out of
        OutcomeUnset \<Rightarrow> OutcomeUnset
      | JobSettleRequest_Result b \<Rightarrow> JobSettleRequest_Result (arm_bytes b)
      | JobSettleRequest_Failure None \<Rightarrow> JobSettleRequest_Failure (Some \<lparr> pfl_Error = None, pfl_Retryable = False \<rparr>)
      | JobSettleRequest_Failure (Some f) \<Rightarrow>
          JobSettleRequest_Failure (Some (f\<lparr> pfl_Error := plain_bytes (pfl_Error f) \<rparr>)))"

definition form_JobSettleRequest :: "protogen_JobSettleRequest wire_form" where
  "form_JobSettleRequest =
     \<lparr> wf_encodable = (\<lambda>m. valid_utf8 (psq_Id m) \<and> valid_utf8 (psq_WorkerId m)),
       wf_decoded = (\<lambda>m. m\<lparr> psq_Outcome := decoded_outcome (psq_Outcome m) \<rparr>) \<rparr>"

definition form_JobSettleResponse :: "protogen_JobSettleResponse wire_form" where
  "form_JobSettleResponse =
     \<lparr> wf_encodable = (\<lambda>m. sub_encodable form_Job (psr_Job m)),
       wf_decoded = (\<lambda>m. m\<lparr> psr_Job := map_option (wf_decoded form_Job) (psr_Job m) \<rparr>) \<rparr>"

definition form_JobWatchRequest :: "protogen_JobWatchRequest wire_form" where
  "form_JobWatchRequest =
     \<lparr> wf_encodable = (\<lambda>m. valid_utf8 (pwq_Id m) \<and> valid_utf8 (pwq_OwnerId m)), wf_decoded = (\<lambda>m. m) \<rparr>"

definition form_JobWatchResponse :: "protogen_JobWatchResponse wire_form" where
  "form_JobWatchResponse =
     \<lparr> wf_encodable = (\<lambda>m. sub_encodable form_Job (pwr_Job m)),
       wf_decoded = (\<lambda>m. m\<lparr> pwr_Job := map_option (wf_decoded form_Job) (pwr_Job m) \<rparr>) \<rparr>"

lemmas wire_forms =
  form_plain_def form_Job_def sub_encodable_def form_JobEnqueueRequest_def form_JobEnqueueResponse_def
  form_JobGetRequest_def form_JobGetResponse_def form_JobClaimRequest_def form_JobClaimResponse_def
  form_JobSettleRequest_def form_JobSettleResponse_def form_JobWatchRequest_def form_JobWatchResponse_def

text \<open>A second trip changes nothing more.\<close>

lemma plain_bytes_idem [simp]: "plain_bytes (plain_bytes b) = plain_bytes b"
  by (simp add: plain_bytes_def)

lemma arm_bytes_idem [simp]: "arm_bytes (arm_bytes b) = arm_bytes b"
  by (simp add: arm_bytes_def)

lemma decoded_outcome_idem: "decoded_outcome (decoded_outcome out) = decoded_outcome out"
  by (auto simp: decoded_outcome_def plain_bytes_def split: isJobSettleRequest_Outcome.split option.split)

text \<open>
  The getters of a decoded settle request: a set result is never nil, an empty error reads as nil.
\<close>

lemma decoded_settle_getters:
  "JobSettleRequest_GetResult (Some (wf_decoded form_JobSettleRequest m)) =
     (case psq_Outcome m of JobSettleRequest_Result b \<Rightarrow> arm_bytes b | _ \<Rightarrow> None)"
  "JobSettleRequest_GetFailure (Some (wf_decoded form_JobSettleRequest m)) = None \<longleftrightarrow>
     (\<forall>f. psq_Outcome m \<noteq> JobSettleRequest_Failure f)"
  by (auto simp: request_getters form_JobSettleRequest_def decoded_outcome_def
      split: isJobSettleRequest_Outcome.split option.split)

end
