(* ===== verification/Stubs.thy ===== *)
theory Stubs
  imports Handlers Watch StatusReport WireForm
begin

text \<open>
  \<open>internal/handlers/protogen/*_grpc.pb.go\<close> and \<open>pkg/go/client.go\<close>: the generated client stubs, the
  generated server handlers with the service descriptors that name them, and the client that bundles
  the stubs over one connection. A connection carries encoded messages, of type \<open>'w\<close>, between a
  caller and a server of state \<open>'s\<close>. Protobuf encoding and the routing of \<open>google.golang.org/grpc\<close> are
  parameters; what is relied on of them is \<^emph>\<open>proto_documented\<close>, over the forms of \<^emph>\<open>WireForm\<close>, and
  \<^emph>\<open>grpc_documented\<close>.
\<close>

section \<open>The libraries\<close>

text \<open>
  \<open>proto.Marshal\<close> and \<open>proto.Unmarshal\<close> at one message type, either of which may refuse, and the
  messages whose encoding is larger than the receiver accepts.
\<close>

record ('m, 'w) codec =
  marshal :: "'m \<Rightarrow> 'w option"
  unmarshal :: "'w \<Rightarrow> 'm option"
  oversized :: "'m \<Rightarrow> bool"

record ('d, 'w) codecs =
  cd_StatusRequest :: "(unit, 'w) codec"
  cd_StatusResponse :: "('d protogen_StatusResponse, 'w) codec"
  cd_JobEnqueueRequest :: "(protogen_JobEnqueueRequest, 'w) codec"
  cd_JobEnqueueResponse :: "(protogen_JobEnqueueResponse, 'w) codec"
  cd_JobGetRequest :: "(protogen_JobGetRequest, 'w) codec"
  cd_JobGetResponse :: "(protogen_JobGetResponse, 'w) codec"
  cd_JobClaimRequest :: "(protogen_JobClaimRequest, 'w) codec"
  cd_JobClaimResponse :: "(protogen_JobClaimResponse, 'w) codec"
  cd_JobSettleRequest :: "(protogen_JobSettleRequest, 'w) codec"
  cd_JobSettleResponse :: "(protogen_JobSettleResponse, 'w) codec"
  cd_JobWatchRequest :: "(protogen_JobWatchRequest, 'w) codec"
  cd_JobWatchResponse :: "(protogen_JobWatchResponse, 'w) codec"

text \<open>
  What the server of the library does with a call: given what is registered (each service with its
  methods), the service and method a full method name stands for; and the errors of a call
  that it cannot route, of a message that it cannot decode or encode, and of one that is too large.
\<close>

record grpc_lib =
  gl_route :: "(string \<times> string list) list \<Rightarrow> string \<Rightarrow> (string \<times> string) option"
  gl_unimplemented :: rpc_error
  gl_malformed :: rpc_error
  gl_unencodable :: rpc_error
  gl_oversized :: rpc_error

definition library_errors :: "grpc_lib \<Rightarrow> rpc_error list" where
  "library_errors gl = [gl_unimplemented gl, gl_malformed gl, gl_unencodable gl, gl_oversized gl]"

text \<open>
  A message is encoded exactly if its form says so, and its bytes decode to what its form says; and
  the last slash of \<open>/service/method\<close> ends the name of the one service registered under it.
\<close>

definition codec_ok :: "'m wire_form \<Rightarrow> ('m, 'w) codec \<Rightarrow> bool" where
  "codec_ok form c \<longleftrightarrow>
     (\<forall>m. case marshal c m of
            None \<Rightarrow> \<not> wf_encodable form m
          | Some w \<Rightarrow> wf_encodable form m \<and> unmarshal c w = Some (wf_decoded form m))"

definition proto_documented :: "('d, 'w) codecs \<Rightarrow> bool" where
  "proto_documented cd \<longleftrightarrow>
     codec_ok form_plain (cd_StatusRequest cd) \<and> codec_ok form_plain (cd_StatusResponse cd) \<and>
     codec_ok form_JobEnqueueRequest (cd_JobEnqueueRequest cd) \<and>
     codec_ok form_JobEnqueueResponse (cd_JobEnqueueResponse cd) \<and>
     codec_ok form_JobGetRequest (cd_JobGetRequest cd) \<and> codec_ok form_JobGetResponse (cd_JobGetResponse cd) \<and>
     codec_ok form_JobClaimRequest (cd_JobClaimRequest cd) \<and>
     codec_ok form_JobClaimResponse (cd_JobClaimResponse cd) \<and>
     codec_ok form_JobSettleRequest (cd_JobSettleRequest cd) \<and>
     codec_ok form_JobSettleResponse (cd_JobSettleResponse cd) \<and>
     codec_ok form_JobWatchRequest (cd_JobWatchRequest cd) \<and>
     codec_ok form_JobWatchResponse (cd_JobWatchResponse cd)"

definition full_method :: "string \<Rightarrow> string \<Rightarrow> string" where
  "full_method service name = ''/'' @ service @ ''/'' @ name"

definition grpc_documented :: "grpc_lib \<Rightarrow> bool" where
  "grpc_documented gl \<longleftrightarrow>
     (\<forall>registered service methods name.
        distinct (map fst registered) \<and> (service, methods) \<in> set registered \<and> name \<in> set methods \<and>
        CHR ''/'' \<notin> set name \<longrightarrow>
        gl_route gl registered (full_method service name) = Some (service, name))"

section \<open>Client stubs\<close>

record ('w, 's) conn =
  cc_Invoke :: "string \<Rightarrow> 'w \<Rightarrow> 's \<Rightarrow> (rpc_error + 'w) \<times> 's"
  cc_Stream :: "string \<Rightarrow> 'w \<Rightarrow> 's \<Rightarrow> 'w list \<times> watch_end"

definition StatusService_Status_FullMethodName :: string where
  "StatusService_Status_FullMethodName = ''/StatusService/Status''"
definition JobEnqueueService_JobEnqueue_FullMethodName :: string where
  "JobEnqueueService_JobEnqueue_FullMethodName = ''/JobEnqueueService/JobEnqueue''"
definition JobGetService_JobGet_FullMethodName :: string where
  "JobGetService_JobGet_FullMethodName = ''/JobGetService/JobGet''"
definition JobClaimService_JobClaim_FullMethodName :: string where
  "JobClaimService_JobClaim_FullMethodName = ''/JobClaimService/JobClaim''"
definition JobSettleService_JobSettle_FullMethodName :: string where
  "JobSettleService_JobSettle_FullMethodName = ''/JobSettleService/JobSettle''"
definition JobWatchService_JobWatch_FullMethodName :: string where
  "JobWatchService_JobWatch_FullMethodName = ''/JobWatchService/JobWatch''"

lemmas full_method_names =
  StatusService_Status_FullMethodName_def JobEnqueueService_JobEnqueue_FullMethodName_def
  JobGetService_JobGet_FullMethodName_def JobClaimService_JobClaim_FullMethodName_def
  JobSettleService_JobSettle_FullMethodName_def JobWatchService_JobWatch_FullMethodName_def

text \<open>A message on its way out: the bytes the other side gets to decode, or the error of the call.\<close>

definition put :: "grpc_lib \<Rightarrow> ('m, 'w) codec \<Rightarrow> 'm \<Rightarrow> rpc_error + 'w" where
  "put gl c m =
     (case marshal c m of
        None \<Rightarrow> Inl (gl_unencodable gl)
      | Some w \<Rightarrow> if oversized c m then Inl (gl_oversized gl) else Inr w)"

text \<open>\<open>cc.Invoke(ctx, method, in, out, opts)\<close>: the error, or \<open>out\<close> as decoded from the reply.\<close>

definition Invoke ::
  "grpc_lib \<Rightarrow> ('i, 'w) codec \<Rightarrow> ('o, 'w) codec \<Rightarrow> ('w, 's) conn \<Rightarrow> string \<Rightarrow> 'i \<Rightarrow> 's \<Rightarrow> (rpc_error + 'o) \<times> 's" where
  "Invoke gl ci co cc fullMethod m s =
     (case put gl ci m of
        Inl err \<Rightarrow> (Inl err, s)
      | Inr w \<Rightarrow>
          (case cc_Invoke cc fullMethod w s of
             (Inl err, s') \<Rightarrow> (Inl err, s')
           | (Inr b, s') \<Rightarrow>
               (case unmarshal co b of None \<Rightarrow> (Inl (gl_malformed gl), s') | Some out \<Rightarrow> (Inr out, s'))))"

definition statusServiceClient_Status ::
  "grpc_lib \<Rightarrow> ('d, 'w) codecs \<Rightarrow> ('w, 's) conn \<Rightarrow> unit \<Rightarrow> 's \<Rightarrow> (rpc_error + 'd protogen_StatusResponse) \<times> 's" where
  "statusServiceClient_Status gl cd cc =
     Invoke gl (cd_StatusRequest cd) (cd_StatusResponse cd) cc StatusService_Status_FullMethodName"

definition jobEnqueueServiceClient_JobEnqueue ::
  "grpc_lib \<Rightarrow> ('d, 'w) codecs \<Rightarrow> ('w, 's) conn \<Rightarrow> protogen_JobEnqueueRequest \<Rightarrow> 's \<Rightarrow> (rpc_error + protogen_JobEnqueueResponse) \<times> 's" where
  "jobEnqueueServiceClient_JobEnqueue gl cd cc =
     Invoke gl (cd_JobEnqueueRequest cd) (cd_JobEnqueueResponse cd) cc JobEnqueueService_JobEnqueue_FullMethodName"

definition jobGetServiceClient_JobGet ::
  "grpc_lib \<Rightarrow> ('d, 'w) codecs \<Rightarrow> ('w, 's) conn \<Rightarrow> protogen_JobGetRequest \<Rightarrow> 's \<Rightarrow> (rpc_error + protogen_JobGetResponse) \<times> 's" where
  "jobGetServiceClient_JobGet gl cd cc =
     Invoke gl (cd_JobGetRequest cd) (cd_JobGetResponse cd) cc JobGetService_JobGet_FullMethodName"

definition jobClaimServiceClient_JobClaim ::
  "grpc_lib \<Rightarrow> ('d, 'w) codecs \<Rightarrow> ('w, 's) conn \<Rightarrow> protogen_JobClaimRequest \<Rightarrow> 's \<Rightarrow> (rpc_error + protogen_JobClaimResponse) \<times> 's" where
  "jobClaimServiceClient_JobClaim gl cd cc =
     Invoke gl (cd_JobClaimRequest cd) (cd_JobClaimResponse cd) cc JobClaimService_JobClaim_FullMethodName"

definition jobSettleServiceClient_JobSettle ::
  "grpc_lib \<Rightarrow> ('d, 'w) codecs \<Rightarrow> ('w, 's) conn \<Rightarrow> protogen_JobSettleRequest \<Rightarrow> 's \<Rightarrow> (rpc_error + protogen_JobSettleResponse) \<times> 's" where
  "jobSettleServiceClient_JobSettle gl cd cc =
     Invoke gl (cd_JobSettleRequest cd) (cd_JobSettleResponse cd) cc JobSettleService_JobSettle_FullMethodName"

text \<open>The stream: the request is sent, and the replies are decoded as they are received.\<close>

fun receive_all :: "grpc_lib \<Rightarrow> ('o, 'w) codec \<Rightarrow> 'w list \<times> watch_end \<Rightarrow> 'o list \<times> watch_end" where
  "receive_all gl co ([], stop) = ([], stop)"
| "receive_all gl co (b # bs, stop) =
     (case unmarshal co b of
        None \<Rightarrow> ([], WatchErr (gl_malformed gl))
      | Some m \<Rightarrow> let (ms, stop') = receive_all gl co (bs, stop) in (m # ms, stop'))"

definition jobWatchServiceClient_JobWatch ::
  "grpc_lib \<Rightarrow> ('d, 'w) codecs \<Rightarrow> ('w, 's) conn \<Rightarrow> protogen_JobWatchRequest \<Rightarrow> 's \<Rightarrow> protogen_JobWatchResponse list \<times> watch_end" where
  "jobWatchServiceClient_JobWatch gl cd cc m s =
     (case put gl (cd_JobWatchRequest cd) m of
        Inl err \<Rightarrow> ([], WatchErr err)
      | Inr w \<Rightarrow>
          receive_all gl (cd_JobWatchResponse cd) (cc_Stream cc JobWatchService_JobWatch_FullMethodName w s))"

section \<open>Server stubs\<close>

text \<open>What is registered: a handler behind the interface of its service.\<close>

datatype ('d, 's) server_impl =
    StatusServer "unit option \<Rightarrow> 's \<Rightarrow> (rpc_error + 'd protogen_StatusResponse) \<times> 's"
  | JobEnqueueServer "protogen_JobEnqueueRequest option \<Rightarrow> 's \<Rightarrow> (rpc_error + protogen_JobEnqueueResponse) \<times> 's"
  | JobGetServer "protogen_JobGetRequest option \<Rightarrow> 's \<Rightarrow> (rpc_error + protogen_JobGetResponse) \<times> 's"
  | JobClaimServer "protogen_JobClaimRequest option \<Rightarrow> 's \<Rightarrow> (rpc_error + protogen_JobClaimResponse) \<times> 's"
  | JobSettleServer "protogen_JobSettleRequest option \<Rightarrow> 's \<Rightarrow> (rpc_error + protogen_JobSettleResponse) \<times> 's"
  | JobWatchServer "protogen_JobWatchRequest option \<Rightarrow> 's \<Rightarrow> protogen_JobWatchResponse list \<times> watch_end"

text \<open>
  The body of every unary \<open>_Handler\<close>: decode the message, call the method, encode the reply. The
  interceptors around the method are in \<^emph>\<open>Served\<close>. A handler registered behind another interface fails the type
  assertion.
\<close>

definition unary_handler ::
  "grpc_lib \<Rightarrow> ('i, 'w) codec \<Rightarrow> ('o, 'w) codec \<Rightarrow> ('i option \<Rightarrow> 's \<Rightarrow> (rpc_error + 'o) \<times> 's) \<Rightarrow>
   'w \<Rightarrow> 's \<Rightarrow> (rpc_error + 'w) \<times> 's" where
  "unary_handler gl ci co impl b s =
     (case unmarshal ci b of
        None \<Rightarrow> (Inl (gl_malformed gl), s)
      | Some m \<Rightarrow> (case impl (Some m) s of
          (Inl err, s') \<Rightarrow> (Inl err, s')
        | (Inr out, s') \<Rightarrow> (put gl co out, s')))"

definition wrong_server :: "'s \<Rightarrow> (rpc_error + 'w) \<times> 's" where
  "wrong_server s = (Inl (RpcPanic ''interface conversion''), s)"

type_synonym ('d, 'w, 's) unary = "('d, 's) server_impl \<Rightarrow> 'w \<Rightarrow> 's \<Rightarrow> (rpc_error + 'w) \<times> 's"
type_synonym ('d, 'w, 's) streaming = "('d, 's) server_impl \<Rightarrow> 'w \<Rightarrow> 's \<Rightarrow> 'w list \<times> watch_end"

definition StatusService_Status_Handler :: "grpc_lib \<Rightarrow> ('d, 'w) codecs \<Rightarrow> ('d, 'w, 's) unary" where
  "StatusService_Status_Handler gl cd srv b s =
     (case srv of
        StatusServer impl \<Rightarrow> unary_handler gl (cd_StatusRequest cd) (cd_StatusResponse cd) impl b s
      | _ \<Rightarrow> wrong_server s)"

definition JobEnqueueService_JobEnqueue_Handler :: "grpc_lib \<Rightarrow> ('d, 'w) codecs \<Rightarrow> ('d, 'w, 's) unary" where
  "JobEnqueueService_JobEnqueue_Handler gl cd srv b s =
     (case srv of
        JobEnqueueServer impl \<Rightarrow> unary_handler gl (cd_JobEnqueueRequest cd) (cd_JobEnqueueResponse cd) impl b s
      | _ \<Rightarrow> wrong_server s)"

definition JobGetService_JobGet_Handler :: "grpc_lib \<Rightarrow> ('d, 'w) codecs \<Rightarrow> ('d, 'w, 's) unary" where
  "JobGetService_JobGet_Handler gl cd srv b s =
     (case srv of
        JobGetServer impl \<Rightarrow> unary_handler gl (cd_JobGetRequest cd) (cd_JobGetResponse cd) impl b s
      | _ \<Rightarrow> wrong_server s)"

definition JobClaimService_JobClaim_Handler :: "grpc_lib \<Rightarrow> ('d, 'w) codecs \<Rightarrow> ('d, 'w, 's) unary" where
  "JobClaimService_JobClaim_Handler gl cd srv b s =
     (case srv of
        JobClaimServer impl \<Rightarrow> unary_handler gl (cd_JobClaimRequest cd) (cd_JobClaimResponse cd) impl b s
      | _ \<Rightarrow> wrong_server s)"

definition JobSettleService_JobSettle_Handler :: "grpc_lib \<Rightarrow> ('d, 'w) codecs \<Rightarrow> ('d, 'w, 's) unary" where
  "JobSettleService_JobSettle_Handler gl cd srv b s =
     (case srv of
        JobSettleServer impl \<Rightarrow> unary_handler gl (cd_JobSettleRequest cd) (cd_JobSettleResponse cd) impl b s
      | _ \<Rightarrow> wrong_server s)"

text \<open>\<open>stream.Send\<close> on the server: the handler returns the error of the first message that cannot go out.\<close>

fun send_all :: "grpc_lib \<Rightarrow> ('o, 'w) codec \<Rightarrow> 'o list \<times> watch_end \<Rightarrow> 'w list \<times> watch_end" where
  "send_all gl co ([], stop) = ([], stop)"
| "send_all gl co (m # ms, stop) =
     (case put gl co m of
        Inl err \<Rightarrow> ([], WatchErr err)
      | Inr b \<Rightarrow> let (bs, stop') = send_all gl co (ms, stop) in (b # bs, stop'))"

definition JobWatchService_JobWatch_Handler :: "grpc_lib \<Rightarrow> ('d, 'w) codecs \<Rightarrow> ('d, 'w, 's) streaming" where
  "JobWatchService_JobWatch_Handler gl cd srv b s =
     (case unmarshal (cd_JobWatchRequest cd) b of
        None \<Rightarrow> ([], WatchErr (gl_malformed gl))
      | Some m \<Rightarrow>
          (case srv of
             JobWatchServer impl \<Rightarrow> send_all gl (cd_JobWatchResponse cd) (impl (Some m) s)
           | _ \<Rightarrow> ([], WatchErr (RpcPanic ''interface conversion''))))"

section \<open>Service descriptors and registration\<close>

record ('d, 'w, 's) service_desc =
  sd_ServiceName :: string
  sd_Methods :: "(string \<times> ('d, 'w, 's) unary) list"
  sd_Streams :: "(string \<times> ('d, 'w, 's) streaming) list"

definition StatusService_ServiceDesc :: "grpc_lib \<Rightarrow> ('d, 'w) codecs \<Rightarrow> ('d, 'w, 's) service_desc" where
  "StatusService_ServiceDesc gl cd =
     \<lparr> sd_ServiceName = ''StatusService'',
       sd_Methods = [(''Status'', StatusService_Status_Handler gl cd)], sd_Streams = [] \<rparr>"

definition JobEnqueueService_ServiceDesc :: "grpc_lib \<Rightarrow> ('d, 'w) codecs \<Rightarrow> ('d, 'w, 's) service_desc" where
  "JobEnqueueService_ServiceDesc gl cd =
     \<lparr> sd_ServiceName = ''JobEnqueueService'',
       sd_Methods = [(''JobEnqueue'', JobEnqueueService_JobEnqueue_Handler gl cd)], sd_Streams = [] \<rparr>"

definition JobGetService_ServiceDesc :: "grpc_lib \<Rightarrow> ('d, 'w) codecs \<Rightarrow> ('d, 'w, 's) service_desc" where
  "JobGetService_ServiceDesc gl cd =
     \<lparr> sd_ServiceName = ''JobGetService'',
       sd_Methods = [(''JobGet'', JobGetService_JobGet_Handler gl cd)], sd_Streams = [] \<rparr>"

definition JobClaimService_ServiceDesc :: "grpc_lib \<Rightarrow> ('d, 'w) codecs \<Rightarrow> ('d, 'w, 's) service_desc" where
  "JobClaimService_ServiceDesc gl cd =
     \<lparr> sd_ServiceName = ''JobClaimService'',
       sd_Methods = [(''JobClaim'', JobClaimService_JobClaim_Handler gl cd)], sd_Streams = [] \<rparr>"

definition JobSettleService_ServiceDesc :: "grpc_lib \<Rightarrow> ('d, 'w) codecs \<Rightarrow> ('d, 'w, 's) service_desc" where
  "JobSettleService_ServiceDesc gl cd =
     \<lparr> sd_ServiceName = ''JobSettleService'',
       sd_Methods = [(''JobSettle'', JobSettleService_JobSettle_Handler gl cd)], sd_Streams = [] \<rparr>"

definition JobWatchService_ServiceDesc :: "grpc_lib \<Rightarrow> ('d, 'w) codecs \<Rightarrow> ('d, 'w, 's) service_desc" where
  "JobWatchService_ServiceDesc gl cd =
     \<lparr> sd_ServiceName = ''JobWatchService'', sd_Methods = [],
       sd_Streams = [(''JobWatch'', JobWatchService_JobWatch_Handler gl cd)] \<rparr>"

text \<open>\<open>s.RegisterService(desc, srv)\<close> adds to the table of the server.\<close>

type_synonym ('d, 'w, 's) registrar = "(('d, 'w, 's) service_desc \<times> ('d, 's) server_impl) list"

definition RegisterService ::
  "('d, 'w, 's) service_desc \<Rightarrow> ('d, 's) server_impl \<Rightarrow> ('d, 'w, 's) registrar \<Rightarrow> ('d, 'w, 's) registrar" where
  "RegisterService desc srv registered = registered @ [(desc, srv)]"

definition desc_methods :: "('d, 'w, 's) service_desc \<Rightarrow> string \<times> string list" where
  "desc_methods desc =
     (sd_ServiceName desc, map fst (sd_Methods desc) @ map fst (sd_Streams desc))"

definition find_service :: "('d, 'w, 's) registrar \<Rightarrow> string \<Rightarrow> (('d, 'w, 's) service_desc \<times> ('d, 's) server_impl) option" where
  "find_service registered name = find (\<lambda>(desc, srv). sd_ServiceName desc = name) registered"

text \<open>A connection to a server with these services.\<close>

definition server_conn :: "grpc_lib \<Rightarrow> ('d, 'w, 's) registrar \<Rightarrow> ('w, 's) conn" where
  "server_conn gl registered =
     \<lparr> cc_Invoke = (\<lambda>fullMethod b s.
         case gl_route gl (map (desc_methods \<circ> fst) registered) fullMethod of
           None \<Rightarrow> (Inl (gl_unimplemented gl), s)
         | Some (service, name) \<Rightarrow>
             (case find_service registered service of
                None \<Rightarrow> (Inl (gl_unimplemented gl), s)
              | Some (desc, srv) \<Rightarrow>
                  (case map_of (sd_Methods desc) name of
                     None \<Rightarrow> (Inl (gl_unimplemented gl), s)
                   | Some handler \<Rightarrow> handler srv b s))),
       cc_Stream = (\<lambda>fullMethod b s.
         case gl_route gl (map (desc_methods \<circ> fst) registered) fullMethod of
           None \<Rightarrow> ([], WatchErr (gl_unimplemented gl))
         | Some (service, name) \<Rightarrow>
             (case find_service registered service of
                None \<Rightarrow> ([], WatchErr (gl_unimplemented gl))
              | Some (desc, srv) \<Rightarrow>
                  (case map_of (sd_Streams desc) name of
                     None \<Rightarrow> ([], WatchErr (gl_unimplemented gl))
                   | Some handler \<Rightarrow> handler srv b s))) \<rparr>"

section \<open>The bundled client\<close>

text \<open>The types and constants \<open>pkg/go\<close> re-exports, under its package name.\<close>

type_synonym servicejobs_StatusRequest = "unit"
type_synonym 'd servicejobs_StatusResponse = "'d protogen_StatusResponse"
type_synonym 'd servicejobs_QueueDepth = "'d protogen_QueueDepth"
type_synonym servicejobs_JobEnqueueRequest = "protogen_JobEnqueueRequest"
type_synonym servicejobs_JobEnqueueResponse = "protogen_JobEnqueueResponse"
type_synonym servicejobs_JobGetRequest = "protogen_JobGetRequest"
type_synonym servicejobs_JobGetResponse = "protogen_JobGetResponse"
type_synonym servicejobs_JobClaimRequest = "protogen_JobClaimRequest"
type_synonym servicejobs_JobClaimResponse = "protogen_JobClaimResponse"
type_synonym servicejobs_JobSettleRequest = "protogen_JobSettleRequest"
type_synonym servicejobs_JobSettleResponse = "protogen_JobSettleResponse"
type_synonym servicejobs_JobWatchRequest = "protogen_JobWatchRequest"
type_synonym servicejobs_JobWatchResponse = "protogen_JobWatchResponse"
type_synonym servicejobs_Job = "protogen_Job"
type_synonym servicejobs_JobStatus = "protogen_JobStatus"
type_synonym servicejobs_JobFailure = "protogen_JobFailure"
type_synonym servicejobs_JobWatchClient = "protogen_JobWatchResponse list \<times> watch_end"

definition servicejobs_JobSettleResult :: "rawmsg \<Rightarrow> isJobSettleRequest_Outcome" where
  "servicejobs_JobSettleResult = JobSettleRequest_Result"
definition servicejobs_JobSettleFailure :: "protogen_JobFailure option \<Rightarrow> isJobSettleRequest_Outcome" where
  "servicejobs_JobSettleFailure = JobSettleRequest_Failure"

definition servicejobs_JobStatusUnspecified :: servicejobs_JobStatus where "servicejobs_JobStatusUnspecified = JOB_STATUS_UNSPECIFIED"
definition servicejobs_JobStatusPending :: servicejobs_JobStatus where "servicejobs_JobStatusPending = JOB_STATUS_PENDING"
definition servicejobs_JobStatusClaimed :: servicejobs_JobStatus where "servicejobs_JobStatusClaimed = JOB_STATUS_CLAIMED"
definition servicejobs_JobStatusSucceeded :: servicejobs_JobStatus where "servicejobs_JobStatusSucceeded = JOB_STATUS_SUCCEEDED"
definition servicejobs_JobStatusFailed :: servicejobs_JobStatus where "servicejobs_JobStatusFailed = JOB_STATUS_FAILED"
definition servicejobs_JobStatusAbandoned :: servicejobs_JobStatus where "servicejobs_JobStatusAbandoned = JOB_STATUS_ABANDONED"
definition servicejobs_JobStatusCancelled :: servicejobs_JobStatus where "servicejobs_JobStatusCancelled = JOB_STATUS_CANCELLED"

text \<open>A caller that compares with them sees the status the core gave the job, and no two are alike.\<close>

lemma servicejobs_statuses:
  "map jobStatusToProto [JobStatusPending, JobStatusClaimed, JobStatusSucceeded, JobStatusFailed,
     JobStatusAbandoned, JobStatusCancelled] =
   [servicejobs_JobStatusPending, servicejobs_JobStatusClaimed, servicejobs_JobStatusSucceeded,
     servicejobs_JobStatusFailed, servicejobs_JobStatusAbandoned, servicejobs_JobStatusCancelled]"
  "distinct [servicejobs_JobStatusUnspecified, servicejobs_JobStatusPending, servicejobs_JobStatusClaimed,
     servicejobs_JobStatusSucceeded, servicejobs_JobStatusFailed, servicejobs_JobStatusAbandoned,
     servicejobs_JobStatusCancelled]"
  by (simp_all add: servicejobs_JobStatusUnspecified_def servicejobs_JobStatusPending_def
      servicejobs_JobStatusClaimed_def servicejobs_JobStatusSucceeded_def servicejobs_JobStatusFailed_def
      servicejobs_JobStatusAbandoned_def servicejobs_JobStatusCancelled_def job_status_values)

text \<open>
  \<open>pkg/go/client.go\<close>. The embedded interfaces promote one method each; \<open>Close\<close> only releases the
  connection.
\<close>

record ('d, 's) client =
  cl_Status :: "servicejobs_StatusRequest \<Rightarrow> 's \<Rightarrow> (rpc_error + 'd servicejobs_StatusResponse) \<times> 's"
  cl_JobEnqueue :: "servicejobs_JobEnqueueRequest \<Rightarrow> 's \<Rightarrow> (rpc_error + servicejobs_JobEnqueueResponse) \<times> 's"
  cl_JobGet :: "servicejobs_JobGetRequest \<Rightarrow> 's \<Rightarrow> (rpc_error + servicejobs_JobGetResponse) \<times> 's"
  cl_JobClaim :: "servicejobs_JobClaimRequest \<Rightarrow> 's \<Rightarrow> (rpc_error + servicejobs_JobClaimResponse) \<times> 's"
  cl_JobSettle :: "servicejobs_JobSettleRequest \<Rightarrow> 's \<Rightarrow> (rpc_error + servicejobs_JobSettleResponse) \<times> 's"
  cl_JobWatch :: "servicejobs_JobWatchRequest \<Rightarrow> 's \<Rightarrow> servicejobs_JobWatchClient"

text \<open>\<open>grpc.NewClient(addr, opts)\<close> gives a connection or an error.\<close>

definition NewClient :: "grpc_lib \<Rightarrow> ('d, 'w) codecs \<Rightarrow> gerr + ('w, 's) conn \<Rightarrow> gerr + ('d, 's) client" where
  "NewClient gl cd dial =
     (case dial of
        Inl err \<Rightarrow> Inl (Wrapf ''new grpc client'' err)
      | Inr cc \<Rightarrow>
          Inr \<lparr> cl_Status = statusServiceClient_Status gl cd cc,
                cl_JobEnqueue = jobEnqueueServiceClient_JobEnqueue gl cd cc,
                cl_JobGet = jobGetServiceClient_JobGet gl cd cc,
                cl_JobClaim = jobClaimServiceClient_JobClaim gl cd cc,
                cl_JobSettle = jobSettleServiceClient_JobSettle gl cd cc,
                cl_JobWatch = jobWatchServiceClient_JobWatch gl cd cc \<rparr>)"

section \<open>A round trip through the stubs\<close>

text \<open>What the other side gets of a message, and a call of \<open>impl\<close> with a wire on both sides of it.\<close>

definition carried :: "grpc_lib \<Rightarrow> 'm wire_form \<Rightarrow> ('m, 'w) codec \<Rightarrow> 'm \<Rightarrow> rpc_error + 'm" where
  "carried gl form c m =
     (if \<not> wf_encodable form m then Inl (gl_unencodable gl)
      else if oversized c m then Inl (gl_oversized gl)
      else Inr (wf_decoded form m))"

definition over_wire ::
  "grpc_lib \<Rightarrow> 'i wire_form \<times> ('i, 'w) codec \<Rightarrow> 'o wire_form \<times> ('o, 'w) codec \<Rightarrow>
   ('i option \<Rightarrow> 's \<Rightarrow> (rpc_error + 'o) \<times> 's) \<Rightarrow> 'i \<Rightarrow> 's \<Rightarrow> (rpc_error + 'o) \<times> 's" where
  "over_wire gl i ou impl m s =
     (case carried gl (fst i) (snd i) m of
        Inl err \<Rightarrow> (Inl err, s)
      | Inr m' \<Rightarrow>
          (case impl (Some m') s of
             (Inl err, s') \<Rightarrow> (Inl err, s')
           | (Inr out, s') \<Rightarrow> (carried gl (fst ou) (snd ou) out, s')))"

fun carried_all :: "grpc_lib \<Rightarrow> 'm wire_form \<Rightarrow> ('m, 'w) codec \<Rightarrow> 'm list \<times> watch_end \<Rightarrow> 'm list \<times> watch_end" where
  "carried_all gl form c ([], stop) = ([], stop)"
| "carried_all gl form c (m # ms, stop) =
     (case carried gl form c m of
        Inl err \<Rightarrow> ([], WatchErr err)
      | Inr m' \<Rightarrow> let (ms', stop') = carried_all gl form c (ms, stop) in (m' # ms', stop'))"

lemma put_cases:
  assumes "codec_ok form c"
  obtains err where "put gl c m = Inl err" "carried gl form c m = Inl err"
  | w where "put gl c m = Inr w" "carried gl form c m = Inr (wf_decoded form m)"
      "unmarshal c w = Some (wf_decoded form m)"
proof (cases "marshal c m")
  case None
  then have "\<not> wf_encodable form m" using assms [unfolded codec_ok_def, rule_format, of m] by simp
  then show ?thesis using that(1) None by (simp add: put_def carried_def)
next
  case (Some w)
  then have "wf_encodable form m" "unmarshal c w = Some (wf_decoded form m)"
    using assms [unfolded codec_ok_def, rule_format, of m] by simp_all
  then show ?thesis using that Some by (cases "oversized c m") (simp_all add: put_def carried_def)
qed

lemma put_Inr:
  "codec_ok form c \<Longrightarrow> put gl c m = Inr w \<Longrightarrow> unmarshal c w = Some (wf_decoded form m)"
  by (rule put_cases [of form c gl m]) auto

lemma put_library_error: "put gl c m = Inl err \<Longrightarrow> err \<in> set (library_errors gl)"
  by (auto simp: put_def library_errors_def split: option.splits if_splits)

lemma proto_documentedD:
  assumes "proto_documented cd"
  shows "codec_ok form_plain (cd_StatusRequest cd)" "codec_ok form_plain (cd_StatusResponse cd)"
    and "codec_ok form_JobEnqueueRequest (cd_JobEnqueueRequest cd)"
    and "codec_ok form_JobEnqueueResponse (cd_JobEnqueueResponse cd)"
    and "codec_ok form_JobGetRequest (cd_JobGetRequest cd)" "codec_ok form_JobGetResponse (cd_JobGetResponse cd)"
    and "codec_ok form_JobClaimRequest (cd_JobClaimRequest cd)"
    and "codec_ok form_JobClaimResponse (cd_JobClaimResponse cd)"
    and "codec_ok form_JobSettleRequest (cd_JobSettleRequest cd)"
    and "codec_ok form_JobSettleResponse (cd_JobSettleResponse cd)"
    and "codec_ok form_JobWatchRequest (cd_JobWatchRequest cd)"
    and "codec_ok form_JobWatchResponse (cd_JobWatchResponse cd)"
  using assms by (simp_all add: proto_documented_def)

text \<open>If the connection hands a call to the generated handler of a method, the caller gets what the method returns.\<close>

lemma Invoke_unary:
  assumes "codec_ok fi ci" "codec_ok fo co"
    and "\<And>b. cc_Invoke cc fullMethod b s = unary_handler gl ci co impl b s"
  shows "Invoke gl ci co cc fullMethod m s = over_wire gl (fi, ci) (fo, co) impl m s"
proof (rule put_cases [OF assms(1), of gl m])
  fix w
  assume i: "put gl ci m = Inr w" "carried gl fi ci m = Inr (wf_decoded fi m)" "unmarshal ci w = Some (wf_decoded fi m)"
  obtain res s' where call: "impl (Some (wf_decoded fi m)) s = (res, s')" by fastforce
  show ?thesis
  proof (cases res)
    case (Inr out)
    show ?thesis
      by (rule put_cases [OF assms(2), of gl out])
        (simp_all add: Invoke_def over_wire_def unary_handler_def assms(3) i call Inr)
  qed (simp add: Invoke_def over_wire_def unary_handler_def assms(3) i call)
qed (simp add: Invoke_def over_wire_def)

lemma receive_send_all:
  assumes "codec_ok form c"
  shows "receive_all gl c (send_all gl c out) = carried_all gl form c out"
proof -
  obtain ms stop where "out = (ms, stop)" by fastforce
  moreover have "receive_all gl c (send_all gl c (ms, stop)) = carried_all gl form c (ms, stop)"
  proof (induction ms)
    case (Cons m ms)
    obtain bs stop' where rest: "send_all gl c (ms, stop) = (bs, stop')" by fastforce
    show ?case
      by (rule put_cases [OF assms, of gl m]) (use Cons.IH in \<open>simp_all add: rest\<close>)
  qed simp
  ultimately show ?thesis by simp
qed

text \<open>Routing, for a server whose services have names of their own.\<close>

lemma find_service_eq:
  assumes "distinct (map (sd_ServiceName \<circ> fst) registered)" "(desc, srv) \<in> set registered"
  shows "find_service registered (sd_ServiceName desc) = Some (desc, srv)"
  using assms
proof (induction registered)
  case (Cons a rest)
  show ?case
  proof (cases "a = (desc, srv)")
    case False
    then have "(desc, srv) \<in> set rest" using Cons.prems(2) by simp
    moreover from this have "sd_ServiceName (fst a) \<noteq> sd_ServiceName desc"
      using Cons.prems(1) by (force simp: image_iff)
    ultimately show ?thesis
      using Cons by (simp add: find_service_def case_prod_beta)
  qed (simp add: find_service_def)
qed simp

lemma server_conn_routes:
  assumes "grpc_documented gl" "distinct (map (sd_ServiceName \<circ> fst) registered)"
    and "(desc, srv) \<in> set registered" "name \<in> set (map fst (sd_Methods desc) @ map fst (sd_Streams desc))" "CHR ''/'' \<notin> set name"
  shows "gl_route gl (map (desc_methods \<circ> fst) registered) (full_method (sd_ServiceName desc) name) =
      Some (sd_ServiceName desc, name)"
    and "find_service registered (sd_ServiceName desc) = Some (desc, srv)"
proof -
  have "map fst (map (desc_methods \<circ> fst) registered) = map (sd_ServiceName \<circ> fst) registered"
    by (simp add: desc_methods_def)
  moreover have "(sd_ServiceName desc, map fst (sd_Methods desc) @ map fst (sd_Streams desc)) \<in>
      set (map (desc_methods \<circ> fst) registered)"
    using assms(3) by (force simp: desc_methods_def)
  ultimately show "gl_route gl (map (desc_methods \<circ> fst) registered) (full_method (sd_ServiceName desc) name) =
      Some (sd_ServiceName desc, name)"
    using assms(1,2,4,5) unfolding grpc_documented_def by (metis (no_types, lifting))
  show "find_service registered (sd_ServiceName desc) = Some (desc, srv)"
    by (rule find_service_eq [OF assms(2,3)])
qed

end
