(* ===== verification/Boot.thy ===== *)
theory Boot
  imports Config Stubs Backlog Reaper QueueSystem
begin

text \<open>
  \<open>cmd/grpc/main.go\<close>: what the process does from its start to its exit. The boot is a list of
  actions, cut short by the first failure; the server it builds is the table of registered
  handlers, constructed over the services and these over the repositories, on the state all of
  them share; the shutdown starts at a signal and waits for the sweep in flight and then for
  every open call. A failure of \<open>Serve\<close> ends the process at once; the telemetry is flushed by a
  deferred call on the way out.
\<close>

section \<open>The services behind the server\<close>

text \<open>What the handlers share: the table, and the cache of the status handler.\<close>

record process =
  ps_table :: table
  ps_status :: status_cache

text \<open>
  What one call meets outside the process: two statements at most, the transaction around them, a
  new identifier, the probe of the status surface and the turns of a stream.
\<close>

record surroundings =
  su_stmt :: stmt
  su_stmt2 :: stmt
  su_txn :: txn
  su_newV7 :: "uuid option"
  su_probe :: probe
  su_overflow :: "rat \<Rightarrow> int64"
  su_polls :: "(stmt, table) poll list"

definition statusQueueCacheTTL :: int64 where "statusQueueCacheTTL = Second"
definition jobWatchPollInterval :: int64 where "jobWatchPollInterval = Second"

definition on_table :: "(table \<Rightarrow> 'r \<times> table) \<Rightarrow> process \<Rightarrow> 'r \<times> process" where
  "on_table f ps = (let (r, t) = f (ps_table ps) in (r, ps\<lparr> ps_table := t \<rparr>))"

text \<open>
  What \<open>main\<close> constructs, in its order: the repositories and the services over them, then the
  handlers over the services. The settle service alone works in a transaction, so its repositories
  run on the session of the call.
\<close>

record services =
  sv_JobEnqueue :: "(stmt, table) core_JobEnqueue"
  sv_JobGet :: "(stmt, table) core_JobGet"
  sv_JobClaim :: "(stmt, table) core_JobClaim"
  sv_JobSettle :: "(tx_ctx, session) core_JobSettle"
  sv_JobReap :: "(stmt, table) core_JobReap"
  sv_JobQueueDepth :: "(stmt, table) core_JobQueueDepth"

definition main_services :: "ext \<Rightarrow> (rat \<Rightarrow> int64) \<Rightarrow> services" where
  "main_services x overflow =
     (let daoJobEnqueue = dao_NewJobEnqueue x;
          daoJobGet = dao_NewJobGet;
          daoJobGetByID = on_session dao_NewJobGetByID;
          daoJobClaim = dao_NewJobClaim;
          daoJobSettle = on_session (dao_NewJobSettle x);
          daoJobRequeue = on_session dao_NewJobRequeue;
          daoJobReap = dao_NewJobReap x;
          daoJobQueueDepth = dao_NewJobQueueDepth overflow;
          transactor = NewTransactor
      in \<lparr> sv_JobEnqueue = core_NewJobEnqueue daoJobEnqueue,
           sv_JobGet = core_NewJobGet daoJobGet,
           sv_JobClaim = core_NewJobClaim daoJobClaim,
           sv_JobSettle = core_NewJobSettle daoJobSettle daoJobRequeue daoJobGetByID transactor jobRetentionDays,
           sv_JobReap = core_NewJobReap daoJobReap jobRetentionDays,
           sv_JobQueueDepth = core_NewJobQueueDepth daoJobQueueDepth \<rparr>)"

definition main_reaper :: "services \<Rightarrow> int64 \<Rightarrow> (stmt, table) lib_Reaper" where
  "main_reaper sv reaperInterval = lib_NewReaper (core_JobReap_Exec (sv_JobReap sv)) reaperInterval"

record handlers =
  mh_Status :: "(stmt, table) handlers_GrpcStatus"
  mh_JobEnqueue :: "(stmt, table) handlers_JobEnqueue"
  mh_JobGet :: "(stmt, table) handlers_JobGet"
  mh_JobClaim :: "(stmt, table) handlers_JobClaim"
  mh_JobSettle :: "(tx_ctx, session) handlers_JobSettle"
  mh_JobWatch :: "(stmt, table) handlers_JobWatch"

definition main_handlers :: "ext \<Rightarrow> uuid option \<Rightarrow> services \<Rightarrow> handlers" where
  "main_handlers x newV7 sv =
     \<lparr> mh_Status = handlers_NewGrpcStatus (core_JobQueueDepth_Exec (sv_JobQueueDepth sv)) statusQueueCacheTTL,
       mh_JobEnqueue = handlers_NewJobEnqueue (core_JobEnqueue_Exec x newV7 (sv_JobEnqueue sv)),
       mh_JobGet = handlers_NewJobGet (core_JobGet_Exec x (sv_JobGet sv)),
       mh_JobClaim = handlers_NewJobClaim (core_JobClaim_Exec x (sv_JobClaim sv)),
       mh_JobSettle = handlers_NewJobSettle (core_JobSettle_Exec x (sv_JobSettle sv)),
       mh_JobWatch = handlers_NewJobWatch (core_JobGet_Exec x (sv_JobGet sv)) jobWatchPollInterval \<rparr>"

text \<open>The status handler measures through its service, and keeps its cache in the process.\<close>

definition main_Status ::
  "(int64 \<Rightarrow> 'd) \<Rightarrow> (stmt, table) handlers_GrpcStatus \<Rightarrow> surroundings \<Rightarrow> process \<Rightarrow>
     'd protogen_StatusResponse \<times> process" where
  "main_Status durationpb_New handler su ps =
     (let depth = fst (hgs_queueDepth handler (su_stmt su) (ps_table ps));
          (r, c) = handler_Status durationpb_New (sint (hgs_cacheTTL handler))
                     ((su_probe su)\<lparr> pr_depth := depth \<rparr>) (ps_status ps)
      in (r, ps\<lparr> ps_status := c \<rparr>))"

definition settle_context :: "surroundings \<Rightarrow> tx_ctx" where
  "settle_context su = \<lparr> tc_txn = su_txn su, tc_first = su_stmt su, tc_second = su_stmt2 su \<rparr>"

text \<open>\<open>RegisterXServiceServer(server, handlerX)\<close>, in the order of the code.\<close>

definition main_server ::
  "(int64 \<Rightarrow> 'd) \<Rightarrow> ext \<Rightarrow> grpc_lib \<Rightarrow> ('d, 'w) codecs \<Rightarrow> surroundings \<Rightarrow> ('d, 'w, process) registrar" where
  "main_server durationpb_New x gl cd su =
     (let h = main_handlers x (su_newV7 su) (main_services x (su_overflow su)) in
      RegisterService (JobWatchService_ServiceDesc gl cd)
        (JobWatchServer (\<lambda>m ps. grpc_JobWatch x (mh_JobWatch h) (su_polls su) m))
      (RegisterService (JobSettleService_ServiceDesc gl cd)
        (JobSettleServer (\<lambda>m. on_table (in_session (handler_JobSettle x (mh_JobSettle h) (settle_context su) m))))
      (RegisterService (JobClaimService_ServiceDesc gl cd)
        (JobClaimServer (\<lambda>m. on_table (handler_JobClaim x (mh_JobClaim h) (su_stmt su) m)))
      (RegisterService (JobGetService_ServiceDesc gl cd)
        (JobGetServer (\<lambda>m. on_table (handler_JobGet x (mh_JobGet h) (su_stmt su) m)))
      (RegisterService (JobEnqueueService_ServiceDesc gl cd)
        (JobEnqueueServer (\<lambda>m. on_table (handler_JobEnqueue x (mh_JobEnqueue h) (su_stmt su) m)))
      (RegisterService (StatusService_ServiceDesc gl cd)
        (StatusServer (\<lambda>m ps. let (r, ps') = main_Status durationpb_New (mh_Status h) su ps in (Inr r, ps')))
        []))))))"

text \<open>The handlers behind the server are those over the services of the table.\<close>

lemma main_services_simps [simp]:
  "core_JobEnqueue_Exec x newV7 (sv_JobEnqueue (main_services x overflow)) = (\<lambda>e. JobEnqueue_Exec x e newV7)"
  "core_JobGet_Exec x (sv_JobGet (main_services x overflow)) = JobGet_Exec x"
  "core_JobClaim_Exec x (sv_JobClaim (main_services x overflow)) = JobClaim_Exec x"
  "sv_JobSettle (main_services x overflow) = serviceJobSettle x jobRetentionDays"
  "core_JobReap_Exec (sv_JobReap (main_services x overflow)) = (\<lambda>e. JobReap_Exec x e jobRetentionDays)"
  "core_JobQueueDepth_Exec (sv_JobQueueDepth (main_services x overflow)) = JobQueueDepth_Exec overflow"
  by (simp_all add: main_services_def Let_def fun_eq_iff JobEnqueue_Exec_def JobGet_Exec_def JobClaim_Exec_def
      serviceJobSettle_def JobReap_Exec_def JobQueueDepth_Exec_def)

lemma in_session_settle:
  "in_session (handler_JobSettle x (handlers_NewJobSettle (core_JobSettle_Exec x (serviceJobSettle x days))) cx m) =
     grpc_JobSettle x (tc_txn cx) (tc_first cx) (tc_second cx) days m"
  by (cases cx, rule ext)
    (auto simp: grpc_JobSettle_def handler_JobSettle_def JobSettle_Exec_def in_session_def open_session_def
      reply_def split: option.split prod.split sum.split)

definition main_status_handler :: "surroundings \<Rightarrow> (stmt, table) handlers_GrpcStatus" where
  "main_status_handler su = handlers_NewGrpcStatus (JobQueueDepth_Exec (su_overflow su)) statusQueueCacheTTL"

definition main_watch_handler :: "ext \<Rightarrow> (stmt, table) handlers_JobWatch" where
  "main_watch_handler x = handlers_NewJobWatch (JobGet_Exec x) jobWatchPollInterval"

lemma main_server_eq:
  "main_server durationpb_New x gl cd su =
     RegisterService (JobWatchService_ServiceDesc gl cd)
       (JobWatchServer (\<lambda>m ps. grpc_JobWatch x (main_watch_handler x) (su_polls su) m))
     (RegisterService (JobSettleService_ServiceDesc gl cd)
       (JobSettleServer (\<lambda>m. on_table
          (grpc_JobSettle x (su_txn su) (su_stmt su) (su_stmt2 su) jobRetentionDays m)))
     (RegisterService (JobClaimService_ServiceDesc gl cd)
       (JobClaimServer (\<lambda>m. on_table (grpc_JobClaim x (su_stmt su) m)))
     (RegisterService (JobGetService_ServiceDesc gl cd)
       (JobGetServer (\<lambda>m. on_table (grpc_JobGet x (su_stmt su) m)))
     (RegisterService (JobEnqueueService_ServiceDesc gl cd)
       (JobEnqueueServer (\<lambda>m. on_table (grpc_JobEnqueue x (su_stmt su) (su_newV7 su) m)))
     (RegisterService (StatusService_ServiceDesc gl cd)
       (StatusServer (\<lambda>m ps. let (r, ps') = main_Status durationpb_New (main_status_handler su) su ps in (Inr r, ps')))
       [])))))"
  by (simp add: main_server_def main_handlers_def in_session_settle settle_context_def grpc_JobClaim_def
      grpc_JobGet_def grpc_JobEnqueue_def main_status_handler_def main_watch_handler_def)

section \<open>Boot\<close>

datatype boot_action =
    SetAppName string
  | OtelInit otel_config
  | HideLogDates
  | OpenPostgres postgres_preset
  | LogSweeping int64 int
  | ListenTCP int
  | SetEchoServers int64
  | RegisterServices "string list"
  | RunReaper int64
  | LogStarting int
  | Serve
  | LogShuttingDown
  | StopReaper
  | StopServer
  | OtelFlush

text \<open>How a boot ends: \<open>log.Fatalf\<close>, a \<open>lo.Must\<close> that panics, or the process serves.\<close>

datatype boot_end =
    BootFatal interval_error
  | BootPanic gerr
  | BootServing int64

text \<open>What the outside answers to the three actions that can fail.\<close>

record host =
  ho_otel :: "gerr option"
  ho_postgres :: "gerr option"
  ho_listen :: "gerr option"

text \<open>Actions in order, each with its failure; the failing one is the last.\<close>

fun perform :: "(boot_action \<times> gerr option) list \<Rightarrow> boot_end \<Rightarrow> boot_action list \<times> boot_end" where
  "perform [] served = ([], served)"
| "perform ((a, Some err) # rest) served = ([a], BootPanic err)"
| "perform ((a, None) # rest) served = (let (acts, stop) = perform rest served in (a # acts, stop))"

definition boot_telemetry :: "config_App \<Rightarrow> settings \<Rightarrow> host \<Rightarrow> (boot_action \<times> gerr option) list" where
  "boot_telemetry cfg env ho =
     [(SetAppName (cfg_Name (cfg_App cfg)), None), (OtelInit (cfg_Otel cfg), ho_otel ho)] @
     (if env_GcloudProjectId env = '''' then [(HideLogDates, None)] else []) @
     [(OpenPostgres (newPostgresPreset env), ho_postgres ho)]"

definition boot_reaper :: "int64 \<Rightarrow> (boot_action \<times> gerr option) list" where
  "boot_reaper interval = [(LogSweeping interval jobRetentionDays, None)]"

definition boot_listen :: "config_App \<Rightarrow> host \<Rightarrow> (boot_action \<times> gerr option) list" where
  "boot_listen cfg ho = [(ListenTCP (cfg_Port (cfg_Grpc cfg)), ho_listen ho)]"

text \<open>\<open>services\<close> are the names of what \<^const>\<open>main_server\<close> registers.\<close>

definition boot_run :: "config_App \<Rightarrow> int64 \<Rightarrow> string list \<Rightarrow> (boot_action \<times> gerr option) list" where
  "boot_run cfg interval services =
     [(SetEchoServers (cfg_Ping (cfg_Grpc cfg)), None), (RegisterServices services, None),
      (RunReaper interval, None), (LogStarting (cfg_Port (cfg_Grpc cfg)), None), (Serve, None)]"

definition boot_plan :: "config_App \<Rightarrow> settings \<Rightarrow> int64 \<Rightarrow> host \<Rightarrow> string list \<Rightarrow> (boot_action \<times> gerr option) list" where
  "boot_plan cfg env interval ho services =
     boot_telemetry cfg env ho @ boot_reaper interval @ boot_listen cfg ho @ boot_run cfg interval services"

lemmas boot_plan_defs = boot_plan_def boot_telemetry_def boot_reaper_def boot_listen_def boot_run_def

text \<open>
  \<open>defer cfg.Otel.Flush()\<close> stands behind \<open>otel.Init\<close>: it runs when \<open>main\<close> returns or panics, once it
  has got there, and not when \<open>log.Fatalf\<close> ends the process.
\<close>

definition main_deferred :: "host \<Rightarrow> boot_action list" where
  "main_deferred ho = (case ho_otel ho of None \<Rightarrow> [OtelFlush] | Some err \<Rightarrow> [])"

definition main_boot :: "loaders \<Rightarrow> environ \<Rightarrow> host \<Rightarrow> string list \<Rightarrow> boot_action list \<times> boot_end" where
  "main_boot ld Getenv ho services =
     (let env = env_settings ld Getenv; cfg = AppPresetDefault env in
      case ReaperInterval (RawReaperInterval Getenv) of
        Inl err \<Rightarrow> ([], BootFatal err)
      | Inr interval \<Rightarrow>
          (case perform (boot_plan cfg env interval ho services) (BootServing interval) of
             (acts, BootPanic err) \<Rightarrow> (acts @ main_deferred ho, BootPanic err)
           | served \<Rightarrow> served))"

section \<open>Shutdown\<close>

text \<open>
  A call in flight when the server stops taking new ones: a unary call returns after some number of
  instants, a watch when its loop does. Time is counted in turns.
\<close>

datatype open_call =
    OpenUnary nat
  | OpenWatch "protogen_JobWatchRequest option" "nat \<Rightarrow> turn"

definition call_returned :: "ext \<Rightarrow> nat \<Rightarrow> open_call \<Rightarrow> bool" where
  "call_returned x n call =
     (case call of
        OpenUnary k \<Rightarrow> k \<le> n
      | OpenWatch m turns \<Rightarrow> snd (handler_JobWatch x m (map turns [0..<n])) \<noteq> Watching)"

datatype shutdown_stage = WaitingForReaper | GracefulStop | Exited

text \<open>
  \<open>stopReaper(); <-reaperDone; server.GracefulStop()\<close> after the signal, as far as it has come \<open>n\<close>
  instants later. The reaper's \<open>select\<close> may pick a tick over the cancelled context, so it is over when
  its loop returns; \<open>GracefulStop\<close> is over when every call in flight has returned.
\<close>

definition main_shutdown ::
  "ext \<Rightarrow> ('e \<Rightarrow> 's \<Rightarrow> (gerr + core_Job list) \<times> 's) \<Rightarrow> (nat \<Rightarrow> 'e wakeup) \<Rightarrow> open_call list \<Rightarrow>
   log_line list \<times> 's \<Rightarrow> nat \<Rightarrow> shutdown_stage" where
  "main_shutdown x service picks calls ls n =
     (if \<not> fst (Reaper_loop service (map picks [0..<n]) ls) then WaitingForReaper
      else if list_all (call_returned x n) calls then Exited
      else GracefulStop)"

text \<open>
  \<open>signal.Notify(quit, SIGINT, SIGTERM); <-quit\<close>: the process serves until the first of the two
  signals, which starts the shutdown. \<open>sigs\<close> says what arrives at each instant.
\<close>

datatype os_signal = SIGINT | SIGTERM

datatype run_stage =
    StillServing
  | ShuttingDown shutdown_stage
  | Crashed gerr run_stage

definition main_course ::
  "ext \<Rightarrow> ('e \<Rightarrow> 's \<Rightarrow> (gerr + core_Job list) \<times> 's) \<Rightarrow> (nat \<Rightarrow> 'e wakeup) \<Rightarrow> open_call list \<Rightarrow>
   log_line list \<times> 's \<Rightarrow> (nat \<Rightarrow> os_signal option) \<Rightarrow> nat \<Rightarrow> run_stage" where
  "main_course x service picks calls ls sigs n =
     (case find (\<lambda>i. sigs i \<noteq> None) [0..<Suc n] of
        None \<Rightarrow> StillServing
      | Some k \<Rightarrow> ShuttingDown (main_shutdown x service picks calls ls (n - k)))"

text \<open>
  The goroutine of \<open>server.Serve(listener)\<close> panics on the error \<open>Serve\<close> returns, which ends the process
  in the middle of whatever it was doing. \<open>serve\<close> says with which error the listener would fail at each
  instant; once \<open>GracefulStop\<close> has closed it, \<open>Serve\<close> returns nil.
\<close>

fun accepting :: "run_stage \<Rightarrow> bool" where
  "accepting StillServing = True"
| "accepting (ShuttingDown stage) = (stage = WaitingForReaper)"
| "accepting (Crashed err stage) = False"

definition main_run ::
  "ext \<Rightarrow> ('e \<Rightarrow> 's \<Rightarrow> (gerr + core_Job list) \<times> 's) \<Rightarrow> (nat \<Rightarrow> 'e wakeup) \<Rightarrow> open_call list \<Rightarrow>
   log_line list \<times> 's \<Rightarrow> (nat \<Rightarrow> os_signal option) \<Rightarrow> (nat \<Rightarrow> gerr option) \<Rightarrow> nat \<Rightarrow> run_stage" where
  "main_run x service picks calls ls sigs serve n =
     (let course = main_course x service picks calls ls sigs in
      case find (\<lambda>i. accepting (course i) \<and> serve i \<noteq> None) [0..<Suc n] of
        None \<Rightarrow> course n
      | Some i \<Rightarrow> (case serve i of None \<Rightarrow> course n | Some err \<Rightarrow> Crashed err (course i)))"

section \<open>The process from end to end\<close>

text \<open>What the process has done since it began to serve, and at its exit the deferred flush.\<close>

fun run_actions :: "run_stage \<Rightarrow> boot_action list" where
  "run_actions StillServing = []"
| "run_actions (ShuttingDown WaitingForReaper) = [LogShuttingDown, StopReaper]"
| "run_actions (ShuttingDown GracefulStop) = [LogShuttingDown, StopReaper, StopServer]"
| "run_actions (ShuttingDown Exited) = [LogShuttingDown, StopReaper, StopServer, OtelFlush]"
| "run_actions (Crashed err stage) = run_actions stage"

datatype main_stage =
    NotServing boot_end
  | Serving run_stage

text \<open>
  \<open>main\<close> over the whole of its life: \<open>before\<close> are the ticks the reaper meets while the process serves,
  after its first sweep, and \<open>picks\<close> what its \<open>select\<close> picks once its context is cancelled.
\<close>

definition cmd_main ::
  "loaders \<Rightarrow> environ \<Rightarrow> host \<Rightarrow> string list \<Rightarrow> ext \<Rightarrow> (rat \<Rightarrow> int64) \<Rightarrow> stmt \<Rightarrow> stmt list \<Rightarrow> (nat \<Rightarrow> stmt wakeup) \<Rightarrow>
   open_call list \<Rightarrow> (nat \<Rightarrow> os_signal option) \<Rightarrow> (nat \<Rightarrow> gerr option) \<Rightarrow> table \<Rightarrow> nat \<Rightarrow> boot_action list \<times> main_stage" where
  "cmd_main ld Getenv ho names x overflow first before picks calls sigs serve t n =
     (case main_boot ld Getenv ho names of
        (acts, BootServing interval) \<Rightarrow>
          let reaper = main_reaper (main_services x overflow) interval;
              (stop, ls) = lib_Reaper_Run reaper first (map Tick before) t;
              stage = main_run x (rp_service reaper) picks calls ls sigs serve n
          in (acts @ run_actions stage, Serving stage)
      | (acts, stop) \<Rightarrow> (acts, NotServing stop))"

end
