(* ===== verification/DurationSpec.thy ===== *)
theory DurationSpec
  imports GoDuration
begin

text \<open>
  What \<^const>\<open>ParseDuration\<close> makes of a text written by the rules: whole numbers, each with one of
  the units of the table. Such a text parses to the sum, if the sum is an \<open>int64\<close>.
\<close>

section \<open>Digits\<close>

lemma of_char_digit: "(of_char (digit n) :: nat) = 48 + n mod 10"
  by (simp add: digit_def)

lemma is_digit_digit [simp]: "is_digit (digit n)"
  by (simp add: is_digit_def of_char_digit)

lemma of_char_word_digit: "(of_char (digit n) :: uint64) = 48 + of_nat (n mod 10)"
  by (metis of_char_digit of_nat_add of_nat_numeral of_nat_of_char)

lemma decimal_not_Nil [simp]: "decimal n \<noteq> []"
  by (subst decimal.simps) simp

lemma decimal_digits: "list_all is_digit (decimal n)"
proof (induction n rule: decimal.induct)
  case (1 n)
  then show ?case by (cases "n < 10") (simp_all add: decimal_lt decimal_ge)
qed

lemma hd_decimal [simp]: "is_digit (hd (decimal n @ s))"
  using decimal_digits [of n] by (cases "decimal n") simp_all

lemma hd_decimal_alone [simp]: "is_digit (hd (decimal n))"
  using hd_decimal [of n "[]"] by simp

text \<open>A number is read back while it fits: at most \<open>2 ^ 63\<close>.\<close>

lemma uint64_less: "m < 2 ^ 64 \<Longrightarrow> unat (of_nat m :: uint64) = m"
  by (simp add: unat_of_nat)

lemma leadingInt_digit:
  assumes "m \<le> 2 ^ 63"
  shows "leadingInt (of_nat m) (digit k # s) =
    (if 10 * m + k mod 10 \<le> 2 ^ 63 then leadingInt (of_nat (10 * m + k mod 10)) s else None)"
proof -
  have m: "unat (of_nat m :: uint64) = m" using assms by (intro uint64_less) simp
  have cmp: "2 ^ 63 div 10 < (of_nat m :: uint64) \<longleftrightarrow> 922337203685477580 < m"
    by (simp add: word_less_nat_alt m unat_div)
  have arith: "(of_nat m * 10 + of_char (digit k) - 48 :: uint64) = of_nat (10 * m + k mod 10)"
    by (simp add: of_char_word_digit)
  have k: "k mod 10 < 10" by simp
  show ?thesis
  proof (cases "922337203685477580 < m")
    case True
    then show ?thesis using cmp k by simp
  next
    case False
    then have "unat (of_nat (10 * m + k mod 10) :: uint64) = 10 * m + k mod 10"
      using k by (intro uint64_less) simp
    then have "2 ^ 63 < (of_nat (10 * m + k mod 10) :: uint64) \<longleftrightarrow> 2 ^ 63 < 10 * m + k mod 10"
      by (simp add: word_less_nat_alt)
    then show ?thesis using cmp False by (simp only: leadingInt.simps is_digit_digit arith Let_def) simp
  qed
qed

lemma leadingInt_decimal:
  "leadingInt 0 (decimal n @ s) = (if n \<le> 2 ^ 63 then leadingInt (of_nat n) s else None)"
proof (induction n arbitrary: s rule: decimal.induct)
  case (1 n)
  show ?case
  proof (cases "n < 10")
    case True
    then show ?thesis using leadingInt_digit [of 0 n s] by (simp add: decimal_lt)
  next
    case False
    have split: "10 * (n div 10) + n mod 10 = n" by simp
    have "leadingInt 0 (decimal n @ s) = leadingInt 0 (decimal (n div 10) @ digit n # s)"
      using False by (simp add: decimal_ge)
    also have "\<dots> = (if n div 10 \<le> 2 ^ 63 then leadingInt (of_nat (n div 10)) (digit n # s) else None)"
      using 1 False by blast
    also have "\<dots> = (if n \<le> 2 ^ 63 then leadingInt (of_nat n) s else None)"
    proof (cases "n div 10 \<le> 2 ^ 63")
      case True
      then show ?thesis using leadingInt_digit [OF True, of n s] split by simp
    next
      case False
      then have "\<not> n \<le> 2 ^ 63" using div_le_dividend [of n 10] by linarith
      then show ?thesis using False by simp
    qed
    finally show ?thesis .
  qed
qed

lemma leadingInt_stop: "s = [] \<or> \<not> is_digit (hd s) \<Longrightarrow> leadingInt x s = Some (x, s)"
  by (cases s) auto

section \<open>Whole numbers with units\<close>

type_synonym duration_part = "nat \<times> string"

definition unit_nanos :: "string \<Rightarrow> nat" where
  "unit_nanos u = (case map_of unitMap u of None \<Rightarrow> 0 | Some unit \<Rightarrow> unat unit)"

definition part_ok :: "duration_part \<Rightarrow> bool" where
  "part_ok p \<longleftrightarrow> snd p \<in> set (map fst unitMap) \<and> fst p * unit_nanos (snd p) < 2 ^ 63"

definition part_text :: "duration_part \<Rightarrow> string" where
  "part_text p = decimal (fst p) @ snd p"

definition duration_text :: "duration_part list \<Rightarrow> string" where
  "duration_text ps = concat (map part_text ps)"

definition duration_nanos :: "duration_part list \<Rightarrow> nat" where
  "duration_nanos ps = sum_list (map (\<lambda>p. fst p * unit_nanos (snd p)) ps)"

lemma duration_Nil [simp]: "duration_text [] = []" "duration_nanos [] = 0"
  by (simp_all add: duration_text_def duration_nanos_def)

lemma duration_Cons [simp]:
  "duration_text (p # ps) = decimal (fst p) @ snd p @ duration_text ps"
  "duration_nanos (p # ps) = fst p * unit_nanos (snd p) + duration_nanos ps"
  by (simp_all add: duration_text_def duration_nanos_def part_text_def)

lemma unit_names:
  assumes "u \<in> set (map fst unitMap)"
  shows "u \<noteq> [] \<and> list_all unit_char u \<and> 0 < unit_nanos u"
proof -
  have "list_all (\<lambda>u. u \<noteq> [] \<and> list_all unit_char u \<and> 0 < unit_nanos u) (map fst unitMap)"
    by (simp add: unitMap_def unit_char_def is_digit_def unit_nanos_def)
  then show ?thesis using assms unfolding list_all_iff [of _ "map fst unitMap"] by blast
qed

lemma unit_names_map_of:
  assumes "u \<in> set (map fst unitMap)"
  obtains unit where "map_of unitMap u = Some unit" "unit_nanos u = unat unit" "0 < unat unit"
  using assms unit_names [OF assms] by (auto simp: unit_nanos_def map_of_eq_None_iff split: option.splits)

lemma duration_text_stops: "takeWhile unit_char (duration_text ps) = []" "dropWhile unit_char (duration_text ps) = duration_text ps"
proof -
  have "duration_text ps = [] \<or> is_digit (hd (duration_text ps))" by (cases ps) simp_all
  then show "takeWhile unit_char (duration_text ps) = []" "dropWhile unit_char (duration_text ps) = duration_text ps"
    by (cases "duration_text ps"; simp add: unit_char_def)+
qed

section \<open>A text written by the rules\<close>

lemma parse_unit_name:
  assumes "u \<in> set (map fst unitMap)" "n \<le> 2 ^ 63"
  shows "parse_unit orig (of_nat n) 0 1 (u @ duration_text ps) =
    (if n * unit_nanos u \<le> 2 ^ 63 then Inr (of_nat (n * unit_nanos u), duration_text ps)
     else Inl (InvalidDuration orig))"
proof -
  obtain unit where unit: "map_of unitMap u = Some unit" "unit_nanos u = unat unit" "0 < unat unit"
    by (rule unit_names_map_of [OF assms(1)])
  have u: "u \<noteq> []" "\<forall>c\<in>set u. unit_char c" using unit_names [OF assms(1)] by (simp_all add: list_all_iff)
  have tw: "takeWhile unit_char (u @ duration_text ps) = u" "dropWhile unit_char (u @ duration_text ps) = duration_text ps"
    using u(2) duration_text_stops [of ps] by (simp_all add: takeWhile_append2 dropWhile_append2)
  have n: "unat (of_nat n :: uint64) = n" using assms(2) by (intro uint64_less) simp
  have "2 ^ 63 div unit < of_nat n \<longleftrightarrow> 2 ^ 63 div unat unit < n"
    by (simp add: word_less_nat_alt unat_div n)
  also have "\<dots> \<longleftrightarrow> \<not> n * unat unit \<le> 2 ^ 63"
    using unit(3) by (simp add: div_less_iff_less_mult not_le)
  finally have cmp: "2 ^ 63 div unit < of_nat n \<longleftrightarrow> \<not> n * unat unit \<le> 2 ^ 63" .
  show ?thesis
    using cmp by (simp add: parse_unit_def tw u(1) unit Let_def)
qed

lemma parse_number_part:
  assumes "part_ok p"
  shows "parse_number orig (decimal (fst p) @ snd p @ duration_text ps) =
    Inr (of_nat (fst p * unit_nanos (snd p)), duration_text ps)"
proof -
  let ?n = "fst p" and ?u = "snd p"
  let ?s = "?u @ duration_text ps"
  have u: "?u \<in> set (map fst unitMap)" and fits: "?n * unit_nanos ?u < 2 ^ 63"
    using assms by (simp_all add: part_ok_def)
  have name: "?u \<noteq> []" "unit_char (hd ?u)" "0 < unit_nanos ?u"
    using unit_names [OF u] by (auto simp: list_all_iff)
  then have s: "?s \<noteq> []" "\<not> is_digit (hd ?s)" "hd ?s \<noteq> CHR ''.''" by (simp_all add: unit_char_def)
  have "?n * 1 \<le> ?n * unit_nanos ?u" using name(3) by (intro mult_le_mono2) simp
  then have n: "?n \<le> 2 ^ 63" using fits by linarith
  have "leadingInt 0 (decimal ?n @ ?s) = Some (of_nat ?n, ?s)"
    using n s(2) by (simp add: leadingInt_decimal leadingInt_stop del: append_assoc)
  then show ?thesis
    using s parse_unit_name [OF u n, of orig ps] fits by (simp add: parse_number_def)
qed

lemma parse_loop_text:
  assumes "list_all part_ok ps" "d \<le> 2 ^ 63"
  shows "parse_loop orig (of_nat d) (duration_text ps) =
    (if d + duration_nanos ps \<le> 2 ^ 63 then Inr (of_nat (d + duration_nanos ps))
     else Inl (InvalidDuration orig))"
  using assms
proof (induction ps arbitrary: d)
  case Nil
  then show ?case by (simp add: parse_loop.simps)
next
  case (Cons p ps)
  let ?v = "fst p * unit_nanos (snd p)"
  have p: "part_ok p" "list_all part_ok ps" using Cons.prems by simp_all
  have "unat (of_nat (d + ?v) :: uint64) = d + ?v"
    using p(1) Cons.prems(2) by (intro uint64_less) (simp add: part_ok_def)
  then have cmp: "2 ^ 63 < (of_nat d + of_nat ?v :: uint64) \<longleftrightarrow> 2 ^ 63 < d + ?v"
    by (simp add: word_less_nat_alt)
  have "parse_loop orig (of_nat d) (duration_text (p # ps)) =
      (if 2 ^ 63 < d + ?v then Inl (InvalidDuration orig)
       else parse_loop orig (of_nat (d + ?v)) (duration_text ps))"
    using parse_number_part [OF p(1), of orig ps] cmp by (simp add: parse_loop.simps [of orig "of_nat d"])
  then show ?case using Cons.IH [OF p(2), of "d + ?v"] by simp
qed

lemma not_sign: "is_digit c \<Longrightarrow> c \<noteq> CHR ''-'' \<and> c \<noteq> CHR ''+''"
  by (auto simp: is_digit_def)

lemma ParseDuration_number:
  assumes "is_digit (hd s)" "s \<noteq> []"
  shows "ParseDuration s =
    (if s = ''0'' then Inr 0
     else (case parse_loop s 0 s of
         Inl err \<Rightarrow> Inl err
       | Inr d \<Rightarrow> if 2 ^ 63 - 1 < d then Inl (InvalidDuration s) else Inr d))"
  using not_sign [OF assms(1)] assms(2) by (simp add: ParseDuration_def Let_def split: sum.split)

lemma ParseDuration_text:
  assumes "list_all part_ok ps" "ps \<noteq> []"
  shows "ParseDuration (duration_text ps) =
    (if duration_nanos ps < 2 ^ 63 then Inr (of_nat (duration_nanos ps))
     else Inl (InvalidDuration (duration_text ps)))"
proof -
  let ?s = "duration_text ps" and ?n = "duration_nanos ps"
  obtain p rest where ps: "ps = p # rest" using assms(2) by (cases ps) auto
  have "snd p \<noteq> []" using assms(1) unit_names [of "snd p"] by (simp add: ps part_ok_def)
  then have "1 < length ?s"
    using decimal_not_Nil [of "fst p"] by (cases "decimal (fst p)"; cases "snd p") (simp_all add: ps)
  then have s: "?s \<noteq> ''0''" "?s \<noteq> []" by auto
  have hd: "is_digit (hd ?s)" by (simp add: ps)
  have loop: "parse_loop ?s 0 ?s = (if ?n \<le> 2 ^ 63 then Inr (of_nat ?n) else Inl (InvalidDuration ?s))"
    using parse_loop_text [OF assms(1), of 0 ?s] by simp
  have "2 ^ 63 - 1 < (of_nat ?n :: uint64) \<longleftrightarrow> 2 ^ 63 - 1 < ?n" if "?n \<le> 2 ^ 63"
    using that uint64_less [of ?n] by (simp add: word_less_nat_alt)
  then show ?thesis using s(1) by (auto simp: ParseDuration_number [OF hd s(2)] loop)
qed

text \<open>A number without a unit is refused, except the one whose unit does not matter.\<close>

lemma ParseDuration_bare:
  "ParseDuration (decimal n) =
    (if n = 0 then Inr 0
     else if n \<le> 2 ^ 63 then Inl (MissingUnit (decimal n)) else Inl (InvalidDuration (decimal n)))"
proof (cases "n = 0")
  case True
  then show ?thesis
    using ParseDuration_number [of "decimal n"] by (simp add: decimal_lt digit_0)
next
  case False
  have "decimal n \<noteq> ''0''"
  proof (cases "n < 10")
    case True
    then have "digit n \<noteq> digit 0" using False by (metis digit_value_digit mod_less nat_int of_nat_0 zero_less_numeral)
    then show ?thesis using True by (simp add: decimal_lt digit_0)
  qed (simp add: decimal_ge)
  moreover have "parse_loop (decimal n) 0 (decimal n) =
      (if n \<le> 2 ^ 63 then Inl (MissingUnit (decimal n)) else Inl (InvalidDuration (decimal n)))"
    using leadingInt_decimal [of n "[]"] leadingInt_stop [of "[]"] decimal_not_Nil [of n, symmetric]
    by (simp add: parse_loop.simps parse_number_def parse_unit_def)
  ultimately show ?thesis using False by (simp add: ParseDuration_number)
qed

end
