(* ===== verification/BootSpec.thy ===== *)
theory BootSpec
  imports Boot DurationSpec ReaperSpec
begin

text \<open>
  The boot: a configured cadence is the one the reaper sweeps at, or the process does not start.
\<close>

section \<open>The cadence\<close>

lemma sint_of_nat64: "m < 2 ^ 63 \<Longrightarrow> sint (of_nat m :: int64) = int m"
  using sint_word64 [of "int m"] by simp

lemma ReaperInterval_text:
  assumes "list_all part_ok ps" "ps \<noteq> []"
  shows "ReaperInterval (duration_text ps) =
    (if 2 ^ 63 \<le> duration_nanos ps
     then Inl (ParseFailed (duration_text ps) (InvalidDuration (duration_text ps)))
     else if duration_nanos ps = 0 then Inl (ReaperIntervalNonPositive (duration_text ps))
     else Inr (of_nat (duration_nanos ps)))"
proof -
  obtain p rest where "ps = p # rest" using assms(2) by (cases ps) auto
  then have "duration_text ps \<noteq> []" by simp
  moreover have "of_nat (duration_nanos ps) \<le>s (0 :: int64) \<longleftrightarrow> duration_nanos ps = 0"
    if "duration_nanos ps < 2 ^ 63"
    using that by (simp add: sle_sint sint_of_nat64)
  ultimately show ?thesis
    using ParseDuration_text [OF assms] by (simp add: ReaperInterval_def)
qed

lemma ReaperInterval_bare: "\<exists>err. ReaperInterval (decimal n) = Inl err"
  by (simp add: ReaperInterval_def ParseDuration_bare)

lemma ReaperInterval_positive: "ReaperInterval raw = Inr interval \<Longrightarrow> 0 < sint interval"
  by (auto simp: ReaperInterval_def sle_sint ReaperIntervalDefault_def Second_def split: if_splits sum.splits)

lemma perform_panic: "snd (perform plan (BootServing i)) = BootPanic err \<Longrightarrow> Some err \<in> snd ` set plan"
  by (induction plan "BootServing i" rule: perform.induct) (auto split: prod.splits)

lemma perform_end: "snd (perform plan served) = served \<or> (\<exists>err. snd (perform plan served) = BootPanic err)"
  by (induction plan served rule: perform.induct) (auto split: prod.splits)

lemma perform_served:
  "snd (perform plan (BootServing i)) = BootServing i \<Longrightarrow> fst (perform plan (BootServing i)) = map fst plan"
  by (induction plan "BootServing i" rule: perform.induct) (auto split: prod.splits)

lemma boot_plan_panic:
  "snd (perform (boot_plan cfg env i ho services) (BootServing i)) = BootPanic err \<Longrightarrow>
     list_all (\<lambda>a. a \<noteq> Serve \<and> (\<forall>i. a \<noteq> RunReaper i)) (fst (perform (boot_plan cfg env i ho services) (BootServing i)))"
  by (cases "env_GcloudProjectId env = []"; cases "ho_otel ho"; cases "ho_postgres ho"; cases "ho_listen ho") (simp_all add: boot_plan_defs)

text \<open>
  C35: the reaper sweeps at the cadence that was configured, or the process does not start. With an
  interval written as whole numbers with units, each below \<open>2 ^ 63\<close> nanoseconds, a boot is refused before
  it has done anything exactly if the sum is zero or no duration; otherwise it stops only with the
  error of telemetry, database or listener, before it serves or sweeps, or it serves and the reaper runs at exactly that sum, or every 30 seconds if the
  variable is not set. A number without a unit is always refused, the zero too.
\<close>

theorem cadence_exact_or_refused:
  assumes "list_all part_ok ps"
    and "RawReaperInterval Getenv = duration_text ps" "RawReaperInterval Getenv2 = decimal n"
  shows "(case main_boot ld Getenv ho services of
       (acts, BootFatal err) \<Rightarrow> acts = [] \<and> ps \<noteq> [] \<and> (duration_nanos ps = 0 \<or> 2 ^ 63 \<le> duration_nanos ps)
     | (acts, BootPanic err) \<Rightarrow> Serve \<notin> set acts \<and> (\<forall>i. RunReaper i \<notin> set acts) \<and>
         Some err \<in> {ho_otel ho, ho_postgres ho, ho_listen ho} \<and>
         (ps = [] \<or> 0 < duration_nanos ps \<and> duration_nanos ps < 2 ^ 63)
     | (acts, BootServing i) \<Rightarrow> Serve \<in> set acts \<and> (\<forall>j. RunReaper j \<in> set acts \<longleftrightarrow> j = i) \<and> 0 < sint i \<and>
         sint i = (if ps = [] then 30000000000 else int (duration_nanos ps))) \<and>
    (\<exists>err. main_boot ld Getenv2 ho services = ([], BootFatal err))"
proof
  obtain err where "ReaperInterval (decimal n) = Inl err" using ReaperInterval_bare by blast
  then show "\<exists>err. main_boot ld Getenv2 ho services = ([], BootFatal err)"
    by (simp add: main_boot_def assms(3) Let_def)
next
  let ?n = "duration_nanos ps"
  show "case main_boot ld Getenv ho services of
       (acts, BootFatal err) \<Rightarrow> acts = [] \<and> ps \<noteq> [] \<and> (?n = 0 \<or> 2 ^ 63 \<le> ?n)
     | (acts, BootPanic err) \<Rightarrow> Serve \<notin> set acts \<and> (\<forall>i. RunReaper i \<notin> set acts) \<and>
         Some err \<in> {ho_otel ho, ho_postgres ho, ho_listen ho} \<and>
         (ps = [] \<or> 0 < ?n \<and> ?n < 2 ^ 63)
     | (acts, BootServing i) \<Rightarrow> Serve \<in> set acts \<and> (\<forall>j. RunReaper j \<in> set acts \<longleftrightarrow> j = i) \<and> 0 < sint i \<and>
         sint i = (if ps = [] then 30000000000 else int ?n)"
  proof (cases "ReaperInterval (duration_text ps)")
    case (Inl err)
    then have "ps \<noteq> [] \<and> (?n = 0 \<or> 2 ^ 63 \<le> ?n)"
      using ReaperInterval_text [OF assms(1)] by (cases "ps = []") (auto simp: ReaperInterval_def split: if_splits)
    then show ?thesis using Inl by (simp add: main_boot_def assms(2) Let_def)
  next
    case (Inr i)
    have fits: "ps = [] \<or> 0 < ?n \<and> ?n < 2 ^ 63" "sint i = (if ps = [] then 30000000000 else int ?n)"
    proof (atomize (full), cases "ps = []")
      case True
      then have "i = 30000000000"
        using Inr by (simp add: ReaperInterval_def ReaperIntervalDefault_def Second_def)
      then show "(ps = [] \<or> 0 < ?n \<and> ?n < 2 ^ 63) \<and> sint i = (if ps = [] then 30000000000 else int ?n)"
        using True by simp
    next
      case False
      then have "?n < 2 ^ 63 \<and> 0 < ?n \<and> i = of_nat ?n"
        using ReaperInterval_text [OF assms(1) False] Inr by (simp split: if_splits)
      then show "(ps = [] \<or> 0 < ?n \<and> ?n < 2 ^ 63) \<and> sint i = (if ps = [] then 30000000000 else int ?n)"
        using False by (simp add: sint_of_nat64)
    qed
    define plan where "plan = boot_plan (AppPresetDefault (env_settings ld Getenv)) (env_settings ld Getenv) i ho services"
    have boot: "main_boot ld Getenv ho services =
        (case perform plan (BootServing i) of
           (acts, BootPanic err) \<Rightarrow> (acts @ main_deferred ho, BootPanic err)
         | served \<Rightarrow> served)"
      by (simp add: main_boot_def assms(2) Inr Let_def plan_def)
    show ?thesis
    proof (cases "snd (perform plan (BootServing i)) = BootServing i")
      case True
      moreover have "Serve \<in> set (map fst plan)" "RunReaper j \<in> set (map fst plan) \<longleftrightarrow> j = i" for j
        by (auto simp: plan_def boot_plan_defs)
      ultimately show ?thesis
        unfolding boot using perform_served [OF True] ReaperInterval_positive [OF Inr] fits(2)
        by (simp add: case_prod_beta)
    next
      case False
      then obtain err where err: "snd (perform plan (BootServing i)) = BootPanic err"
        using perform_end by metis
      have "list_all (\<lambda>a. a \<noteq> Serve \<and> (\<forall>i. a \<noteq> RunReaper i)) (fst (perform plan (BootServing i)))"
        using boot_plan_panic err unfolding plan_def .
      moreover have "Some err \<in> {ho_otel ho, ho_postgres ho, ho_listen ho}"
        using perform_panic [OF err] by (auto simp: plan_def boot_plan_defs split: if_splits)
      ultimately show ?thesis
        unfolding boot using err fits(1) by (auto simp: case_prod_beta list_all_iff main_deferred_def split: option.splits)
    qed
  qed
qed

text \<open>The witness: \<open>90s\<close> is taken, \<open>30\<close> is refused.\<close>

definition quiet_host :: host where
  "quiet_host = \<lparr> ho_otel = None, ho_postgres = None, ho_listen = None \<rparr>"

definition plain_loaders :: loaders where
  "plain_loaders = \<lparr> ld_Int = (\<lambda>_ d. d), ld_String = (\<lambda>_ d. d), ld_Bool = (\<lambda>_ d. d), ld_Duration = (\<lambda>_ d. d) \<rparr>"

definition env_with :: "string \<Rightarrow> environ" where
  "env_with raw = (\<lambda>v. if v = ''REAPER_INTERVAL'' then raw else '''')"

lemma env_with_raw [simp]: "RawReaperInterval (env_with raw) = raw"
  by (simp add: RawReaperInterval_def getEnv_def env_prefix_def env_with_def)

lemma quiet_boot: "snd (main_boot ld Getenv quiet_host services) \<noteq> BootPanic err"
  by (cases "env_GcloudProjectId (env_settings ld Getenv) = []")
    (auto simp: main_boot_def boot_plan_defs quiet_host_def Let_def split: sum.splits prod.splits)

lemma cadence_exact_or_refused_witness:
  "(\<exists>acts i. main_boot plain_loaders (env_with ''1m30s'') quiet_host [] = (acts, BootServing i) \<and>
     RunReaper i \<in> set acts \<and> sint i = 90000000000) \<and>
   (\<exists>err. main_boot plain_loaders (env_with ''30'') quiet_host [] = ([], BootFatal err))"
proof -
  let ?ps = "[(1, ''m''), (30, ''s'')]"
  have parts: "list_all part_ok ?ps" "duration_nanos ?ps = 90000000000"
    by (simp_all add: part_ok_def unitMap_def unit_nanos_def)
  have "digit 0 = CHR ''0''" "digit 1 = CHR ''1''" "digit 3 = CHR ''3''" "digit 30 = CHR ''0''" by code_simp+
  then have texts: "duration_text ?ps = ''1m30s''" "decimal 30 = ''30''"
    by (simp_all add: decimal_lt decimal_ge)
  have raws: "RawReaperInterval (env_with ''1m30s'') = duration_text ?ps" "RawReaperInterval (env_with ''30'') = decimal 30"
    by (simp_all only: env_with_raw texts)
  from cadence_exact_or_refused [OF parts(1) raws, where ld = plain_loaders and ho = quiet_host and services = "[]"] parts(2)
    quiet_boot [of plain_loaders "env_with ''1m30s''" "[]"]
  show ?thesis by (auto split: prod.splits boot_end.splits)
qed

section \<open>The reaper at that cadence\<close>

text \<open>
  C32: a failing sweep never stops the reaper, and neither does its ticker. At any interval a boot
  accepts, whatever the service answers, the reaper sweeps once at the start and once per tick,
  applies each sweep to the state the one before left, returns exactly when its context is
  cancelled, and logs every failure. At an interval the boot refuses, it would panic after the
  first sweep.
\<close>

theorem reaper_outlives_failures:
  assumes "ReaperInterval raw = Inr interval" "bad \<le>s 0"
  shows "(case lib_Reaper_Run (lib_NewReaper service interval) first wakeups s of
       (stop, lines, s') \<Rightarrow>
         stop = (if CtxDone \<in> set wakeups then RunReturned else RunGoing) \<and>
         s' = fold (\<lambda>e s. snd (service e s)) (first # ticks wakeups) s \<and>
         length (filter failure_line lines) =
           length (filter (sweep_fails service) (sweeps service (first # ticks wakeups) s))) \<and>
    (\<exists>msg. fst (lib_Reaper_Run (lib_NewReaper service bad) first wakeups s) = RunPanicked msg)"
proof
  have "0 <s interval" using ReaperInterval_positive [OF assms(1)] by (simp add: sless_sint)
  then show "case lib_Reaper_Run (lib_NewReaper service interval) first wakeups s of
       (stop, lines, s') \<Rightarrow>
         stop = (if CtxDone \<in> set wakeups then RunReturned else RunGoing) \<and>
         s' = fold (\<lambda>e s. snd (service e s)) (first # ticks wakeups) s \<and>
         length (filter failure_line lines) =
           length (filter (sweep_fails service) (sweeps service (first # ticks wakeups) s))"
    using lib_Reaper_Run_positive [of "lib_NewReaper service interval" first wakeups s]
      Reaper_Run_outlives [of service first wakeups s]
    by (simp add: lib_NewReaper_def case_prod_beta)
  show "\<exists>msg. fst (lib_Reaper_Run (lib_NewReaper service bad) first wakeups s) = RunPanicked msg"
    using assms(2) by (simp add: lib_Reaper_Run_def lib_NewReaper_def Let_def)
qed

text \<open>The witness: the default cadence, and a service that counts its calls and always fails.\<close>

lemma reaper_outlives_failures_witness:
  "case lib_Reaper_Run (lib_NewReaper (\<lambda>_ n. (Inl (Sentinel DriverFailure), Suc n)) ReaperIntervalDefault)
     () [Tick (), Tick (), CtxDone, Tick ()] 0 of
     (stop, lines, n) \<Rightarrow> stop = RunReturned \<and> n = 3 \<and> length (filter failure_line lines) = 3"
proof -
  have "ReaperInterval '''' = Inr ReaperIntervalDefault" by (simp add: ReaperInterval_def)
  from reaper_outlives_failures [OF this, where bad = 0 and first = "()" and s = 0
      and service = "\<lambda>_ n. (Inl (Sentinel DriverFailure), Suc n)" and wakeups = "[Tick (), Tick (), CtxDone, Tick ()]"]
  show ?thesis by (auto simp: sweep_fails_def split: prod.splits)
qed

end
