(* ===== verification/ClientSpec.thy ===== *)
theory ClientSpec
  imports Boot Scenario
begin

text \<open>
  Calls from outside: a method of the client is the service behind it, and no call, however it is
  made, breaks the table.
\<close>

section \<open>From the client to the service\<close>

lemmas wiring = main_server_eq RegisterService_def full_method_def full_method_names
  StatusService_ServiceDesc_def StatusService_Status_Handler_def
  JobEnqueueService_ServiceDesc_def JobEnqueueService_JobEnqueue_Handler_def
  JobGetService_ServiceDesc_def JobGetService_JobGet_Handler_def
  JobClaimService_ServiceDesc_def JobClaimService_JobClaim_Handler_def
  JobSettleService_ServiceDesc_def JobSettleService_JobSettle_Handler_def
  JobWatchService_ServiceDesc_def JobWatchService_JobWatch_Handler_def

lemma main_server_names:
  "distinct (map (sd_ServiceName \<circ> fst) (main_server d x gl cd su))"
  by (simp add: wiring)

text \<open>A unary method whose full name is that of a registered handler.\<close>

lemma client_unary:
  assumes "grpc_documented gl" "distinct (map (sd_ServiceName \<circ> fst) registered)"
    and "(desc, srv) \<in> set registered" "fullMethod = full_method (sd_ServiceName desc) name" "CHR ''/'' \<notin> set name"
    and "map_option (\<lambda>handler. handler srv) (map_of (sd_Methods desc) name) = Some (unary_handler gl ci co impl)"
    and "codec_ok fi ci" "codec_ok fo co"
  shows "Invoke gl ci co (server_conn gl registered) fullMethod m s = over_wire gl (fi, ci) (fo, co) impl m s"
proof -
  obtain handler where h: "map_of (sd_Methods desc) name = Some handler" "handler srv = unary_handler gl ci co impl"
    using assms(6) by auto
  then have "name \<in> set (map fst (sd_Methods desc) @ map fst (sd_Streams desc))"
    by (force dest: map_of_SomeD)
  from server_conn_routes [OF assms(1-3) this assms(5)] show ?thesis
    using h assms(4) by (intro Invoke_unary [OF assms(7,8)]) (simp add: server_conn_def)
qed

lemma client_stream:
  assumes "grpc_documented gl" "distinct (map (sd_ServiceName \<circ> fst) registered)"
    and "(desc, srv) \<in> set registered" "fullMethod = full_method (sd_ServiceName desc) name" "CHR ''/'' \<notin> set name"
    and "map_of (sd_Streams desc) name = Some handler"
  shows "cc_Stream (server_conn gl registered) fullMethod b s = handler srv b s"
proof -
  have "name \<in> set (map fst (sd_Methods desc) @ map fst (sd_Streams desc))"
    using assms(6) by (force dest: map_of_SomeD)
  from server_conn_routes [OF assms(1-3) this assms(5)] show ?thesis
    using assms(4,6) by (simp add: server_conn_def)
qed

text \<open>The services \<open>main\<close> registers, over the state of the process.\<close>

definition enqueue_service ::
  "ext \<Rightarrow> surroundings \<Rightarrow> protogen_JobEnqueueRequest option \<Rightarrow> process \<Rightarrow> (rpc_error + protogen_JobEnqueueResponse) \<times> process" where
  "enqueue_service x su = (\<lambda>m. on_table (grpc_JobEnqueue x (su_stmt su) (su_newV7 su) m))"

definition get_service ::
  "ext \<Rightarrow> surroundings \<Rightarrow> protogen_JobGetRequest option \<Rightarrow> process \<Rightarrow> (rpc_error + protogen_JobGetResponse) \<times> process" where
  "get_service x su = (\<lambda>m. on_table (grpc_JobGet x (su_stmt su) m))"

definition claim_service ::
  "ext \<Rightarrow> surroundings \<Rightarrow> protogen_JobClaimRequest option \<Rightarrow> process \<Rightarrow> (rpc_error + protogen_JobClaimResponse) \<times> process" where
  "claim_service x su = (\<lambda>m. on_table (grpc_JobClaim x (su_stmt su) m))"

definition settle_service ::
  "ext \<Rightarrow> surroundings \<Rightarrow> protogen_JobSettleRequest option \<Rightarrow> process \<Rightarrow> (rpc_error + protogen_JobSettleResponse) \<times> process" where
  "settle_service x su =
     (\<lambda>m. on_table (grpc_JobSettle x (su_txn su) (su_stmt su) (su_stmt2 su) jobRetentionDays m))"

definition status_service ::
  "(int64 \<Rightarrow> 'd) \<Rightarrow> surroundings \<Rightarrow> unit option \<Rightarrow> process \<Rightarrow> (rpc_error + 'd protogen_StatusResponse) \<times> process" where
  "status_service d su = (\<lambda>m ps. let (r, ps') = main_Status d (main_status_handler su) su ps in (Inr r, ps'))"

lemmas services =
  enqueue_service_def get_service_def claim_service_def settle_service_def status_service_def

lemma client_unary_methods:
  fixes d :: "int64 \<Rightarrow> 'd"
  assumes "grpc_documented gl" "proto_documented cd"
    and "NewClient gl cd (Inr (server_conn gl (main_server d x gl cd su))) = Inr c"
  shows "cl_JobEnqueue c m1 ps =
      over_wire gl (form_JobEnqueueRequest, cd_JobEnqueueRequest cd)
        (form_JobEnqueueResponse, cd_JobEnqueueResponse cd) (enqueue_service x su) m1 ps"
    and "cl_JobGet c m2 ps =
      over_wire gl (form_JobGetRequest, cd_JobGetRequest cd)
        (form_JobGetResponse, cd_JobGetResponse cd) (get_service x su) m2 ps"
    and "cl_JobClaim c m3 ps =
      over_wire gl (form_JobClaimRequest, cd_JobClaimRequest cd)
        (form_JobClaimResponse, cd_JobClaimResponse cd) (claim_service x su) m3 ps"
    and "cl_JobSettle c m4 ps =
      over_wire gl (form_JobSettleRequest, cd_JobSettleRequest cd)
        (form_JobSettleResponse, cd_JobSettleResponse cd) (settle_service x su) m4 ps"
    and "cl_Status c () ps =
      over_wire gl (form_plain, cd_StatusRequest cd) (form_plain, cd_StatusResponse cd) (status_service d su) () ps"
proof -
  let ?reg = "main_server d x gl cd su"
  note ok = proto_documentedD [OF assms(2)]
  note unary = client_unary [OF assms(1) main_server_names [of d x gl cd su]]
  have c: "cl_Status c = statusServiceClient_Status gl cd (server_conn gl ?reg)"
    "cl_JobEnqueue c = jobEnqueueServiceClient_JobEnqueue gl cd (server_conn gl ?reg)"
    "cl_JobGet c = jobGetServiceClient_JobGet gl cd (server_conn gl ?reg)"
    "cl_JobClaim c = jobClaimServiceClient_JobClaim gl cd (server_conn gl ?reg)"
    "cl_JobSettle c = jobSettleServiceClient_JobSettle gl cd (server_conn gl ?reg)"
    using assms(3) by (auto simp: NewClient_def)
  show "cl_JobEnqueue c m1 ps =
      over_wire gl (form_JobEnqueueRequest, cd_JobEnqueueRequest cd)
        (form_JobEnqueueResponse, cd_JobEnqueueResponse cd) (enqueue_service x su) m1 ps"
    unfolding c jobEnqueueServiceClient_JobEnqueue_def
    by (rule unary [of "JobEnqueueService_ServiceDesc gl cd"
          "JobEnqueueServer (\<lambda>m. on_table (grpc_JobEnqueue x (su_stmt su) (su_newV7 su) m))" _ "''JobEnqueue''"])
      (simp_all add: wiring fun_eq_iff ok services)
  show "cl_JobGet c m2 ps =
      over_wire gl (form_JobGetRequest, cd_JobGetRequest cd)
        (form_JobGetResponse, cd_JobGetResponse cd) (get_service x su) m2 ps"
    unfolding c jobGetServiceClient_JobGet_def
    by (rule unary [of "JobGetService_ServiceDesc gl cd"
          "JobGetServer (\<lambda>m. on_table (grpc_JobGet x (su_stmt su) m))" _ "''JobGet''"])
      (simp_all add: wiring fun_eq_iff ok services)
  show "cl_JobClaim c m3 ps =
      over_wire gl (form_JobClaimRequest, cd_JobClaimRequest cd)
        (form_JobClaimResponse, cd_JobClaimResponse cd) (claim_service x su) m3 ps"
    unfolding c jobClaimServiceClient_JobClaim_def
    by (rule unary [of "JobClaimService_ServiceDesc gl cd"
          "JobClaimServer (\<lambda>m. on_table (grpc_JobClaim x (su_stmt su) m))" _ "''JobClaim''"])
      (simp_all add: wiring fun_eq_iff ok services)
  show "cl_JobSettle c m4 ps =
      over_wire gl (form_JobSettleRequest, cd_JobSettleRequest cd)
        (form_JobSettleResponse, cd_JobSettleResponse cd) (settle_service x su) m4 ps"
    unfolding c jobSettleServiceClient_JobSettle_def
    by (rule unary [of "JobSettleService_ServiceDesc gl cd"
          "JobSettleServer (\<lambda>m. on_table (grpc_JobSettle x (su_txn su) (su_stmt su) (su_stmt2 su) jobRetentionDays m))"
          _ "''JobSettle''"])
      (simp_all add: wiring fun_eq_iff ok services)
  show "cl_Status c () ps =
      over_wire gl (form_plain, cd_StatusRequest cd) (form_plain, cd_StatusResponse cd) (status_service d su) () ps"
    unfolding c statusServiceClient_Status_def
    by (rule unary [of "StatusService_ServiceDesc gl cd"
          "StatusServer (\<lambda>m ps. let (r, ps') = main_Status d (main_status_handler su) su ps in (Inr r, ps'))" _ "''Status''"])
      (simp_all add: wiring fun_eq_iff ok services)
qed

text \<open>An empty payload and none are the same enqueue.\<close>

lemma grpc_JobEnqueue_payload:
  "grpc_JobEnqueue x e v (Some (m\<lparr> peq_Payload := plain_bytes (peq_Payload m) \<rparr>)) = grpc_JobEnqueue x e v (Some m)"
proof -
  have "payloadOr (plain_bytes b) = payloadOr b" "fingerprintOf (plain_bytes b) = fingerprintOf b" for b
    by (auto simp: plain_bytes_def payloadOr_def fingerprintOf_def)
  then show ?thesis
    by (simp add: fun_eq_iff grpc_JobEnqueue_def handler_JobEnqueue_def JobEnqueue_Exec_eq enqueue_request_def
        valid_enqueue_def request_getters split: option.split)
qed

text \<open>
  C37: a method of the client is the service it names, with a wire between them. Over a connection to
  the server \<open>main\<close> sets up, a method of a client that was dialled fails with no handler run if its
  request has a string that is not UTF-8 or is too large; otherwise the handler of that name, wired
  to the service of that name over the shared table, gets the request as \<open>proto3\<close> decodes it, its error
  comes back as it is, and its reply as decoded: a reply that cannot be sent becomes an error after the
  call took effect. No two methods are crossed. Decoding changes no request of a claim, a read or a
  watch; an empty payload becomes nil, which is the same enqueue; and of an outcome it keeps which arm
  was set, so a success never arrives as a failure.
\<close>

theorem client_method_is_its_service:
  fixes d :: "int64 \<Rightarrow> 'd"
  assumes "grpc_documented gl" "proto_documented cd"
    and "NewClient gl cd (Inr (server_conn gl (main_server d x gl cd su))) = Inr c"
  shows "cl_JobEnqueue c m1 ps =
      over_wire gl (form_JobEnqueueRequest, cd_JobEnqueueRequest cd)
        (form_JobEnqueueResponse, cd_JobEnqueueResponse cd) (enqueue_service x su) m1 ps \<and>
    enqueue_service x su (Some (wf_decoded form_JobEnqueueRequest m1)) = enqueue_service x su (Some m1) \<and>
    cl_JobGet c m2 ps =
      over_wire gl (form_JobGetRequest, cd_JobGetRequest cd)
        (form_JobGetResponse, cd_JobGetResponse cd) (get_service x su) m2 ps \<and>
    wf_decoded form_JobGetRequest m2 = m2 \<and>
    cl_JobClaim c m3 ps =
      over_wire gl (form_JobClaimRequest, cd_JobClaimRequest cd)
        (form_JobClaimResponse, cd_JobClaimResponse cd) (claim_service x su) m3 ps \<and>
    wf_decoded form_JobClaimRequest m3 = m3 \<and>
    cl_JobSettle c m4 ps =
      over_wire gl (form_JobSettleRequest, cd_JobSettleRequest cd)
        (form_JobSettleResponse, cd_JobSettleResponse cd) (settle_service x su) m4 ps \<and>
    (JobSettleRequest_GetFailure (Some (wf_decoded form_JobSettleRequest m4)) = None \<longleftrightarrow>
      (\<forall>f. psq_Outcome m4 \<noteq> JobSettleRequest_Failure f)) \<and>
    cl_JobWatch c m5 ps =
      (case carried gl form_JobWatchRequest (cd_JobWatchRequest cd) m5 of
         Inl err \<Rightarrow> ([], WatchErr err)
       | Inr m \<Rightarrow> carried_all gl form_JobWatchResponse (cd_JobWatchResponse cd)
           (grpc_JobWatch x (main_watch_handler x) (su_polls su) (Some m))) \<and>
    wf_decoded form_JobWatchRequest m5 = m5 \<and>
    cl_Status c () ps =
      over_wire gl (form_plain, cd_StatusRequest cd) (form_plain, cd_StatusResponse cd) (status_service d su) () ps"
proof -
  let ?reg = "main_server d x gl cd su"
  note ok = proto_documentedD [OF assms(2)]
  have c: "cl_JobWatch c = jobWatchServiceClient_JobWatch gl cd (server_conn gl ?reg)"
    using assms(3) by (auto simp: NewClient_def)
  have stream: "cc_Stream (server_conn gl ?reg) JobWatchService_JobWatch_FullMethodName b ps =
      JobWatchService_JobWatch_Handler gl cd (JobWatchServer (\<lambda>m ps. grpc_JobWatch x (main_watch_handler x) (su_polls su) m)) b ps" for b
    by (rule client_stream [OF assms(1) main_server_names, of "JobWatchService_ServiceDesc gl cd" _ _ _ _ _ _ _ "''JobWatch''"])
      (simp_all add: wiring fun_eq_iff)
  have watch: "cl_JobWatch c m5 ps =
      (case carried gl form_JobWatchRequest (cd_JobWatchRequest cd) m5 of
         Inl err \<Rightarrow> ([], WatchErr err)
       | Inr m \<Rightarrow> carried_all gl form_JobWatchResponse (cd_JobWatchResponse cd)
           (grpc_JobWatch x (main_watch_handler x) (su_polls su) (Some m)))"
    unfolding c jobWatchServiceClient_JobWatch_def
    by (rule put_cases [OF ok(11), of gl m5])
      (simp_all add: stream JobWatchService_JobWatch_Handler_def receive_send_all [OF ok(12)])
  have "enqueue_service x su (Some (wf_decoded form_JobEnqueueRequest m1)) = enqueue_service x su (Some m1)"
    by (simp add: enqueue_service_def form_JobEnqueueRequest_def grpc_JobEnqueue_payload)
  then show ?thesis
    using client_unary_methods [OF assms] watch decoded_settle_getters(2)
    by (simp add: form_JobGetRequest_def form_JobClaimRequest_def form_JobWatchRequest_def)
qed

text \<open>
  The witness: a library that finds a method by its full name, and a wire that carries the messages as
  they are.
\<close>

definition plain_grpc :: grpc_lib where
  "plain_grpc = \<lparr> gl_route = (\<lambda>registered fullMethod.
       find (\<lambda>(service, name). full_method service name = fullMethod \<and> CHR ''/'' \<notin> set name)
         (concat (map (\<lambda>(service, methods). map (Pair service) methods) registered))),
     gl_unimplemented = RpcStatus CodeUnknown ''unimplemented'',
     gl_malformed = RpcStatus CodeInternal ''malformed'',
     gl_unencodable = RpcStatus CodeInternal ''string field contains invalid UTF-8'',
     gl_oversized = RpcStatus CodeUnknown ''received message larger than max'' \<rparr>"

lemma full_method_inject:
  assumes "full_method s m = full_method s' m'" "CHR ''/'' \<notin> set m" "CHR ''/'' \<notin> set m'"
  shows "s = s' \<and> m = m'"
proof -
  have tail: "rev n = takeWhile (\<lambda>c. c \<noteq> CHR ''/'') (rev (full_method r n))" if "CHR ''/'' \<notin> set n" for r n
  proof -
    have "takeWhile (\<lambda>c. c \<noteq> CHR ''/'') (rev n @ CHR ''/'' # rev r @ ''/'') = rev n"
      using that by (subst takeWhile_append2) auto
    then show ?thesis by (simp add: full_method_def)
  qed
  have "rev m = rev m'" using tail [OF assms(2), of s] tail [OF assms(3), of s'] assms(1) by simp
  then show ?thesis using assms(1) by (simp add: full_method_def)
qed

lemma plain_grpc_documented: "grpc_documented plain_grpc"
  unfolding grpc_documented_def
proof (intro allI impI, elim conjE)
  fix registered :: "(string \<times> string list) list" and service name :: string and methods :: "string list"
  assume r: "(service, methods) \<in> set registered" "name \<in> set methods" "CHR ''/'' \<notin> set name"
  let ?P = "\<lambda>(s, m). full_method s m = full_method service name \<and> CHR ''/'' \<notin> set m"
  let ?all = "concat (map (\<lambda>(service, methods). map (Pair service) methods) registered)"
  have "(service, name) \<in> set ?all" using r by force
  moreover have "?P (service, name)" using r(3) by simp
  ultimately have "find ?P ?all \<noteq> None" unfolding find_None_iff by blast
  then obtain s m where "find ?P ?all = Some (s, m)" by auto
  moreover from this have "s = service \<and> m = name"
    using full_method_inject [OF _ _ r(3), of s m service] unfolding find_Some_iff by auto
  ultimately show "gl_route plain_grpc registered (full_method service name) = Some (service, name)"
    by (simp add: plain_grpc_def)
qed

datatype wire =
    WStatusRequest unit | WStatusResponse "int64 protogen_StatusResponse"
  | WEnqueueRequest protogen_JobEnqueueRequest | WEnqueueResponse protogen_JobEnqueueResponse
  | WGetRequest protogen_JobGetRequest | WGetResponse protogen_JobGetResponse
  | WClaimRequest protogen_JobClaimRequest | WClaimResponse protogen_JobClaimResponse
  | WSettleRequest protogen_JobSettleRequest | WSettleResponse protogen_JobSettleResponse
  | WWatchRequest protogen_JobWatchRequest | WWatchResponse protogen_JobWatchResponse

definition plain_codec :: "'m wire_form \<Rightarrow> ('m \<Rightarrow> wire) \<Rightarrow> (wire \<Rightarrow> 'm option) \<Rightarrow> ('m, wire) codec" where
  "plain_codec form con des =
     \<lparr> marshal = (\<lambda>m. if wf_encodable form m then Some (con (wf_decoded form m)) else None),
       unmarshal = des, oversized = (\<lambda>_. False) \<rparr>"

lemma plain_codec_ok: "(\<And>m. des (con m) = Some m) \<Longrightarrow> codec_ok form (plain_codec form con des)"
  by (simp add: codec_ok_def plain_codec_def)

definition plain_codecs :: "(int64, wire) codecs" where
  "plain_codecs =
     \<lparr> cd_StatusRequest = plain_codec form_plain WStatusRequest (\<lambda>w. case w of WStatusRequest m \<Rightarrow> Some m | _ \<Rightarrow> None),
       cd_StatusResponse = plain_codec form_plain WStatusResponse (\<lambda>w. case w of WStatusResponse m \<Rightarrow> Some m | _ \<Rightarrow> None),
       cd_JobEnqueueRequest = plain_codec form_JobEnqueueRequest WEnqueueRequest (\<lambda>w. case w of WEnqueueRequest m \<Rightarrow> Some m | _ \<Rightarrow> None),
       cd_JobEnqueueResponse = plain_codec form_JobEnqueueResponse WEnqueueResponse (\<lambda>w. case w of WEnqueueResponse m \<Rightarrow> Some m | _ \<Rightarrow> None),
       cd_JobGetRequest = plain_codec form_JobGetRequest WGetRequest (\<lambda>w. case w of WGetRequest m \<Rightarrow> Some m | _ \<Rightarrow> None),
       cd_JobGetResponse = plain_codec form_JobGetResponse WGetResponse (\<lambda>w. case w of WGetResponse m \<Rightarrow> Some m | _ \<Rightarrow> None),
       cd_JobClaimRequest = plain_codec form_JobClaimRequest WClaimRequest (\<lambda>w. case w of WClaimRequest m \<Rightarrow> Some m | _ \<Rightarrow> None),
       cd_JobClaimResponse = plain_codec form_JobClaimResponse WClaimResponse (\<lambda>w. case w of WClaimResponse m \<Rightarrow> Some m | _ \<Rightarrow> None),
       cd_JobSettleRequest = plain_codec form_JobSettleRequest WSettleRequest (\<lambda>w. case w of WSettleRequest m \<Rightarrow> Some m | _ \<Rightarrow> None),
       cd_JobSettleResponse = plain_codec form_JobSettleResponse WSettleResponse (\<lambda>w. case w of WSettleResponse m \<Rightarrow> Some m | _ \<Rightarrow> None),
       cd_JobWatchRequest = plain_codec form_JobWatchRequest WWatchRequest (\<lambda>w. case w of WWatchRequest m \<Rightarrow> Some m | _ \<Rightarrow> None),
       cd_JobWatchResponse = plain_codec form_JobWatchResponse WWatchResponse (\<lambda>w. case w of WWatchResponse m \<Rightarrow> Some m | _ \<Rightarrow> None) \<rparr>"

lemma plain_codecs_documented: "proto_documented plain_codecs"
  by (simp add: proto_documented_def plain_codecs_def plain_codec_ok)

lemma plain_put:
  "put plain_grpc (plain_codec form con des) m =
     (if wf_encodable form m then Inr (con (wf_decoded form m)) else Inl (gl_unencodable plain_grpc))"
  by (simp add: put_def plain_codec_def)

lemma plain_carried:
  "carried plain_grpc form (plain_codec form con des) m =
     (if wf_encodable form m then Inr (wf_decoded form m) else Inl (gl_unencodable plain_grpc))"
  by (simp add: carried_def plain_codec_def)

definition calm :: surroundings where
  "calm = \<lparr> su_stmt = stmt_at 20, su_stmt2 = stmt_at 20, su_txn = txn_alone, su_newV7 = Some 1,
            su_probe = story_probe 0 0, su_overflow = (\<lambda>_. 0), su_polls = [] \<rparr>"

lemma client_method_is_its_service_witness:
  "\<exists>c. NewClient plain_grpc plain_codecs
        (Inr (server_conn plain_grpc (main_server (\<lambda>n. n) ext0 plain_grpc plain_codecs calm))) = Inr c \<and>
     cl_JobClaim c \<lparr> pcq_Kinds = [''k''], pcq_WorkerId = ''w'', pcq_Limit = 1, pcq_LeaseSeconds = 30 \<rparr>
       \<lparr> ps_table = [], ps_status = NewGrpcStatus \<rparr> =
     (Inr \<lparr> pcr_Jobs = [] \<rparr>, \<lparr> ps_table = [], ps_status = NewGrpcStatus \<rparr>)"
proof -
  let ?m = "\<lparr> pcq_Kinds = [''k''], pcq_WorkerId = ''w'', pcq_Limit = 1, pcq_LeaseSeconds = 30 \<rparr>"
  obtain c where c: "NewClient plain_grpc plain_codecs
      (Inr (server_conn plain_grpc (main_server (\<lambda>n. n) ext0 plain_grpc plain_codecs calm))) = Inr c"
    by (simp add: NewClient_def)
  have "wf_encodable form_JobClaimRequest ?m" "wf_encodable form_JobClaimResponse \<lparr> pcr_Jobs = [] \<rparr>"
    by (simp_all add: form_JobClaimRequest_def form_JobClaimResponse_def ascii_valid ascii_def)
  moreover have "cl_JobClaim c ?m ps =
      over_wire plain_grpc (form_JobClaimRequest, cd_JobClaimRequest plain_codecs)
        (form_JobClaimResponse, cd_JobClaimResponse plain_codecs) (claim_service ext0 calm) ?m ps" for ps
    using client_method_is_its_service [OF plain_grpc_documented plain_codecs_documented c] by blast
  moreover have "JobClaim_Exec ext0 (stmt_at 20)
      \<lparr> ccr_Kinds = [''k''], ccr_WorkerID = ''w'', ccr_Limit = 1, ccr_LeaseSeconds = 30 \<rparr> [] = (Inr [], [])"
    by (simp add: JobClaim_Exec_eq valid_claim_def dao_JobClaim_Exec_def claim_request_def dao_query_delivered
        sql_jobClaim_def update_returning_def update_errors_def update_rows_def scan_all_def map_filter_simps)
  ultimately show ?thesis
    using c by (intro exI [of _ c])
      (simp add: over_wire_def plain_codecs_def plain_carried claim_service_def calm_def form_JobClaimRequest_def
        form_JobClaimResponse_def on_table_def grpc_JobClaim_def handler_JobClaim_def JobClaimRequest_GetKinds_def
        JobClaimRequest_GetWorkerId_def JobClaimRequest_GetLimit_def JobClaimRequest_GetLeaseSeconds_def)
qed

section \<open>Whatever is sent\<close>

text \<open>What one call may do to the table of the process.\<close>

definition table_kept :: "process \<Rightarrow> process \<Rightarrow> bool" where
  "table_kept ps ps' \<longleftrightarrow> table_wf (ps_table ps') \<and> table_evolves (ps_table ps) (ps_table ps')"

lemma table_kept_same: "table_wf (ps_table ps) \<Longrightarrow> table_kept ps ps"
  by (simp add: table_kept_def)

lemma unary_handler_kept:
  assumes "table_wf (ps_table ps)" "\<And>m. table_kept ps (snd (impl m ps))"
  shows "table_kept ps (snd (unary_handler gl ci co impl w ps))"
  using assms by (auto simp: unary_handler_def table_kept_same split: option.splits prod.splits sum.splits)
    (metis snd_conv)+

lemma on_table_kept:
  "table_wf (snd (f (ps_table ps))) \<and> table_evolves (ps_table ps) (snd (f (ps_table ps))) \<Longrightarrow>
     table_kept ps (snd (on_table f ps))"
  by (simp add: table_kept_def on_table_def case_prod_beta)

lemma main_Status_kept:
  "table_wf (ps_table ps) \<Longrightarrow> table_kept ps (snd (case main_Status d (main_status_handler su) su ps of (r, ps') \<Rightarrow> (Inr r, ps')))"
  by (simp add: main_Status_def Let_def case_prod_beta table_kept_def)

lemma find_service_member: "find_service registered name = Some (desc, srv) \<Longrightarrow> (desc, srv) \<in> set registered"
  unfolding find_service_def by (induction registered) (auto split: if_splits)

lemma grpc_tables:
  assumes "table_wf t" "table_wf (tx_between tx t)" "table_evolves t (tx_between tx t)"
  shows "table_wf (snd (grpc_JobEnqueue x e v m1 t)) \<and> table_evolves t (snd (grpc_JobEnqueue x e v m1 t))"
    and "table_wf (snd (grpc_JobGet x e m2 t)) \<and> table_evolves t (snd (grpc_JobGet x e m2 t))"
    and "table_wf (snd (grpc_JobClaim x e m3 t)) \<and> table_evolves t (snd (grpc_JobClaim x e m3 t))"
    and "table_wf (snd (grpc_JobSettle x tx e e2 days m4 t)) \<and> table_evolves t (snd (grpc_JobSettle x tx e e2 days m4 t))"
  using assms(1) JobSettle_Exec_tables [OF assms]
  by (auto simp: grpc_JobEnqueue_def handler_JobEnqueue_def grpc_JobGet_def handler_JobGet_def grpc_JobClaim_def
      handler_JobClaim_def grpc_JobSettle_def handler_JobSettle_def enqueue_core.keeps_wf enqueue_core.evolves
      claim_core.keeps_wf claim_core.evolves split: option.splits)

text \<open>
  C12: nothing a peer sends breaks the table. On a table that satisfies its constraints, with other
  sessions that, inside the transaction of a retry, keep them and only let rows evolve, a call of any method name, known or not, with
  any message, well formed or not, over any routing and any decoding, leaves a table in which every
  row satisfies every constraint of the schema, no two rows share an identifier or an idempotency
  key, and every row that was there is still there with its identity, no fewer attempts, and
  unchanged if it was terminal.
\<close>

theorem any_call_keeps_the_table:
  fixes d :: "int64 \<Rightarrow> 'd" and cd :: "('d, 'w) codecs" and w :: 'w
  assumes "table_wf (ps_table ps)"
    and "table_wf (tx_between (su_txn su) (ps_table ps))"
    and "table_evolves (ps_table ps) (tx_between (su_txn su) (ps_table ps))"
  shows "table_wf (ps_table (snd (cc_Invoke (server_conn gl (main_server d x gl cd su)) fullMethod w ps))) \<and>
    table_evolves (ps_table ps)
      (ps_table (snd (cc_Invoke (server_conn gl (main_server d x gl cd su)) fullMethod w ps)))"
proof -
  let ?reg = "main_server d x gl cd su"
  note kept = grpc_tables [OF assms]
  have methods: "table_kept ps (snd (on_table (grpc_JobEnqueue x e v m1) ps))"
    "table_kept ps (snd (on_table (grpc_JobGet x e m2) ps))"
    "table_kept ps (snd (on_table (grpc_JobClaim x e m3) ps))"
    "table_kept ps (snd (on_table (grpc_JobSettle x (su_txn su) e e2 days m4) ps))"
    for e v e2 days m1 m2 m3 m4
    by (rule on_table_kept, rule kept)+
  have handlers: "table_kept ps (snd (handler srv w ps))"
    if "(desc, srv) \<in> set ?reg" "map_of (sd_Methods desc) name = Some handler" for desc srv name handler
    using that by (auto simp: wiring split: if_splits intro!: unary_handler_kept assms(1) methods main_Status_kept)
  have "table_kept ps (snd (cc_Invoke (server_conn gl ?reg) fullMethod w ps))"
    by (auto simp: server_conn_def table_kept_same assms(1) split: option.splits prod.splits
        dest!: find_service_member intro: handlers)
  then show ?thesis by (simp add: table_kept_def)
qed

text \<open>The witness: a claim over a wire that mangles every message, on a table with a job.\<close>

lemma any_call_keeps_the_table_witness:
  "table_wf (ps_table (snd (cc_Invoke
     (server_conn plain_grpc (main_server (\<lambda>n. n) ext0 plain_grpc plain_codecs calm))
     ''/JobClaimService/JobClaim'' (WStatusRequest ()) \<lparr> ps_table = [row_pending], ps_status = NewGrpcStatus \<rparr>)))"
  by (rule any_call_keeps_the_table [THEN conjunct1]) (simp_all add: calm_def)

end
