(* ===== verification/ShutdownSpec.thy ===== *)
theory ShutdownSpec
  imports BootSpec Scenario
begin

text \<open>
  What a shutdown waits for: the reaper's loop, and then every call in flight. Nothing cancels the
  stream of a caller that watches a job, so it is the jobs and the callers that decide.
\<close>

section \<open>When a watch is over\<close>

text \<open>
  A turn that ends the loop of a watch whose messages arrive: the read fails, the job is terminal, or
  the caller is gone.
\<close>

definition ending_turn :: "core_JobGetRequest \<Rightarrow> turn \<Rightarrow> bool" where
  "ending_turn request turn \<longleftrightarrow>
     (case tn_service turn request of
        Inl err \<Rightarrow> True
      | Inr job \<Rightarrow> sql_terminal (cj_Status job) \<or> tn_done turn \<noteq> None)"

lemma watch_loop_ends:
  assumes "list_all (\<lambda>turn. tn_send turn = None) turns"
  shows "snd (watch_loop x request prev turns) \<noteq> Watching \<longleftrightarrow> list_ex (ending_turn request) turns"
  using assms
proof (induction turns arbitrary: prev)
  case (Cons turn turns)
  then show ?case
    by (cases "tn_service turn request"; cases "tn_done turn")
      (auto simp: ending_turn_def isTerminalStatus_sql Let_def case_prod_beta)
qed simp

definition watch_ids :: "ext \<Rightarrow> protogen_JobWatchRequest option \<Rightarrow> core_JobGetRequest option" where
  "watch_ids x m =
     (case x_uuid_Parse x (JobWatchRequest_GetId m) of
        None \<Rightarrow> None
      | Some jobID \<Rightarrow>
          map_option (\<lambda>ownerID. \<lparr> cgr_ID = jobID, cgr_OwnerID = ownerID \<rparr>)
            (x_uuid_Parse x (JobWatchRequest_GetOwnerId m)))"

definition watch_ends :: "ext \<Rightarrow> protogen_JobWatchRequest option \<Rightarrow> (nat \<Rightarrow> turn) \<Rightarrow> nat \<Rightarrow> bool" where
  "watch_ends x m turns n \<longleftrightarrow>
     (case watch_ids x m of None \<Rightarrow> True | Some request \<Rightarrow> list_ex (ending_turn request) (map turns [0..<n]))"

lemma handler_JobWatch_ends:
  assumes "\<And>i. tn_send (turns i) = None"
  shows "snd (handler_JobWatch x m (map turns [0..<n])) \<noteq> Watching \<longleftrightarrow> watch_ends x m turns n"
  using watch_loop_ends [of "map turns [0..<n]" x] assms
  by (auto simp: handler_JobWatch_def watch_ends_def watch_ids_def list_all_iff split: option.splits)

lemma watch_ends_mono: "watch_ends x m turns n \<Longrightarrow> n \<le> k \<Longrightarrow> watch_ends x m turns k"
  by (auto simp: watch_ends_def list_ex_iff split: option.splits)

section \<open>When the process exits\<close>

definition open_call_ends :: "ext \<Rightarrow> open_call \<Rightarrow> bool" where
  "open_call_ends x call =
     (case call of OpenUnary k \<Rightarrow> True | OpenWatch m turns \<Rightarrow> \<exists>n. watch_ends x m turns n)"

definition sends_succeed :: "open_call \<Rightarrow> bool" where
  "sends_succeed call = (case call of OpenUnary k \<Rightarrow> True | OpenWatch m turns \<Rightarrow> \<forall>i. tn_send (turns i) = None)"

lemma call_returned_watch:
  "sends_succeed (OpenWatch m turns) \<Longrightarrow> call_returned x n (OpenWatch m turns) \<longleftrightarrow> watch_ends x m turns n"
  using handler_JobWatch_ends [of turns x m n] by (simp add: call_returned_def sends_succeed_def)

lemma call_returned_mono:
  assumes "sends_succeed call" "call_returned x n call" "n \<le> k"
  shows "call_returned x k call"
proof (cases call)
  case (OpenUnary j)
  then show ?thesis using assms by (simp add: call_returned_def)
next
  case (OpenWatch m turns)
  then show ?thesis
    using assms call_returned_watch watch_ends_mono by metis
qed

lemma call_returns_iff:
  assumes "sends_succeed call"
  shows "(\<exists>n. call_returned x n call) \<longleftrightarrow> open_call_ends x call"
proof (cases call)
  case (OpenUnary j)
  then show ?thesis by (auto simp: call_returned_def open_call_ends_def)
next
  case (OpenWatch m turns)
  then show ?thesis using call_returned_watch assms by (auto simp: open_call_ends_def)
qed

lemma all_calls_return:
  assumes "\<forall>call\<in>set calls. sends_succeed call \<and> open_call_ends x call"
  shows "\<exists>N. \<forall>n\<ge>N. list_all (call_returned x n) calls"
  using assms
proof (induction calls)
  case (Cons call calls)
  then obtain N k where "\<forall>n\<ge>N. list_all (call_returned x n) calls" "call_returned x k call"
    using call_returns_iff by fastforce
  then show ?case
    using Cons.prems call_returned_mono [of call x k] by (intro exI [of _ "max N k"]) auto
qed simp

text \<open>After the signal.\<close>

lemma main_shutdown_ends_iff:
  assumes "\<forall>call\<in>set calls. sends_succeed call"
  shows "(\<exists>N. \<forall>n\<ge>N. main_shutdown x service picks calls ls n = Exited) \<longleftrightarrow>
    (\<exists>i. picks i = CtxDone) \<and> (\<forall>call\<in>set calls. open_call_ends x call)"
proof
  assume "\<exists>N. \<forall>n\<ge>N. main_shutdown x service picks calls ls n = Exited"
  then obtain n where "main_shutdown x service picks calls ls n = Exited" by blast
  then have "CtxDone \<in> set (map picks [0..<n])" "list_all (call_returned x n) calls"
    by (auto simp: main_shutdown_def Reaper_loop_returns split: if_splits)
  moreover from this have "\<exists>i. picks i = CtxDone" by (auto simp: eq_commute [of CtxDone])
  ultimately show "(\<exists>i. picks i = CtxDone) \<and> (\<forall>call\<in>set calls. open_call_ends x call)"
    using assms call_returns_iff unfolding list_all_iff by blast
next
  assume ends: "(\<exists>i. picks i = CtxDone) \<and> (\<forall>call\<in>set calls. open_call_ends x call)"
  then obtain i where i: "picks i = CtxDone" by blast
  obtain N where N: "\<forall>n\<ge>N. list_all (call_returned x n) calls"
    using all_calls_return assms ends by blast
  have "main_shutdown x service picks calls ls n = Exited" if "max N (Suc i) \<le> n" for n
  proof -
    have "CtxDone \<in> set (map picks [0..<n])" using i that by (simp add: image_iff) (metis atLeastLessThan_iff le_simps(3) zero_le)
    then show ?thesis using N that by (simp add: main_shutdown_def Reaper_loop_returns)
  qed
  then show "\<exists>N. \<forall>n\<ge>N. main_shutdown x service picks calls ls n = Exited" by blast
qed

text \<open>The first signal, once there is one.\<close>

lemma find_first:
  assumes "P k" "\<And>i. i < k \<Longrightarrow> \<not> P i"
  shows "k \<le> n \<Longrightarrow> find P [0..<Suc n] = Some k"
  unfolding find_Some_iff using assms by (intro exI [of _ k]) (auto simp del: upt_Suc)

lemma main_course_ends_iff:
  assumes "\<forall>call\<in>set calls. sends_succeed call"
  shows "(\<exists>N. \<forall>n\<ge>N. main_course x service picks calls ls sigs n = ShuttingDown Exited) \<longleftrightarrow>
    (\<exists>k. sigs k \<noteq> None) \<and> (\<exists>i. picks i = CtxDone) \<and> (\<forall>call\<in>set calls. open_call_ends x call)"
proof (cases "\<exists>k. sigs k \<noteq> None")
  case True
  define k where "k = (LEAST k. sigs k \<noteq> None)"
  have k: "sigs k \<noteq> None" "\<And>i. i < k \<Longrightarrow> \<not> sigs i \<noteq> None"
    using LeastI_ex [OF True] not_less_Least unfolding k_def by blast+
  have run: "main_course x service picks calls ls sigs n = ShuttingDown (main_shutdown x service picks calls ls (n - k))"
    if "k \<le> n" for n
    using find_first [of "\<lambda>i. sigs i \<noteq> None" k n] k that by (simp del: upt_Suc add: main_course_def)
  have "(\<exists>N. \<forall>n\<ge>N. main_course x service picks calls ls sigs n = ShuttingDown Exited) \<longleftrightarrow>
      (\<exists>N. \<forall>n\<ge>N. main_shutdown x service picks calls ls n = Exited)" (is "?run \<longleftrightarrow> ?shut")
  proof
    assume ?run
    then obtain N where N: "\<forall>n\<ge>N. main_course x service picks calls ls sigs n = ShuttingDown Exited" by blast
    have "main_shutdown x service picks calls ls n = Exited" if "N \<le> n" for n
      using N run [of "n + k"] that by simp
    then show ?shut by blast
  next
    assume ?shut
    then obtain N where N: "\<forall>n\<ge>N. main_shutdown x service picks calls ls n = Exited" by blast
    have "main_course x service picks calls ls sigs n = ShuttingDown Exited" if "N + k \<le> n" for n
      using N run [of n] that by simp
    then show ?run by blast
  qed
  then show ?thesis using True main_shutdown_ends_iff [OF assms] by simp
next
  case False
  then have "find (\<lambda>i. sigs i \<noteq> None) [0..<Suc n] = None" for n
    unfolding find_None_iff by blast
  then have "main_course x service picks calls ls sigs n = StillServing" for n
    by (simp only: main_course_def option.case)
  then show ?thesis using False by auto
qed

text \<open>A failure of the listener while it is used ends the process there and then, and for good.\<close>

lemma main_run_cases:
  obtains (held) "\<forall>i\<le>n. accepting (main_course x service picks calls ls sigs i) \<longrightarrow> serve i = None"
      "main_run x service picks calls ls sigs serve n = main_course x service picks calls ls sigs n"
  | (crashed) i err where "i \<le> n" "accepting (main_course x service picks calls ls sigs i)" "serve i = Some err"
      "main_run x service picks calls ls sigs serve n = Crashed err (main_course x service picks calls ls sigs i)"
proof (cases "find (\<lambda>i. accepting (main_course x service picks calls ls sigs i) \<and> serve i \<noteq> None) [0..<Suc n]")
  case None
  moreover from this have "\<forall>i\<le>n. accepting (main_course x service picks calls ls sigs i) \<longrightarrow> serve i = None"
    unfolding find_None_iff by (auto simp: less_Suc_eq_le simp del: upt_Suc)
  ultimately show ?thesis by (intro held) (simp_all only: main_run_def Let_def option.case)
next
  case (Some i)
  then have i: "i \<in> set [0..<Suc n]" "accepting (main_course x service picks calls ls sigs i)" "serve i \<noteq> None"
    by (auto simp: find_Some_iff simp del: upt_Suc)
  then obtain err where err: "serve i = Some err" by blast
  have "main_run x service picks calls ls sigs serve n = Crashed err (main_course x service picks calls ls sigs i)"
    using Some err by (simp only: main_run_def Let_def option.case)
  then show ?thesis using crashed [OF _ i(2) err] i(1) by auto
qed

text \<open>
  C34: a process exits exactly if it is told to, the reaper notices, the watchers are served or
  leave, and its listener holds. It reaches its exit, and stays there, if and only if it gets an
  interrupt or a termination signal, the reaper's \<open>select\<close> at some point picks its cancelled context,
  every stream in flight comes to a turn in which its job is terminal, its read fails or its caller
  is gone, and \<open>Serve\<close> never fails before the listener is closed. One caller that stays on a job no
  worker settles keeps the process from ever exiting.
\<close>

theorem shutdown_ends_iff:
  assumes "\<forall>call\<in>set calls. sends_succeed call"
  shows "(\<exists>N. \<forall>n\<ge>N. main_run x service picks calls ls sigs serve n = ShuttingDown Exited) \<longleftrightarrow>
    (\<exists>k. sigs k \<noteq> None) \<and> (\<exists>i. picks i = CtxDone) \<and> (\<forall>call\<in>set calls. open_call_ends x call) \<and>
    (\<forall>i. accepting (main_course x service picks calls ls sigs i) \<longrightarrow> serve i = None)"
proof (cases "\<forall>i. accepting (main_course x service picks calls ls sigs i) \<longrightarrow> serve i = None")
  case True
  have "main_run x service picks calls ls sigs serve n = main_course x service picks calls ls sigs n" for n
    by (rule main_run_cases [of n x service picks calls ls sigs serve]) (use True in auto)
  then show ?thesis using True main_course_ends_iff [OF assms] by simp
next
  case False
  then obtain i where i: "accepting (main_course x service picks calls ls sigs i)" "serve i \<noteq> None" by blast
  have "main_run x service picks calls ls sigs serve (max N i) \<noteq> ShuttingDown Exited" for N
    by (rule main_run_cases [of "max N i" x service picks calls ls sigs serve]) (use i in auto)
  then show ?thesis using False max.cobounded1 by blast
qed

text \<open>The witness: a caller watches a pending job that nobody settles.\<close>

definition patient_watch :: open_call where
  "patient_watch = OpenWatch (Some \<lparr> pwq_Id = ''x'', pwq_OwnerId = ''x'' \<rparr>) (\<lambda>_. quiet (jobToCore row_pending))"

lemma patient_watch_stays: "sends_succeed patient_watch" "\<not> open_call_ends ext0 patient_watch"
proof -
  have "watch_ids ext0 (Some \<lparr> pwq_Id = ''x'', pwq_OwnerId = ''x'' \<rparr>) = Some \<lparr> cgr_ID = 1, cgr_OwnerID = 1 \<rparr>"
    by (simp add: watch_ids_def JobWatchRequest_GetId_def JobWatchRequest_GetOwnerId_def ext0_parse)
  then show "\<not> open_call_ends ext0 patient_watch"
    by (auto simp: patient_watch_def open_call_ends_def watch_ends_def ending_turn_def list_ex_iff row_pending_def)
qed (simp add: patient_watch_def sends_succeed_def)

lemma shutdown_ends_iff_witness:
  "\<not> (\<exists>N. \<forall>n\<ge>N. main_run ext0 (\<lambda>_ s. (Inr [], s)) (\<lambda>_. CtxDone) [patient_watch, OpenUnary 3] ([], ())
     (\<lambda>_. Some SIGTERM) (\<lambda>_. None) n = ShuttingDown Exited)"
proof -
  have "\<forall>call\<in>set [patient_watch, OpenUnary 3]. sends_succeed call"
    using patient_watch_stays(1) by (simp add: sends_succeed_def)
  from shutdown_ends_iff [OF this, of ext0 "\<lambda>_ s. (Inr [], s)" "\<lambda>_. CtxDone" "([], ())" "\<lambda>_. Some SIGTERM" "\<lambda>_. None"]
  show ?thesis using patient_watch_stays(2) by simp
qed

section \<open>What the process leaves behind\<close>

text \<open>
  Telemetry is flushed at most once, and then last: when the boot panics behind \<open>otel.Init\<close>, and at
  the exit. A boot that is refused, a failing \<open>otel.Init\<close> and a failing listener flush nothing.
\<close>

lemma run_actions_flush:
  "OtelFlush \<in> set (run_actions stage) \<Longrightarrow> \<not> (\<exists>err st. stage = Crashed err st) \<Longrightarrow>
     stage = ShuttingDown Exited \<and> run_actions stage = [LogShuttingDown, StopReaper, StopServer, OtelFlush]"
  by (induction stage rule: run_actions.induct) simp_all

lemma accepting_no_flush: "accepting stage \<Longrightarrow> OtelFlush \<notin> set (run_actions stage)"
  by (cases stage rule: accepting.cases) simp_all

lemma main_run_flush:
  "OtelFlush \<in> set (run_actions (main_run x service picks calls ls sigs serve n)) \<longleftrightarrow>
     main_run x service picks calls ls sigs serve n = ShuttingDown Exited"
proof (rule main_run_cases [of n x service picks calls ls sigs serve])
  assume run: "main_run x service picks calls ls sigs serve n = main_course x service picks calls ls sigs n"
  have "\<nexists>err st. main_course x service picks calls ls sigs n = Crashed err st"
    unfolding main_course_def by (auto split: option.split)
  from run_actions_flush [OF _ this] run_actions.simps(4) show ?thesis unfolding run by (metis list.set_intros)
qed (use accepting_no_flush in auto)

lemma perform_no_flush:
  "list_all (\<lambda>(a, failure). a \<noteq> OtelFlush) plan \<Longrightarrow> OtelFlush \<notin> set (fst (perform plan served))"
  by (induction plan served rule: perform.induct) (auto split: prod.splits)

lemma boot_plan_no_flush: "OtelFlush \<notin> set (fst (perform (boot_plan cfg env i ho names) served))"
  by (rule perform_no_flush) (simp add: boot_plan_defs)

lemma main_boot_flush:
  assumes "main_boot ld Getenv ho names = (acts, stop)"
  shows "if (\<exists>err. stop = BootPanic err) \<and> ho_otel ho = None
    then \<exists>acts'. acts = acts' @ [OtelFlush] \<and> OtelFlush \<notin> set acts'
    else OtelFlush \<notin> set acts"
proof (cases "ReaperInterval (RawReaperInterval Getenv)")
  case (Inl err)
  then show ?thesis using assms by (auto simp: main_boot_def Let_def)
next
  case (Inr i)
  let ?p = "perform (boot_plan (AppPresetDefault (env_settings ld Getenv)) (env_settings ld Getenv) i ho names) (BootServing i)"
  obtain acts' served where p: "?p = (acts', served)" by fastforce
  have "OtelFlush \<notin> set acts'" using boot_plan_no_flush [of _ _ i ho names "BootServing i"] p by (metis fst_conv)
  moreover have "served = BootServing i \<or> (\<exists>err. served = BootPanic err)" using perform_end [of _ "BootServing i"] p by (metis snd_conv)
  ultimately show ?thesis
    using assms Inr p by (cases "ho_otel ho") (auto simp: main_boot_def Let_def main_deferred_def)
qed

lemma flush_is_last:
  assumes "cmd_main ld Getenv ho names x overflow first before picks calls sigs serve t n = (acts, stage)"
  shows "if stage = Serving (ShuttingDown Exited) \<or> (\<exists>err. stage = NotServing (BootPanic err)) \<and> ho_otel ho = None
    then \<exists>acts'. acts = acts' @ [OtelFlush] \<and> OtelFlush \<notin> set acts'
    else OtelFlush \<notin> set acts"
proof (cases "main_boot ld Getenv ho names")
  case (Pair booted stop)
  note boot = main_boot_flush [OF Pair]
  show ?thesis
  proof (cases stop)
    case (BootServing i)
    let ?reaper = "main_reaper (main_services x overflow) i"
    let ?run = "main_run x (rp_service ?reaper) picks calls (snd (lib_Reaper_Run ?reaper first (map Tick before) t)) sigs serve n"
    have run: "stage = Serving ?run" "acts = booted @ run_actions ?run"
      using assms Pair BootServing by (auto simp: cmd_main_def case_prod_beta Let_def)
    show ?thesis
    proof (cases "?run = ShuttingDown Exited")
      case True
      then have "acts = (booted @ [LogShuttingDown, StopReaper, StopServer]) @ [OtelFlush]" using run(2) by simp
      moreover have "OtelFlush \<notin> set (booted @ [LogShuttingDown, StopReaper, StopServer])" using boot BootServing by simp
      ultimately show ?thesis using True run(1) by auto
    next
      case False
      then show ?thesis using run boot BootServing main_run_flush [of x "rp_service ?reaper" picks calls _ sigs serve n] by auto
    qed
  qed (use assms Pair boot in \<open>auto simp: cmd_main_def\<close>)
qed

end
