(* ===== verification/SettleCalls.thy ===== *)
theory SettleCalls
  imports CoreSettle
begin

text \<open>
  What the settle service asks of its dependencies, whatever they are and whatever they answer.
  The dependencies are wrapped so that each call is recorded beside their own state; the transactor
  is any that runs its body once or not at all.
\<close>

section \<open>Recording the calls\<close>

datatype settle_call =
    CallSettle dao_JobSettleRequest
  | CallRequeue dao_JobRequeueRequest
  | CallGet dao_JobGetByIDRequest
  | CallBegin

definition recorded :: "('q \<Rightarrow> settle_call) \<Rightarrow> ('c, 'q, 'r, 's) exec \<Rightarrow> ('c, 'q, 'r, 's \<times> settle_call list) exec" where
  "recorded tag f ctx q sl = (let (res, s) = f ctx q (fst sl) in (res, s, snd sl @ [tag q]))"

text \<open>
  \<open>WithinTx\<close>: a transaction that cannot be opened fails; otherwise the body runs in the context of
  the transaction, and what becomes of its result and its writes is the transactor's.
\<close>

record ('c, 's) tx_manager =
  tm_begin :: "'c \<Rightarrow> 's \<Rightarrow> gerr option"
  tm_context :: "'c \<Rightarrow> 'c"
  tm_finish :: "'c \<Rightarrow> 's \<Rightarrow> (gerr + core_Job) \<times> 's \<Rightarrow> (gerr + core_Job) \<times> 's"

definition recorded_tx :: "('c, 's) tx_manager \<Rightarrow> ('c, 's \<times> settle_call list) Transactor" where
  "recorded_tx tm ctx body sl =
     (case tm_begin tm ctx (fst sl) of
        Some err \<Rightarrow> (Inl err, sl)
      | None \<Rightarrow>
          let (res, s, calls) = body (tm_context tm ctx) (fst sl, snd sl @ [CallBegin]);
              (res', s') = tm_finish tm ctx (fst sl) (res, s)
          in (res', s', calls))"

definition recorded_JobSettle ::
  "('c, 's) JobSettleSettleDao \<Rightarrow> ('c, 's) JobSettleRequeueDao \<Rightarrow> ('c, 's) JobSettleGetDao \<Rightarrow>
   ('c, 's) tx_manager \<Rightarrow> int \<Rightarrow> ('c, 's \<times> settle_call list) core_JobSettle" where
  "recorded_JobSettle settleDao requeueDao getDao tm days =
     core_NewJobSettle (recorded CallSettle settleDao) (recorded CallRequeue requeueDao)
       (recorded CallGet getDao) (recorded_tx tm) days"

text \<open>The calls one settle makes, from a state of the dependencies.\<close>

definition settle_calls ::
  "ext \<Rightarrow> ('c, 's) JobSettleSettleDao \<Rightarrow> ('c, 's) JobSettleRequeueDao \<Rightarrow> ('c, 's) JobSettleGetDao \<Rightarrow>
   ('c, 's) tx_manager \<Rightarrow> int \<Rightarrow> 'c \<Rightarrow> core_JobSettleRequest \<Rightarrow> 's \<Rightarrow> settle_call list" where
  "settle_calls x settleDao requeueDao getDao tm days ctx request s =
     snd (snd (core_JobSettle_Exec x (recorded_JobSettle settleDao requeueDao getDao tm days) ctx request (s, [])))"

text \<open>The write a retryable failure ends in, for what the read found.\<close>

definition retry_call :: "int \<Rightarrow> core_JobSettleRequest \<Rightarrow> JobFailure \<Rightarrow> gerr + job \<Rightarrow> settle_call list" where
  "retry_call days request failure found =
     (case found of
        Inl err \<Rightarrow> []
      | Inr entity \<Rightarrow>
          if job_Status entity \<noteq> JobStatusClaimed \<or> job_ClaimedBy entity \<noteq> Some (csr_WorkerID request) then []
          else if sint (job_Attempt entity) < sint (job_MaxAttempts entity)
          then [CallRequeue \<lparr> drr_ID = csr_ID request, drr_WorkerID = csr_WorkerID request \<rparr>]
          else [CallSettle (settle_request days request JobStatusFailed None (fl_Error failure))])"

lemma recorded_JobSettle_simps [simp]:
  "sjs_settleDao (recorded_JobSettle a b c tm days) = recorded CallSettle a"
  "sjs_requeueDao (recorded_JobSettle a b c tm days) = recorded CallRequeue b"
  "sjs_getDao (recorded_JobSettle a b c tm days) = recorded CallGet c"
  "sjs_transactor (recorded_JobSettle a b c tm days) = recorded_tx tm"
  "sjs_retentionDays (recorded_JobSettle a b c tm days) = days"
  by (simp_all add: recorded_JobSettle_def core_NewJobSettle_def)

lemma recorded_calls [simp]: "snd (snd (recorded tag f ctx q sl)) = snd sl @ [tag q]"
  by (simp add: recorded_def split: prod.split)

lemma recorded_answer:
  "fst (recorded tag f ctx q sl) = fst (f ctx q (fst sl))"
  "fst (snd (recorded tag f ctx q sl)) = snd (f ctx q (fst sl))"
  by (simp_all add: recorded_def split: prod.split)

lemma write_calls:
  "snd (snd (core_retry_write (recorded_JobSettle a b c tm days) ctx request failure entity sl)) =
     snd sl @ (if sint (job_Attempt entity) < sint (job_MaxAttempts entity)
       then [CallRequeue \<lparr> drr_ID = csr_ID request, drr_WorkerID = csr_WorkerID request \<rparr>]
       else [CallSettle (settle_request days request JobStatusFailed None (fl_Error failure))])"
  by (simp add: core_retry_write_def sless_sint)

lemma body_calls:
  "snd (snd (core_retry_body (recorded_JobSettle a b c tm days) request failure ctx sl)) =
     snd sl @ CallGet \<lparr> dgi_ID = csr_ID request \<rparr> #
       retry_call days request failure (fst (c ctx \<lparr> dgi_ID = csr_ID request \<rparr> (fst sl)))"
proof -
  let ?q = "\<lparr> dgi_ID = csr_ID request \<rparr>"
  obtain found s' calls where get: "recorded CallGet c ctx ?q sl = (found, s', calls)" by (metis prod_cases3)
  have "found = fst (c ctx ?q (fst sl))" "calls = snd sl @ [CallGet ?q]"
    using recorded_answer(1) [of CallGet c ctx ?q sl] recorded_calls [of CallGet c ctx ?q sl] by (simp_all add: get)
  then show ?thesis
    by (auto simp: core_retry_body_def get retry_call_def retry_checked_def write_calls split: sum.split)
qed

section \<open>The contract\<close>

text \<open>
  C19: a settle asks of the database exactly what its outcome needs, in order. For any data access
  and any transactor: a request that is not valid reaches neither; a success and a terminal failure
  are one write, with the result or the error, the status and the retention, outside any
  transaction; a retryable failure reads the job inside a transaction, and then writes at most
  once: a requeue if the worker holds the job and an attempt is left, a settlement as failed if it
  holds it and none is, nothing otherwise. Nothing is written if the transaction does not open.
\<close>

theorem settle_asks_what_it_needs:
  "settle_calls x settleDao requeueDao getDao tm days ctx request s =
     (if \<not> valid_settle x request then []
      else case csr_Failure request of
        None \<Rightarrow> [CallSettle (settle_request days request JobStatusSucceeded (csr_Result request) None)]
      | Some failure \<Rightarrow>
          if \<not> fl_Retryable failure
          then [CallSettle (settle_request days request JobStatusFailed None (fl_Error failure))]
          else case tm_begin tm ctx s of
            Some err \<Rightarrow> []
          | None \<Rightarrow>
              CallBegin # CallGet \<lparr> dgi_ID = csr_ID request \<rparr> #
                retry_call days request failure
                  (fst (getDao (tm_context tm ctx) \<lparr> dgi_ID = csr_ID request \<rparr> s)))"
proof -
  have retry: "snd (snd (core_JobSettle_retry (recorded_JobSettle settleDao requeueDao getDao tm days) ctx request failure (s, []))) =
      CallBegin # CallGet \<lparr> dgi_ID = csr_ID request \<rparr> #
        retry_call days request failure (fst (getDao (tm_context tm ctx) \<lparr> dgi_ID = csr_ID request \<rparr> s))"
    if "tm_begin tm ctx s = None" for failure
    using body_calls [of settleDao requeueDao getDao tm days request failure "tm_context tm ctx" "(s, [CallBegin])"] that
    by (simp add: core_JobSettle_retry_def recorded_tx_def Let_def case_prod_beta)
  have closed: "snd (snd (core_JobSettle_retry (recorded_JobSettle settleDao requeueDao getDao tm days) ctx request failure (s, []))) = []"
    if "tm_begin tm ctx s = Some err" for failure err
    using that by (simp add: core_JobSettle_retry_def recorded_tx_def)
  show ?thesis
    by (auto simp: settle_calls_def core_JobSettle_Exec_def core_JobSettle_settle_def retry closed
        split: option.split)
qed

end
