(* ===== verification/Served.thy ===== *)
theory Served
  imports ClientSpec HandlerSpec
begin

text \<open>
  The process as its peers see it: every call passes through the interceptors of
  \<open>cmd/grpc/main.go\<close>, the reaper sweeps beside the calls, and the database purges. The interceptors
  come from golib: they are parameters, and what is relied on is \<^emph>\<open>golib_documented\<close>.
\<close>

section \<open>Interceptors\<close>

text \<open>A call: what it meets, the full name of its method, its message, and the state it works on.\<close>

type_synonym 'w unary_call = "surroundings \<Rightarrow> string \<Rightarrow> 'w \<Rightarrow> process \<Rightarrow> (rpc_error + 'w) \<times> process"
type_synonym 'w stream_call = "surroundings \<Rightarrow> string \<Rightarrow> 'w \<Rightarrow> process \<Rightarrow> 'w list \<times> watch_end"

record 'w golib =
  go_TransferContext :: "surroundings \<Rightarrow> surroundings"
  go_BaseContextUnary :: "(surroundings \<Rightarrow> surroundings) \<Rightarrow> 'w unary_call \<Rightarrow> 'w unary_call"
  go_LoggerUnary :: "'w unary_call \<Rightarrow> 'w unary_call"
  go_PanicUnary :: "'w unary_call \<Rightarrow> 'w unary_call"
  go_BaseContextStream :: "(surroundings \<Rightarrow> surroundings) \<Rightarrow> 'w stream_call \<Rightarrow> 'w stream_call"
  go_LoggerStream :: "'w stream_call \<Rightarrow> 'w stream_call"
  go_PanicStream :: "'w stream_call \<Rightarrow> 'w stream_call"

text \<open>\<open>grpc.ChainUnaryInterceptor\<close> and its stream variant: the first is the outermost.\<close>

definition chain :: "('h \<Rightarrow> 'h) list \<Rightarrow> 'h \<Rightarrow> 'h" where
  "chain interceptors handler = foldr (\<lambda>i h. i h) interceptors handler"

definition ctxInterceptor :: "'w golib \<Rightarrow> surroundings \<Rightarrow> surroundings" where
  "ctxInterceptor g rpCtx = go_TransferContext g rpCtx"

definition main_unary ::
  "'w golib \<Rightarrow> (int64 \<Rightarrow> 'd) \<Rightarrow> ext \<Rightarrow> grpc_lib \<Rightarrow> ('d, 'w) codecs \<Rightarrow> 'w unary_call" where
  "main_unary g durationpb_New x gl cd =
     chain [go_BaseContextUnary g (ctxInterceptor g), go_LoggerUnary g, go_PanicUnary g]
       (\<lambda>su. cc_Invoke (server_conn gl (main_server durationpb_New x gl cd su)))"

definition main_stream ::
  "'w golib \<Rightarrow> (int64 \<Rightarrow> 'd) \<Rightarrow> ext \<Rightarrow> grpc_lib \<Rightarrow> ('d, 'w) codecs \<Rightarrow> 'w stream_call" where
  "main_stream g durationpb_New x gl cd =
     chain [go_BaseContextStream g (ctxInterceptor g), go_LoggerStream g, go_PanicStream g]
       (\<lambda>su. cc_Stream (server_conn gl (main_server durationpb_New x gl cd su)))"

text \<open>A call that panics.\<close>

definition panics :: "(rpc_error + 'a) \<times> 's \<Rightarrow> bool" where
  "panics out \<longleftrightarrow> (case fst out of Inl (RpcPanic _) \<Rightarrow> True | _ \<Rightarrow> False)"

definition stream_panics :: "'m list \<times> watch_end \<Rightarrow> bool" where
  "stream_panics out \<longleftrightarrow> (case snd out of WatchErr (RpcPanic _) \<Rightarrow> True | _ \<Rightarrow> False)"

text \<open>
  \<open>postgres.TransferContext(ctx, rpCtx)\<close> puts the database handle of the boot context into the context
  of the call. The base-context interceptors apply their function to the context, the logger hands
  the call on, and the panic interceptors differ from the handler only where it panics, and then
  answer a status.
\<close>

definition with_handle :: "surroundings \<Rightarrow> surroundings" where
  "with_handle su =
     su\<lparr> su_stmt := (su_stmt su)\<lparr> st_handle := True \<rparr>, su_stmt2 := (su_stmt2 su)\<lparr> st_handle := True \<rparr>,
         su_probe := (su_probe su)\<lparr> pr_context := None \<rparr>,
         su_polls := map (\<lambda>po. po\<lparr> po_ctx := (po_ctx po)\<lparr> st_handle := True \<rparr> \<rparr>) (su_polls su) \<rparr>"

definition golib_documented :: "'w golib \<Rightarrow> bool" where
  "golib_documented g \<longleftrightarrow>
     go_TransferContext g = with_handle \<and>
     (\<forall>f h. go_BaseContextUnary g f h = (\<lambda>su. h (f su))) \<and> (\<forall>f h. go_BaseContextStream g f h = (\<lambda>su. h (f su))) \<and>
     (\<forall>h. go_LoggerUnary g h = h) \<and> (\<forall>h. go_LoggerStream g h = h) \<and>
     (\<forall>h su m b ps.
        if panics (h su m b ps)
        then \<exists>code text. go_PanicUnary g h su m b ps = (Inl (RpcStatus code text), snd (h su m b ps))
        else go_PanicUnary g h su m b ps = h su m b ps) \<and>
     (\<forall>h su m b ps.
        if stream_panics (h su m b ps)
        then \<exists>code text. go_PanicStream g h su m b ps = (fst (h su m b ps), WatchErr (RpcStatus code text))
        else go_PanicStream g h su m b ps = h su m b ps)"

text \<open>One such library.\<close>

definition plain_golib :: "'w golib" where
  "plain_golib =
     \<lparr> go_TransferContext = with_handle,
       go_BaseContextUnary = (\<lambda>f h su. h (f su)), go_LoggerUnary = (\<lambda>h. h),
       go_PanicUnary = (\<lambda>h su m b ps. case h su m b ps of
           (Inl (RpcPanic msg), ps') \<Rightarrow> (Inl (RpcStatus CodeInternal ''internal error''), ps') | out \<Rightarrow> out),
       go_BaseContextStream = (\<lambda>f h su. h (f su)), go_LoggerStream = (\<lambda>h. h),
       go_PanicStream = (\<lambda>h su m b ps. case h su m b ps of
           (ms, WatchErr (RpcPanic msg)) \<Rightarrow> (ms, WatchErr (RpcStatus CodeInternal ''internal error'')) | out \<Rightarrow> out) \<rparr>"

lemma plain_golib_documented: "golib_documented plain_golib"
  by (auto simp: golib_documented_def plain_golib_def panics_def stream_panics_def
      split: prod.split sum.splits rpc_error.splits watch_end.splits)

section \<open>No handler panics\<close>

lemma panics_simps [simp]:
  "\<not> panics (Inr v, s)" "panics (Inl err, s) \<longleftrightarrow> (\<exists>msg. err = RpcPanic msg)"
  by (auto simp: panics_def split: rpc_error.split)

lemma stream_panics_iff: "stream_panics out \<longleftrightarrow> (\<exists>msg. snd out = WatchErr (RpcPanic msg))"
  by (auto simp: stream_panics_def split: watch_end.split rpc_error.split)

lemma panic_interceptors:
  assumes "golib_documented g"
  shows "\<not> panics (h su m b ps) \<Longrightarrow> go_PanicUnary g h su m b ps = h su m b ps"
    and "\<not> stream_panics (k su m b ps) \<Longrightarrow> go_PanicStream g k su m b ps = k su m b ps"
  using assms unfolding golib_documented_def by metis+

text \<open>What the generated handlers answer when nothing goes wrong in the library.\<close>

definition quiet_library :: "grpc_lib \<Rightarrow> bool" where
  "quiet_library gl \<longleftrightarrow> (\<forall>msg. RpcPanic msg \<notin> set (library_errors gl))"

text \<open>An answer that is no error, an error of the library, or one of the public errors.\<close>

definition public_answer :: "grpc_lib \<Rightarrow> (rpc_error + 'a) \<times> 's \<Rightarrow> bool" where
  "public_answer gl out \<longleftrightarrow>
     (case fst out of
        Inr _ \<Rightarrow> True
      | Inl err \<Rightarrow> err \<in> set (library_errors gl @ public_errors))"

lemma public_answer_simps [simp]:
  "public_answer gl (Inr v, s)"
  "public_answer gl (Inl err, s) \<longleftrightarrow> err \<in> set (library_errors gl @ public_errors)"
  by (simp_all add: public_answer_def)

lemma library_errors_simps [simp]:
  "gl_unimplemented gl \<in> set (library_errors gl)" "gl_malformed gl \<in> set (library_errors gl)"
  by (simp_all add: library_errors_def)

lemma public_put [simp]: "public_answer gl (put gl c m, s)"
  using put_library_error [of gl c m] by (cases "put gl c m") (auto simp: public_answer_def)

lemma public_reply [simp]: "public_answer gl (reply f out)"
  using mapJobError_public by (auto simp: reply_def split: prod.split sum.split)

lemma public_on_table: "public_answer gl (f (ps_table ps)) \<Longrightarrow> public_answer gl (on_table f ps)"
  by (simp add: public_answer_def on_table_def case_prod_beta)

lemma public_handlers:
  "public_answer gl (grpc_JobClaim x e m1 t)" "public_answer gl (grpc_JobEnqueue x e v (Some m2) t)"
  "public_answer gl (grpc_JobGet x e m3 t)" "public_answer gl (grpc_JobSettle x tx e e2 days m4 t)"
  by (simp_all add: grpc_JobClaim_def handler_JobClaim_def grpc_JobEnqueue_def handler_JobEnqueue_def
      grpc_JobGet_def handler_JobGet_def grpc_JobSettle_def handler_JobSettle_def public_errors_def
      split: option.split)

lemma public_status: "public_answer gl (case main_Status d h su ps of (r, ps') \<Rightarrow> (Inr r, ps'))"
  by (simp split: prod.split)

lemma public_unary_handler:
  assumes "\<And>m. public_answer gl (impl (Some m) ps)"
  shows "public_answer gl (unary_handler gl ci co impl b ps)"
proof (cases "unmarshal ci b")
  case (Some m)
  obtain res s where "impl (Some m) ps = (res, s)" by fastforce
  then show ?thesis using assms [of m] Some by (cases res) (simp_all add: unary_handler_def)
qed (simp add: unary_handler_def)

lemma invoke_public:
  "public_answer gl (cc_Invoke (server_conn gl (main_server d x gl cd su)) fullMethod b ps)"
proof -
  let ?reg = "main_server d x gl cd su"
  have "public_answer gl (handler srv b ps)"
    if "(desc, srv) \<in> set ?reg" "map_of (sd_Methods desc) name = Some handler" for desc srv name handler
    using that by (auto simp: wiring public_unary_handler public_on_table public_handlers public_status split: if_splits)
  then show ?thesis
    by (auto simp: server_conn_def split: option.splits prod.splits dest!: find_service_member)
qed

lemma invoke_no_panic:
  assumes "quiet_library gl"
  shows "\<not> panics (cc_Invoke (server_conn gl (main_server d x gl cd su)) fullMethod b ps)"
proof (rule notI)
  let ?out = "cc_Invoke (server_conn gl (main_server d x gl cd su)) fullMethod b ps"
  assume "panics ?out"
  then obtain msg where "fst ?out = Inl (RpcPanic msg)"
    by (auto simp: panics_def split: sum.splits rpc_error.splits)
  then have "RpcPanic msg \<in> set (library_errors gl @ public_errors)"
    using invoke_public [of gl d x cd su fullMethod b ps] by (simp add: public_answer_def)
  then show False using assms by (auto simp: quiet_library_def public_errors_def)
qed

text \<open>
  How a stream may end besides by itself: with an error of the library, with a public error, with the
  status of a context that is done, or with the error the stream itself gave for a message.
\<close>

definition public_end :: "grpc_lib \<Rightarrow> surroundings \<Rightarrow> watch_end \<Rightarrow> bool" where
  "public_end gl su stop \<longleftrightarrow>
     (case stop of
        WatchErr err \<Rightarrow>
          err \<in> set (library_errors gl @ public_errors) \<or>
          (\<exists>po\<in>set (su_polls su). \<exists>cause. po_done po = Some cause \<and> err = FromContextError cause) \<or>
          (\<exists>po\<in>set (su_polls su). \<exists>cause. po_send po = Some cause \<and> err = RpcError cause)
      | _ \<Rightarrow> True)"

lemma public_end_simps [simp]:
  "public_end gl su WatchOK" "public_end gl su Watching"
  "err \<in> set (library_errors gl @ public_errors) \<Longrightarrow> public_end gl su (WatchErr err)"
  by (simp_all add: public_end_def)

lemma watch_loop_public:
  assumes "\<And>turn. turn \<in> set turns \<Longrightarrow> \<exists>po\<in>set (su_polls su). tn_send turn = po_send po \<and> tn_done turn = po_done po"
  shows "public_end gl su (snd (watch_loop x q prev turns))"
  using assms
proof (induction turns arbitrary: prev)
  case (Cons turn turns)
  obtain po where po: "po \<in> set (su_polls su)" "tn_send turn = po_send po" "tn_done turn = po_done po"
    using Cons.prems [of turn] by auto
  have rest: "public_end gl su (snd (watch_loop x q p turns))" for p using Cons by simp
  have "public_end gl su (WatchErr (mapJobError err))" for err using mapJobError_public by simp
  moreover have "public_end gl su (WatchErr (RpcError cause))" if "tn_send turn = Some cause" for cause
    using po(1) that [unfolded po(2)] by (simp only: public_end_def watch_end.case) blast
  moreover have "public_end gl su (WatchErr (FromContextError cause))" if "tn_done turn = Some cause" for cause
    using po(1) that [unfolded po(3)] by (simp only: public_end_def watch_end.case) blast
  moreover have "public_end gl su stop" if "watch_loop x q p turns = (ms, stop)" for p ms stop
    using rest [of p] that by simp
  ultimately show ?case by (auto simp: Let_def split: sum.split option.split prod.split if_splits)
qed simp

lemma watch_public: "public_end gl su (snd (grpc_JobWatch x handler (su_polls su) m))"
proof -
  have "public_end gl su (snd (watch_loop x q None (map (poll_turn handler) (su_polls su))))" for q
    by (rule watch_loop_public) (force simp: poll_turn_def)
  then show ?thesis by (simp add: grpc_JobWatch_def handler_JobWatch_def public_errors_def split: option.split)
qed

lemma send_all_public: "public_end gl su (snd out) \<Longrightarrow> public_end gl su (snd (send_all gl c out))"
proof (induction gl c out rule: send_all.induct)
  case (2 gl c m ms stop)
  obtain bs stop' where "send_all gl c (ms, stop) = (bs, stop')" by fastforce
  then show ?case using 2 put_library_error [of gl c m] by (auto split: sum.split)
qed simp

lemma stream_public:
  "public_end gl su (snd (cc_Stream (server_conn gl (main_server d x gl cd su)) fullMethod b ps))"
proof -
  let ?reg = "main_server d x gl cd su"
  have "public_end gl su (snd (handler srv b ps))"
    if "(desc, srv) \<in> set ?reg" "map_of (sd_Streams desc) name = Some handler" for desc srv name handler
  proof -
    have "handler srv = JobWatchService_JobWatch_Handler gl cd
        (JobWatchServer (\<lambda>m ps. grpc_JobWatch x (main_watch_handler x) (su_polls su) m))"
      using that by (auto simp: main_server_eq RegisterService_def StatusService_ServiceDesc_def
          JobEnqueueService_ServiceDesc_def JobGetService_ServiceDesc_def JobClaimService_ServiceDesc_def
          JobSettleService_ServiceDesc_def JobWatchService_ServiceDesc_def split: if_splits)
    then show ?thesis
      by (auto simp: JobWatchService_JobWatch_Handler_def send_all_public watch_public split: option.split)
  qed
  then show ?thesis
    by (auto simp: server_conn_def split: option.splits prod.splits dest!: find_service_member)
qed

lemma public_end_no_panic: "quiet_library gl \<Longrightarrow> \<not> public_end gl su (WatchErr (RpcPanic msg))"
proof
  assume "quiet_library gl" "public_end gl su (WatchErr (RpcPanic msg))"
  moreover have "FromContextError cause \<noteq> RpcPanic msg" for cause by (cases cause) simp_all
  ultimately show False by (auto simp: public_end_def quiet_library_def public_errors_def eq_commute [of "RpcPanic msg"])
qed

lemma stream_no_panic:
  assumes "quiet_library gl"
  shows "\<not> stream_panics (cc_Stream (server_conn gl (main_server d x gl cd su)) fullMethod b ps)"
  using stream_public [of gl su d x cd fullMethod b ps] public_end_no_panic [OF assms]
  by (auto simp: stream_panics_iff)

lemma public_end_with_handle: "public_end gl (with_handle su) stop \<longleftrightarrow> public_end gl su stop"
  by (simp add: public_end_def with_handle_def split: watch_end.split)

lemma main_unary_documented:
  assumes "golib_documented g" "quiet_library gl"
  shows "main_unary g d x gl cd su fullMethod b ps =
    cc_Invoke (server_conn gl (main_server d x gl cd (with_handle su))) fullMethod b ps"
proof -
  note g = assms(1) [unfolded golib_documented_def]
  have "main_unary g d x gl cd su fullMethod b ps =
      go_PanicUnary g (\<lambda>su. cc_Invoke (server_conn gl (main_server d x gl cd su))) (with_handle su) fullMethod b ps"
    using g by (simp add: main_unary_def chain_def ctxInterceptor_def)
  also have "\<dots> = cc_Invoke (server_conn gl (main_server d x gl cd (with_handle su))) fullMethod b ps"
    by (rule panic_interceptors [OF assms(1)]) (rule invoke_no_panic [OF assms(2)])
  finally show ?thesis .
qed

lemma main_stream_documented:
  assumes "golib_documented g" "quiet_library gl"
  shows "main_stream g d x gl cd su fullMethod b ps =
    cc_Stream (server_conn gl (main_server d x gl cd (with_handle su))) fullMethod b ps"
proof -
  note g = assms(1) [unfolded golib_documented_def]
  have "main_stream g d x gl cd su fullMethod b ps =
      go_PanicStream g (\<lambda>su. cc_Stream (server_conn gl (main_server d x gl cd su))) (with_handle su) fullMethod b ps"
    using g by (simp add: main_stream_def chain_def ctxInterceptor_def)
  also have "\<dots> = cc_Stream (server_conn gl (main_server d x gl cd (with_handle su))) fullMethod b ps"
    by (rule panic_interceptors [OF assms(1)]) (rule stream_no_panic [OF assms(2)])
  finally show ?thesis .
qed

text \<open>
  The one panic of the data access, the allocation with a negative capacity in \<open>dao.JobClaim\<close>, is
  out of reach: the validator lets no such limit through.
\<close>

lemma row_violation_code: "row_violation r = Some err \<Longrightarrow> \<exists>code. err = Sentinel (PgError code)"
  by (auto simp: row_violation_def split: if_splits)

lemma sql_jobClaim_error:
  assumes "fst (sql_jobClaim e kinds limit worker lease t) = Inl err"
  shows "\<exists>code. err = Sentinel (PgError code)"
proof -
  let ?errors = "update_errors (claim_guard e kinds limit t) claim_arith (claim_row e worker lease) t"
  obtain rest where "?errors = err # rest"
    using assms by (auto simp: sql_jobClaim_def update_returning_def split: list.splits)
  then have "err \<in> set ?errors" by simp
  then show ?thesis
    by (auto simp: update_errors_def List.map_filter_def claim_arith_def row_violation_code split: if_splits option.splits)
qed

lemma claim_never_panics:
  assumes "validator_documented x" "fst (JobClaim_Exec x e q t) = Inl err"
  shows "\<not> errors_Is err (GoPanic msg)"
proof (cases "valid_claim x q")
  case False
  then show ?thesis using assms(2) by (auto simp: JobClaim_Exec_eq invalid_request_def)
next
  case True
  then have "0 < ccr_Limit q" using assms(1) by (simp add: valid_claim_def)
  then have "dao_JobClaim_Exec e (claim_request q) t = dao_query e id scan_all
      (sql_jobClaim e (ccr_Kinds q) (ccr_Limit q) (ccr_WorkerID q) (ccr_LeaseSeconds q)) t"
    by (simp add: dao_JobClaim_Exec_def claim_request_def)
  then show ?thesis
    using assms(2) True sql_jobClaim_error [of e "ccr_Kinds q" "ccr_Limit q" "ccr_WorkerID q" "ccr_LeaseSeconds q" t]
    by (auto simp: JobClaim_Exec_eq via_dao_def dao_query_def NewRaw_def scan_all_def Let_def
        split: if_splits delivery.splits prod.splits sum.splits)
qed

section \<open>The process in time\<close>

text \<open>
  The state of the process, the clock of its database and the identifiers minted so far. A call may
  have any method name and any message; it makes two statements at most, the second after the
  first, and no other session writes inside its transaction.
\<close>

record served =
  vd_process :: process
  vd_now :: time
  vd_minted :: "uuid list"

datatype 'w served_event =
    Called string 'w "rpc_error + 'w"
  | Swept "gerr + core_Job list"
  | Purged

definition minted_by :: "uuid option \<Rightarrow> uuid list \<Rightarrow> uuid list" where
  "minted_by newV7 minted = (case newV7 of None \<Rightarrow> minted | Some u \<Rightarrow> u # minted)"

inductive served_step ::
  "'w golib \<Rightarrow> (int64 \<Rightarrow> 'd) \<Rightarrow> ext \<Rightarrow> grpc_lib \<Rightarrow> ('d, 'w) codecs \<Rightarrow>
   served \<Rightarrow> 'w served_event \<Rightarrow> served \<Rightarrow> bool" for g d x gl cd where
  call: "clock_within (su_stmt su) (vd_now v) mid \<Longrightarrow> clock_within (su_stmt2 su) mid now' \<Longrightarrow>
     tx_between (su_txn su) = (\<lambda>t. t) \<Longrightarrow> su_newV7 su \<notin> Some ` set (vd_minted v) \<Longrightarrow>
     main_unary g d x gl cd su fullMethod b (vd_process v) = (r, ps') \<Longrightarrow>
     served_step g d x gl cd v (Called fullMethod b r)
       \<lparr> vd_process = ps', vd_now = now', vd_minted = minted_by (su_newV7 su) (vd_minted v) \<rparr>"
| sweep: "clock_within e (vd_now v) now' \<Longrightarrow>
     rp_service (main_reaper (main_services x overflow) interval) e (ps_table (vd_process v)) = (res, t') \<Longrightarrow>
     served_step g d x gl cd v (Swept res)
       (v\<lparr> vd_process := (vd_process v)\<lparr> ps_table := t' \<rparr>, vd_now := now' \<rparr>)"
| purge: "clock_within e (vd_now v) now' \<Longrightarrow>
     served_step g d x gl cd v Purged
       (v\<lparr> vd_process := (vd_process v)\<lparr> ps_table := sql_purge e (ps_table (vd_process v)) \<rparr>, vd_now := now' \<rparr>)"

inductive served_run ::
  "'w golib \<Rightarrow> (int64 \<Rightarrow> 'd) \<Rightarrow> ext \<Rightarrow> grpc_lib \<Rightarrow> ('d, 'w) codecs \<Rightarrow>
   served \<Rightarrow> 'w served_event list \<Rightarrow> served \<Rightarrow> bool" for g d x gl cd v where
  start: "served_run g d x gl cd v [] v"
| step: "served_run g d x gl cd v evs v1 \<Longrightarrow> served_step g d x gl cd v1 ev v2 \<Longrightarrow>
     served_run g d x gl cd v (evs @ [ev]) v2"

definition boot_state :: "time \<Rightarrow> served" where
  "boot_state now =
     \<lparr> vd_process = \<lparr> ps_table = [], ps_status = NewGrpcStatus \<rparr>, vd_now = now, vd_minted = [] \<rparr>"

section \<open>A call is a step of the queue\<close>

text \<open>What a call does to the table is what one of the three writing services does to it, or nothing.\<close>

definition service_effects :: "ext \<Rightarrow> surroundings \<Rightarrow> table \<Rightarrow> table set" where
  "service_effects x su t =
     insert t
      (range (\<lambda>q. snd (JobEnqueue_Exec x (su_stmt su) (su_newV7 su) q t)) \<union>
       range (\<lambda>q. snd (JobClaim_Exec x (su_stmt su) q t)) \<union>
       range (\<lambda>q. snd (JobSettle_Exec x (su_txn su) (su_stmt su) (su_stmt2 su) jobRetentionDays q t)))"

lemma grpc_effects:
  "snd (grpc_JobClaim x (su_stmt su) m1 t) \<in> service_effects x su t"
  "snd (grpc_JobEnqueue x (su_stmt su) (su_newV7 su) m2 t) \<in> service_effects x su t"
  "snd (grpc_JobGet x (su_stmt su) m3 t) \<in> service_effects x su t"
  "snd (grpc_JobSettle x (su_txn su) (su_stmt su) (su_stmt2 su) jobRetentionDays m4 t) \<in> service_effects x su t"
  by (auto simp: service_effects_def grpc_JobClaim_def handler_JobClaim_def grpc_JobEnqueue_def handler_JobEnqueue_def
      grpc_JobGet_def handler_JobGet_def grpc_JobSettle_def handler_JobSettle_def split: option.split)

lemma on_table_effect: "ps_table (snd (on_table f ps)) = snd (f (ps_table ps))"
  by (simp add: on_table_def split: prod.split)

lemma main_Status_effect: "ps_table (snd (case main_Status d h su ps of (r, ps') \<Rightarrow> (Inr r, ps'))) = ps_table ps"
  by (simp add: main_Status_def Let_def split: prod.split)

lemma unary_handler_effect:
  assumes "ps_table ps \<in> A" "\<And>m. ps_table (snd (impl m ps)) \<in> A"
  shows "ps_table (snd (unary_handler gl ci co impl b ps)) \<in> A"
  using assms by (auto simp: unary_handler_def split: option.split prod.split sum.split) (metis snd_conv)+

lemma invoke_effect:
  "ps_table (snd (cc_Invoke (server_conn gl (main_server d x gl cd su)) fullMethod b ps))
     \<in> service_effects x su (ps_table ps)"
proof -
  let ?reg = "main_server d x gl cd su"
  have same: "ps_table ps \<in> service_effects x su (ps_table ps)" by (simp add: service_effects_def)
  have "ps_table (snd (handler srv b ps)) \<in> service_effects x su (ps_table ps)"
    if "(desc, srv) \<in> set ?reg" "map_of (sd_Methods desc) name = Some handler" for desc srv name handler
    using that by (auto simp: wiring split: if_splits
        intro!: unary_handler_effect same simp: on_table_effect main_Status_effect grpc_effects)
  then show ?thesis
    using same by (auto simp: server_conn_def split: option.splits prod.splits dest!: find_service_member)
qed

end
