(* ===== verification/ServedSpec.thy ===== *)
theory ServedSpec
  imports Served RunSpec
begin

text \<open>
  The queue's guarantees at the boundary of the process: the served process refines the queue of
  \<^emph>\<open>QueueSystem\<close>, so that what its runs are known to keep holds for whatever peers send.
\<close>

section \<open>The simulation\<close>

text \<open>
  The abstract world shows the same table. It may be behind in time and in identifiers, since a call
  that changes nothing is no step of it.
\<close>

definition shows_world :: "served \<Rightarrow> world \<Rightarrow> bool" where
  "shows_world v w \<longleftrightarrow>
     w_table w = ps_table (vd_process v) \<and> w_now w \<le> vd_now v \<and> set (w_minted w) \<subseteq> set (vd_minted v)"

lemma clock_within_widen:
  "clock_within e a b \<Longrightarrow> a' \<le> a \<Longrightarrow> b \<le> b' \<Longrightarrow> clock_within e a' b'"
  by (meson clock_within_def order_trans)

lemma clock_within_order: "clock_within e a b \<Longrightarrow> a \<le> b"
  using clock_within_bounds(1,2) [of e a b undefined 0] by linarith

lemma clock_with_handle [simp]:
  "clock_within (su_stmt (with_handle su)) a b = clock_within (su_stmt su) a b"
  "clock_within (su_stmt2 (with_handle su)) a b = clock_within (su_stmt2 su) a b"
  "su_txn (with_handle su) = su_txn su" "su_newV7 (with_handle su) = su_newV7 su"
  by (simp_all add: clock_within_def with_handle_def)

text \<open>One effect on the table, as a step of the queue or none.\<close>

lemma effect_is_step:
  assumes "t' \<in> service_effects x su (w_table w)"
    and clocks: "clock_within (su_stmt su) (w_now w) mid" "clock_within (su_stmt2 su) mid now'"
    and "tx_between (su_txn su) = (\<lambda>t. t)" "su_newV7 su \<notin> Some ` set (w_minted w)"
  shows "t' = w_table w \<or>
    (\<exists>ev w'. queue_step x w ev w' \<and> w_table w' = t' \<and> w_now w' \<le> now' \<and>
       set (w_minted w') \<subseteq> set (minted_by (su_newV7 su) (w_minted w)))"
proof -
  have mid: "mid \<le> now'" by (rule clock_within_order [OF clocks(2)])
  consider (same) "t' = w_table w"
    | (enqueue) q where "t' = snd (JobEnqueue_Exec x (su_stmt su) (su_newV7 su) q (w_table w))"
    | (claim) q where "t' = snd (JobClaim_Exec x (su_stmt su) q (w_table w))"
    | (settle) q where
        "t' = snd (JobSettle_Exec x (su_txn su) (su_stmt su) (su_stmt2 su) jobRetentionDays q (w_table w))"
    using assms(1) by (auto simp: service_effects_def)
  then show ?thesis
  proof cases
    case (enqueue q)
    then show ?thesis
    proof (cases "su_newV7 su")
      case None
      then show ?thesis using enqueue by (simp add: JobEnqueue_Exec_eq)
    next
      case (Some u)
      let ?res = "JobEnqueue_Exec x (su_stmt su) (Some u) q (w_table w)"
      have "queue_step x w (EvEnqueue q (fst ?res))
          \<lparr> w_table = snd ?res, w_now = mid, w_minted = u # w_minted w \<rparr>"
        by (rule queue_step.enqueue [OF clocks(1)]) (use assms(5) Some in auto)
      then show ?thesis using enqueue Some mid by (fastforce simp: minted_by_def)
    qed
  next
    case (claim q)
    let ?res = "JobClaim_Exec x (su_stmt su) q (w_table w)"
    have "queue_step x w (EvClaim q (fst ?res)) \<lparr> w_table = snd ?res, w_now = mid, w_minted = w_minted w \<rparr>"
      by (rule queue_step.claim [OF clocks(1)]) simp
    then show ?thesis using claim mid by (fastforce simp: minted_by_def split: option.split)
  next
    case (settle q)
    let ?res = "JobSettle_Exec x (su_txn su) (su_stmt su) (su_stmt2 su) jobRetentionDays q (w_table w)"
    have "queue_step x w (EvSettle q (fst ?res)) \<lparr> w_table = snd ?res, w_now = now', w_minted = w_minted w \<rparr>"
      by (rule queue_step.settle [OF clocks assms(4)]) simp
    then show ?thesis using settle by (fastforce simp: minted_by_def split: option.split)
  qed simp
qed

section \<open>Hand-outs on the wire\<close>

text \<open>A reply of the claim method that carries the job \<open>u\<close>.\<close>

definition hands_out :: "ext \<Rightarrow> ('d, 'w) codecs \<Rightarrow> uuid \<Rightarrow> 'w served_event \<Rightarrow> bool" where
  "hands_out x cd u ev =
     (case ev of
        Called fullMethod b (Inr out) \<Rightarrow>
          fullMethod = JobClaimService_JobClaim_FullMethodName \<and>
          (case unmarshal (cd_JobClaimResponse cd) out of
             None \<Rightarrow> False
           | Some m \<Rightarrow> x_uuid_String x u \<in> set (map pj_Id (pcr_Jobs m)))
      | _ \<Rightarrow> False)"

definition hand_outs :: "ext \<Rightarrow> ('d, 'w) codecs \<Rightarrow> uuid \<Rightarrow> 'w served_event list \<Rightarrow> nat" where
  "hand_outs x cd u evs = length (filter (hands_out x cd u) evs)"

lemma unary_route:
  assumes "grpc_documented gl" "(desc, srv) \<in> set (main_server d x gl cd su)"
    and "map_of (sd_Methods desc) name = Some handler" "CHR ''/'' \<notin> set name"
  shows "cc_Invoke (server_conn gl (main_server d x gl cd su)) (full_method (sd_ServiceName desc) name) b ps =
    handler srv b ps"
proof -
  have "name \<in> set (map fst (sd_Methods desc) @ map fst (sd_Streams desc))"
    using assms(3) by (force dest: map_of_SomeD)
  from server_conn_routes [OF assms(1) main_server_names assms(2) this assms(4)] show ?thesis
    by (simp add: server_conn_def assms(3))
qed

lemma write_routes:
  assumes "grpc_documented gl"
  shows "cc_Invoke (server_conn gl (main_server d x gl cd su)) JobClaimService_JobClaim_FullMethodName b ps =
      unary_handler gl (cd_JobClaimRequest cd) (cd_JobClaimResponse cd)
        (\<lambda>m. on_table (grpc_JobClaim x (su_stmt su) m)) b ps"
    and "cc_Invoke (server_conn gl (main_server d x gl cd su)) JobEnqueueService_JobEnqueue_FullMethodName b ps =
      unary_handler gl (cd_JobEnqueueRequest cd) (cd_JobEnqueueResponse cd)
        (\<lambda>m. on_table (grpc_JobEnqueue x (su_stmt su) (su_newV7 su) m)) b ps"
  using unary_route [OF assms, of "JobClaimService_ServiceDesc gl cd" _ d x cd su "''JobClaim''"]
    unary_route [OF assms, of "JobEnqueueService_ServiceDesc gl cd" _ d x cd su "''JobEnqueue''"]
  by (simp_all add: wiring)

text \<open>A reply of the claim method is a claim of the queue, and hands out only what that returned.\<close>

lemma claim_reply:
  assumes "grpc_documented gl" "proto_documented cd" "uuid_documented x"
    and "cc_Invoke (server_conn gl (main_server d x gl cd su)) JobClaimService_JobClaim_FullMethodName b ps = (Inr out, ps')"
  shows "\<exists>q jobs. JobClaim_Exec x (su_stmt su) q (ps_table ps) = (Inr jobs, ps_table ps') \<and>
    (\<forall>u. hands_out x cd u (Called JobClaimService_JobClaim_FullMethodName b (Inr out)) \<longrightarrow> u \<in> set (map cj_ID jobs))"
proof -
  obtain msg m where "on_table (grpc_JobClaim x (su_stmt su) (Some msg)) ps = (Inr m, ps')"
    and out: "put gl (cd_JobClaimResponse cd) m = Inr out"
    using assms(4) unfolding write_routes(1) [OF assms(1)]
    by (auto simp: unary_handler_def split: option.splits prod.splits sum.splits)
  then obtain q jobs where q: "JobClaim_Exec x (su_stmt su) q (ps_table ps) = (Inr jobs, ps_table ps')"
    and m: "m = \<lparr> pcr_Jobs = map (jobToProto x) jobs \<rparr>"
    by (auto simp: on_table_def grpc_JobClaim_def handler_JobClaim_def reply_def split: prod.splits sum.splits)
  note decoded = put_Inr [OF proto_documentedD(8) [OF assms(2)] out]
  have "u \<in> set (map cj_ID jobs)"
    if handed: "hands_out x cd u (Called JobClaimService_JobClaim_FullMethodName b (Inr out))" for u
  proof -
    obtain j where "j \<in> set jobs" "x_uuid_String x u = x_uuid_String x (cj_ID j)"
      using handed by (auto simp: hands_out_def decoded m form_JobClaimResponse_def form_Job_def jobToProto_def)
    moreover from this have "cj_ID j = u" using uuid_documentedD [OF assms(3)] by (metis option.inject)
    ultimately show ?thesis by force
  qed
  then show ?thesis using q by blast
qed

lemma hands_out_claim_only:
  "hands_out x cd u (Called fullMethod b r) \<Longrightarrow>
     fullMethod = JobClaimService_JobClaim_FullMethodName \<and> (\<exists>out. r = Inr out)"
  by (auto simp: hands_out_def split: sum.splits)

section \<open>The process refines the queue\<close>

text \<open>The documented behaviour of everything between a peer and the handlers.\<close>

definition libraries_documented :: "'w golib \<Rightarrow> ext \<Rightarrow> grpc_lib \<Rightarrow> ('d, 'w) codecs \<Rightarrow> bool" where
  "libraries_documented g x gl cd \<longleftrightarrow>
     golib_documented g \<and> quiet_library gl \<and> grpc_documented gl \<and> proto_documented cd \<and> uuid_documented x"

text \<open>A step of the process, as a step of the queue that claims whatever is handed out, or none.\<close>

definition answers_step :: "ext \<Rightarrow> ('d, 'w) codecs \<Rightarrow> world \<Rightarrow> 'w served_event \<Rightarrow> world \<Rightarrow> bool" where
  "answers_step x cd w ev w' \<longleftrightarrow>
     w' = w \<and> (\<forall>u. \<not> hands_out x cd u ev) \<or>
     (\<exists>qe. queue_step x w qe w' \<and> (\<forall>u. hands_out x cd u ev \<longrightarrow> claims_job u qe))"

lemma call_answers_step:
  assumes lib: "libraries_documented g x gl cd" and shown: "shows_world v w"
    and clocks: "clock_within (su_stmt su) (vd_now v) mid" "clock_within (su_stmt2 su) mid now'"
    and alone: "tx_between (su_txn su) = (\<lambda>t. t)" and fresh: "su_newV7 su \<notin> Some ` set (vd_minted v)"
    and call: "main_unary g d x gl cd su fullMethod b (vd_process v) = (r, ps')"
  shows "\<exists>w'. answers_step x cd w (Called fullMethod b r) w' \<and>
    shows_world \<lparr> vd_process = ps', vd_now = now', vd_minted = minted_by (su_newV7 su) (vd_minted v) \<rparr> w'"
proof -
  let ?su = "with_handle su" and ?v' = "\<lparr> vd_process = ps', vd_now = now', vd_minted = minted_by (su_newV7 su) (vd_minted v) \<rparr>"
  have reply: "cc_Invoke (server_conn gl (main_server d x gl cd ?su)) fullMethod b (vd_process v) = (r, ps')"
    using call main_unary_documented [of g gl d x cd su fullMethod b "vd_process v"] lib
    by (simp add: libraries_documented_def)
  have w: "w_table w = ps_table (vd_process v)" "w_now w \<le> vd_now v" "set (w_minted w) \<subseteq> set (vd_minted v)"
    using shown by (simp_all add: shows_world_def)
  have mid: "clock_within (su_stmt ?su) (w_now w) mid" "mid \<le> now'"
    using clock_within_widen [OF clocks(1) w(2) order_refl] clock_within_order [OF clocks(2)] by simp_all
  have minted: "set (w_minted w) \<subseteq> set (minted_by (su_newV7 su) (vd_minted v))"
    using w(3) by (auto simp: minted_by_def split: option.split)
  show ?thesis
  proof (cases "\<exists>u. hands_out x cd u (Called fullMethod b r)")
    case True
    then obtain u where "hands_out x cd u (Called fullMethod b r)" by blast
    from hands_out_claim_only [OF this] obtain out
      where out: "fullMethod = JobClaimService_JobClaim_FullMethodName" "r = Inr out"
      by (elim conjE exE)
    have docs: "grpc_documented gl" "proto_documented cd" "uuid_documented x"
      using lib by (simp_all add: libraries_documented_def)
    obtain q jobs where q: "JobClaim_Exec x (su_stmt ?su) q (w_table w) = (Inr jobs, ps_table ps')"
      and handed: "\<forall>u. hands_out x cd u (Called fullMethod b r) \<longrightarrow> u \<in> set (map cj_ID jobs)"
      using claim_reply [OF docs reply [unfolded out]] unfolding out w(1) by (elim exE conjE)
    have "queue_step x w (EvClaim q (Inr jobs)) \<lparr> w_table = ps_table ps', w_now = mid, w_minted = w_minted w \<rparr>"
      by (rule queue_step.claim [OF mid(1) q])
    then show ?thesis
      using handed minted mid(2)
      by (intro exI [of _ "\<lparr> w_table = ps_table ps', w_now = mid, w_minted = w_minted w \<rparr>"])
        (auto simp: answers_step_def shows_world_def claims_job_def)
  next
    case False
    have effect: "ps_table ps' \<in> service_effects x ?su (w_table w)"
      using invoke_effect [of gl d x cd ?su fullMethod b "vd_process v"] by (simp add: reply w(1))
    have "su_newV7 ?su \<notin> Some ` set (w_minted w)" using fresh w(3) by auto
    then consider "ps_table ps' = w_table w"
      | qe w' where "queue_step x w qe w'" "w_table w' = ps_table ps'" "w_now w' \<le> now'"
        "set (w_minted w') \<subseteq> set (minted_by (su_newV7 su) (w_minted w))"
      using effect_is_step [OF effect mid(1), of now'] clocks(2) alone by auto
    then show ?thesis
    proof cases
      case 1
      then have "shows_world ?v' w"
        using w(2) minted mid(2) clock_within_order [OF clocks(1)] by (simp add: shows_world_def)
      then show ?thesis using False by (auto simp: answers_step_def)
    next
      case 2
      moreover have "set (minted_by (su_newV7 su) (w_minted w)) \<subseteq> set (minted_by (su_newV7 su) (vd_minted v))"
        using w(3) by (auto simp: minted_by_def split: option.split)
      ultimately have "shows_world ?v' w'" by (auto simp: shows_world_def)
      then show ?thesis using 2(1) False by (auto simp: answers_step_def)
    qed
  qed
qed

lemma served_answers_step:
  assumes "served_step g d x gl cd v ev v'" "libraries_documented g x gl cd" "shows_world v w"
  shows "\<exists>w'. answers_step x cd w ev w' \<and> shows_world v' w'"
  using assms(1)
proof cases
  case (call su mid now' fullMethod b r ps')
  show ?thesis
    unfolding call(1,2) by (rule call_answers_step [OF assms(2,3) call(3-7)])
next
  case (sweep e now' overflow interval res t')
  have w: "w_table w = ps_table (vd_process v)" "w_now w \<le> vd_now v" "set (w_minted w) \<subseteq> set (vd_minted v)"
    using assms(3) by (simp_all add: shows_world_def)
  have "queue_step x w (EvReap res) \<lparr> w_table = t', w_now = now', w_minted = w_minted w \<rparr>"
    using sweep(4) clock_within_widen [OF sweep(3) w(2) order_refl] w(1)
    by (intro queue_step.reap) (simp_all add: main_reaper_def lib_NewReaper_def)
  then show ?thesis
    unfolding sweep(1,2) using w(3)
    by (intro exI [of _ "\<lparr> w_table = t', w_now = now', w_minted = w_minted w \<rparr>"])
      (auto simp: answers_step_def shows_world_def hands_out_def)
next
  case (purge e now')
  have w: "w_table w = ps_table (vd_process v)" "w_now w \<le> vd_now v" "set (w_minted w) \<subseteq> set (vd_minted v)"
    using assms(3) by (simp_all add: shows_world_def)
  have "queue_step x w EvPurge \<lparr> w_table = sql_purge e (w_table w), w_now = now', w_minted = w_minted w \<rparr>"
    by (rule queue_step.purge [OF clock_within_widen [OF purge(3) w(2) order_refl]])
  then show ?thesis
    unfolding purge(1,2) using w
    by (intro exI [of _ "\<lparr> w_table = sql_purge e (w_table w), w_now = now', w_minted = w_minted w \<rparr>"])
      (auto simp: answers_step_def shows_world_def hands_out_def)
qed

text \<open>Whole runs: the hand-outs of a job are among its claims.\<close>

lemma served_run_simulates:
  assumes "served_run g d x gl cd (boot_state now) evs v" "libraries_documented g x gl cd"
  shows "\<exists>es w. queue_run x (empty_world now) es w \<and> shows_world v w \<and> (\<forall>u. hand_outs x cd u evs \<le> claims_in u es)"
  using assms(1)
proof (induction rule: served_run.induct)
  case start
  show ?case
    using queue_run.start [of x "empty_world now"]
    by (intro exI [of _ "[]"] exI [of _ "empty_world now"])
      (simp add: shows_world_def boot_state_def empty_world_def hand_outs_def)
next
  case (step evs v1 ev v2)
  then obtain es w where run: "queue_run x (empty_world now) es w" "shows_world v1 w"
    and le: "\<forall>u. hand_outs x cd u evs \<le> claims_in u es" by blast
  obtain w' where w': "answers_step x cd w ev w'" "shows_world v2 w'"
    using served_answers_step [OF step(2) assms(2) run(2)] by blast
  from w'(1) consider "w' = w" "\<forall>u. \<not> hands_out x cd u ev"
    | qe where "queue_step x w qe w'" "\<forall>u. hands_out x cd u ev \<longrightarrow> claims_job u qe"
    by (auto simp: answers_step_def)
  then show ?case
  proof cases
    case 1
    then show ?thesis using run(1) w'(2) le by (auto simp: hand_outs_def)
  next
    case 2
    have "queue_run x (empty_world now) (es @ [qe]) w'" by (rule queue_run.step [OF run(1) 2(1)])
    moreover have "hand_outs x cd u (evs @ [ev]) \<le> claims_in u (es @ [qe])" for u
      using le 2(2) by (auto simp: hand_outs_def le_SucI)
    ultimately show ?thesis using w'(2) by blast
  qed
qed

section \<open>Properties\<close>

text \<open>
  C3: the served process refines the queue. Whatever its peers send, over documented libraries,
  every state a process reaches by calls, sweeps and purges shows the table of a run of
  \<^const>\<open>queue_run\<close>, at no later a time, and no job is handed out by more replies than it has claims in
  that run. So what holds in every reachable queue holds in every process, down to the bytes of its
  replies. No other session writes inside a retry's transaction.
\<close>

theorem served_process_is_the_queue:
  assumes "libraries_documented g x gl cd" "served_run g d x gl cd (boot_state now) evs v"
  shows "\<exists>es w. queue_run x (empty_world now) es w \<and> w_table w = ps_table (vd_process v) \<and> w_now w \<le> vd_now v \<and>
    (\<forall>u. hand_outs x cd u evs \<le> claims_in u es)"
  using served_run_simulates [OF assms(2,1)] unfolding shows_world_def by blast

text \<open>The witness: a job is enqueued and claimed over a wire.\<close>

definition story_message :: protogen_JobEnqueueRequest where
  "story_message =
     \<lparr> peq_Kind = ''k'', peq_Payload = None, peq_OwnerId = ''xxxxxxx'', peq_IdempotencyKey = Some ''a'',
       peq_MaxAttempts = 2 \<rparr>"

definition story_claim_message :: protogen_JobClaimRequest where
  "story_claim_message = \<lparr> pcq_Kinds = [''k''], pcq_WorkerId = ''w'', pcq_Limit = 1, pcq_LeaseSeconds = 30 \<rparr>"

definition story_su :: "time \<Rightarrow> uuid option \<Rightarrow> surroundings" where
  "story_su now newV7 = calm\<lparr> su_stmt := stmt_at now, su_stmt2 := stmt_at now, su_newV7 := newV7 \<rparr>"

definition story_process :: "table \<Rightarrow> process" where
  "story_process t = \<lparr> ps_table = t, ps_status = NewGrpcStatus \<rparr>"

definition story_calls :: "wire served_event list" where
  "story_calls =
     [Called JobEnqueueService_JobEnqueue_FullMethodName (WEnqueueRequest story_message)
        (Inr (WEnqueueResponse \<lparr> per_Job = Some (jobToProto ext0 (jobToCore row_pending)), per_Created = True \<rparr>)),
      Called JobClaimService_JobClaim_FullMethodName (WClaimRequest story_claim_message)
        (Inr (WClaimResponse \<lparr> pcr_Jobs = [jobToProto ext0 (jobToCore row_claimed)] \<rparr>))]"

lemma plain_grpc_quiet: "quiet_library plain_grpc"
  by (simp add: quiet_library_def library_errors_def plain_grpc_def)

lemma plain_libraries: "libraries_documented plain_golib ext0 plain_grpc plain_codecs"
  by (simp add: libraries_documented_def plain_golib_documented plain_grpc_documented plain_codecs_documented
      plain_grpc_quiet)

text \<open>What stands on the wire of a job depends on its kind and its provider call alone.\<close>

lemma jobToProto_carried:
  assumes "ascii (x_uuid_String x (cj_ID job))" "ascii (x_uuid_String x (cj_OwnerID job))"
  shows "wf_encodable form_Job (jobToProto x job) \<longleftrightarrow>
      valid_utf8 (cj_Kind job) \<and> valid_utf8 (derefString (cj_ProviderCallID job))"
    and "Some [] \<notin> {cj_Payload job, cj_Result job, cj_Error job} \<Longrightarrow>
      wf_decoded form_Job (jobToProto x job) = jobToProto x job"
proof -
  have "valid_utf8 (formatTime x t)" for t
    using ascii_Format_RFC3339 by (auto simp: formatTime_def ascii_valid split: option.split)
  then show "wf_encodable form_Job (jobToProto x job) \<longleftrightarrow>
      valid_utf8 (cj_Kind job) \<and> valid_utf8 (derefString (cj_ProviderCallID job))"
    using assms ascii_Format_RFC3339 by (auto simp: form_Job_def jobToProto_def ascii_valid)
qed (auto simp: form_Job_def jobToProto_def plain_bytes_def)

lemma story_jobs_carried:
  assumes "r \<in> {row_pending, row_claimed}"
  shows "wf_encodable form_Job (jobToProto ext0 (jobToCore r))"
    and "wf_decoded form_Job (jobToProto ext0 (jobToCore r)) = jobToProto ext0 (jobToCore r)"
proof -
  have "ascii (x_uuid_String ext0 u)" for u by (simp add: ext0_def)
  note carried = jobToProto_carried [OF this this, of "jobToCore r"]
  show "wf_encodable form_Job (jobToProto ext0 (jobToCore r))"
    using assms unfolding carried(1) by (auto simp: story_rows derefString_def ascii_valid)
  show "wf_decoded form_Job (jobToProto ext0 (jobToCore r)) = jobToProto ext0 (jobToCore r)"
    using assms by (intro carried(2)) (auto simp: story_rows)
qed

lemma story_replies:
  "main_unary plain_golib id ext0 plain_grpc plain_codecs (story_su 10 (Some 1))
     JobEnqueueService_JobEnqueue_FullMethodName (WEnqueueRequest story_message) (story_process []) =
   (Inr (WEnqueueResponse \<lparr> per_Job = Some (jobToProto ext0 (jobToCore row_pending)), per_Created = True \<rparr>),
    story_process [row_pending])"
  "main_unary plain_golib id ext0 plain_grpc plain_codecs (story_su 20 None)
     JobClaimService_JobClaim_FullMethodName (WClaimRequest story_claim_message) (story_process [row_pending]) =
   (Inr (WClaimResponse \<lparr> pcr_Jobs = [jobToProto ext0 (jobToCore row_claimed)] \<rparr>), story_process [row_claimed])"
proof -
  have su: "with_handle (story_su now v) = story_su now v" for now v
    by (simp add: with_handle_def story_su_def calm_def stmt_at_def story_probe_def)
  have fields: "su_stmt (story_su now v) = stmt_at now" "su_newV7 (story_su now v) = v" for now v
    by (simp_all add: story_su_def)
  note documented = main_unary_documented [OF plain_golib_documented]
  note wire = put_def plain_codec_def form_JobEnqueueRequest_def form_JobEnqueueResponse_def
    form_JobClaimRequest_def form_JobClaimResponse_def sub_encodable_def story_jobs_carried ascii_valid
  have e: "grpc_JobEnqueue ext0 (stmt_at 10) (Some 1) (Some story_message) [] =
      (Inr \<lparr> per_Job = Some (jobToProto ext0 (jobToCore row_pending)), per_Created = True \<rparr>, [row_pending])"
    using story_enqueues
    by (simp add: grpc_JobEnqueue_def handler_JobEnqueue_def request_getters story_message_def story_enqueue_def
        ext0_parse sless_sint)
  have c: "grpc_JobClaim ext0 (stmt_at 20) (Some story_claim_message) [row_pending] =
      (Inr \<lparr> pcr_Jobs = [jobToProto ext0 (jobToCore row_claimed)] \<rparr>, [row_claimed])"
    using story_claims(1)
    by (simp add: grpc_JobClaim_def handler_JobClaim_def request_getters story_claim_message_def story_claim_def)
  show "main_unary plain_golib id ext0 plain_grpc plain_codecs (story_su 10 (Some 1))
      JobEnqueueService_JobEnqueue_FullMethodName (WEnqueueRequest story_message) (story_process []) =
    (Inr (WEnqueueResponse \<lparr> per_Job = Some (jobToProto ext0 (jobToCore row_pending)), per_Created = True \<rparr>),
     story_process [row_pending])"
    using e by (simp add: documented plain_grpc_quiet su write_routes [OF plain_grpc_documented] unary_handler_def fields
        plain_codecs_def wire on_table_def story_process_def)
  show "main_unary plain_golib id ext0 plain_grpc plain_codecs (story_su 20 None)
      JobClaimService_JobClaim_FullMethodName (WClaimRequest story_claim_message) (story_process [row_pending]) =
    (Inr (WClaimResponse \<lparr> pcr_Jobs = [jobToProto ext0 (jobToCore row_claimed)] \<rparr>), story_process [row_claimed])"
    using c by (simp add: documented plain_grpc_quiet su write_routes [OF plain_grpc_documented] unary_handler_def fields
        plain_codecs_def wire on_table_def story_process_def)
qed

lemma story_served:
  "served_run plain_golib id ext0 plain_grpc plain_codecs (boot_state 0) story_calls
     \<lparr> vd_process = story_process [row_claimed], vd_now = 20, vd_minted = [1] \<rparr>"
proof -
  have clocks: "clock_within (stmt_at b) a b" if "a \<le> b" for a b using that by (simp add: clock_within_def)
  let ?v1 = "\<lparr> vd_process = story_process [row_pending], vd_now = 10, vd_minted = [1] \<rparr>"
  have su: "su_stmt (story_su now v) = stmt_at now" "su_stmt2 (story_su now v) = stmt_at now"
    "su_newV7 (story_su now v) = v" "tx_between (su_txn (story_su now v)) = (\<lambda>t. t)" for now v
    by (simp_all add: story_su_def calm_def fun_eq_iff)
  have boot: "boot_state 0 = \<lparr> vd_process = story_process [], vd_now = 0, vd_minted = [] \<rparr>"
    by (simp add: boot_state_def story_process_def)
  have 1: "served_step plain_golib id ext0 plain_grpc plain_codecs (boot_state 0) (story_calls ! 0) ?v1"
    using served_step.call [of "story_su 10 (Some 1)" "boot_state 0" 10 10 plain_golib id ext0 plain_grpc plain_codecs]
      story_replies(1)
    by (simp add: boot su clocks minted_by_def story_calls_def)
  have 2: "served_step plain_golib id ext0 plain_grpc plain_codecs ?v1 (story_calls ! 1)
      \<lparr> vd_process = story_process [row_claimed], vd_now = 20, vd_minted = [1] \<rparr>"
    using served_step.call [of "story_su 20 None" ?v1 20 20 plain_golib id ext0 plain_grpc plain_codecs]
      story_replies(2)
    by (simp add: su clocks minted_by_def story_calls_def image_iff)
  show ?thesis
    using served_run.step [OF served_run.step [OF served_run.start 1] 2] by (simp add: story_calls_def)
qed

lemma story_hand_outs: "hand_outs ext0 plain_codecs 1 story_calls = 1"
  by (simp add: hand_outs_def story_calls_def hands_out_def full_method_names plain_codecs_def
      plain_codec_def jobToProto_def ext0_def)

lemma served_process_is_the_queue_witness:
  "\<exists>es w. queue_run ext0 (empty_world 0) es w \<and> w_table w = [row_claimed] \<and> 1 \<le> claims_in 1 es"
proof -
  obtain es w where "queue_run ext0 (empty_world 0) es w" "w_table w = ps_table (story_process [row_claimed])"
    "\<forall>u. hand_outs ext0 plain_codecs u story_calls \<le> claims_in u es"
    using served_process_is_the_queue [OF plain_libraries story_served] by auto
  moreover from this(3) have "1 \<le> claims_in 1 es" using story_hand_outs by (metis order_refl)
  ultimately show ?thesis by (auto simp: story_process_def)
qed

text \<open>
  C5: on the wire, too, a job runs no more often than its producer allowed. In every run of a served
  process, whatever calls it is made of, in which no other session writes inside the transaction of
  a retry, the claim replies that carry a job number at most its attempt count, which is at most its
  cap. With such writes the attempts can exceed the cap: see C22.
\<close>

theorem wire_hand_outs_bounded:
  assumes "libraries_documented g x gl cd" "json_documented x"
    and "served_run g d x gl cd (boot_state now) evs v" "find_job (ps_table (vd_process v)) u = Some r"
  shows "int (hand_outs x cd u evs) \<le> sint (job_Attempt r) \<and> sint (job_Attempt r) \<le> sint (job_MaxAttempts r)"
proof -
  obtain es w where run: "queue_run x (empty_world now) es w" "shows_world v w"
    and le: "hand_outs x cd u evs \<le> claims_in u es"
    using served_run_simulates [OF assms(3,1)] by blast
  have r: "find_job (w_table w) u = Some r" using run(2) assms(4) by (simp add: shows_world_def)
  have "int (claims_in u es) \<le> sint (job_Attempt r)"
    using queue_run_claims [OF run(1) assms(2)] r by (simp add: claims_counted_def)
  moreover have "sint (job_Attempt r) \<le> sint (job_MaxAttempts r)"
    using reachable_inv [OF run(1) assms(2)] queue_inv_find r by (auto simp: world_inv_def row_inv_def)
  ultimately show ?thesis using le by simp
qed

lemma wire_hand_outs_bounded_witness:
  "int (hand_outs ext0 plain_codecs 1 story_calls) \<le> sint (job_Attempt row_claimed) \<and>
   hand_outs ext0 plain_codecs 1 story_calls = 1"
  using wire_hand_outs_bounded [OF plain_libraries ext0_json story_served, of 1 row_claimed] story_hand_outs
  by (simp add: story_process_def)

section \<open>What a caller is told\<close>

text \<open>
  C38: nothing a peer sends makes a handler panic, and no detail of a failed service reaches the wire.
  Behind the interceptors of \<open>main\<close>, a call with any method name and any bytes is answered exactly as the
  server answers it with the database of the boot in its context. The error of a unary call, if any, is
  one of eight fixed statuses or the library's own (a method it does not know, a message it cannot
  decode, encode or carry). A stream that ends with an error ends with one of those, with the status of
  its context when that is done (cancelled, or past its deadline), or with the error the stream gave
  for a message it could not send. No call panics, unary or stream, so the guards against panics have
  nothing to do; the claim service never meets the panic of an allocation with a negative capacity.
\<close>

theorem answers_are_public:
  assumes "golib_documented g" "quiet_library gl" "validator_documented x"
  shows "main_unary g d x gl cd su fullMethod b ps =
      cc_Invoke (server_conn gl (main_server d x gl cd (with_handle su))) fullMethod b ps \<and>
    (case fst (main_unary g d x gl cd su fullMethod b ps) of
       Inr out \<Rightarrow> True
     | Inl err \<Rightarrow> err \<in> set (library_errors gl @ public_errors)) \<and>
    \<not> panics (main_unary g d x gl cd su fullMethod b ps) \<and>
    main_stream g d x gl cd su fullMethod b ps =
      cc_Stream (server_conn gl (main_server d x gl cd (with_handle su))) fullMethod b ps \<and>
    (case snd (main_stream g d x gl cd su fullMethod b ps) of
       WatchErr err \<Rightarrow>
         err \<in> set (library_errors gl @ public_errors) \<or>
         (\<exists>po\<in>set (su_polls su). \<exists>cause. po_done po = Some cause \<and> err = FromContextError cause) \<or>
         (\<exists>po\<in>set (su_polls su). \<exists>cause. po_send po = Some cause \<and> err = RpcError cause)
     | _ \<Rightarrow> True) \<and>
    \<not> stream_panics (main_stream g d x gl cd su fullMethod b ps) \<and>
    (case fst (JobClaim_Exec x e q t) of Inl err \<Rightarrow> \<not> errors_Is err (GoPanic msg) | Inr _ \<Rightarrow> True)"
proof -
  have "public_answer gl (main_unary g d x gl cd su fullMethod b ps)"
    unfolding main_unary_documented [OF assms(1,2)] by (rule invoke_public)
  moreover have "public_end gl su (snd (main_stream g d x gl cd su fullMethod b ps))"
    unfolding main_stream_documented [OF assms(1,2)]
    by (rule stream_public [of gl "with_handle su", unfolded public_end_with_handle])
  moreover have "case fst (JobClaim_Exec x e q t) of Inl err \<Rightarrow> \<not> errors_Is err (GoPanic msg) | Inr _ \<Rightarrow> True"
    using claim_never_panics [OF assms(3), of e q t] by (simp split: sum.split)
  ultimately show ?thesis
    by (simp only: public_answer_def public_end_def main_unary_documented [OF assms(1,2)]
        main_stream_documented [OF assms(1,2)] invoke_no_panic [OF assms(2)] stream_no_panic [OF assms(2)] simp_thms)
qed

text \<open>The witness: bytes that are no enqueue, from a context without a database.\<close>

lemma answers_are_public_witness:
  "case fst (main_unary plain_golib id ext0 plain_grpc plain_codecs
     (calm\<lparr> su_stmt := (stmt_at 10)\<lparr> st_handle := False \<rparr> \<rparr>)
     JobEnqueueService_JobEnqueue_FullMethodName (WStatusRequest ()) (story_process [])) of
     Inr out \<Rightarrow> True
   | Inl err \<Rightarrow> err \<in> set (library_errors plain_grpc @ public_errors)"
  by (rule answers_are_public [OF plain_golib_documented plain_grpc_quiet ext0_validator, THEN conjunct2, THEN conjunct1])

end
