(* ===== verification/Migrations.thy ===== *)
theory Migrations
  imports Config JobsTable QueueSystem
begin

text \<open>
  \<open>cmd/migrations/main.go\<close> and \<open>internal/models/migrations\<close>: the command that brings a database up to
  the schema of the service. The runner is golib's, over bun: a parameter, with what is relied on in
  \<^emph>\<open>runner_documented\<close>.
\<close>

section \<open>The migrations\<close>

text \<open>What a migration changes: the enum type, and the table with the rows it holds.\<close>

record schema =
  sch_job_status :: bool
  sch_jobs :: "table option"

text \<open>
  \<open>CREATE TYPE \<dots>; CREATE TABLE \<dots>\<close>, sent as one query, so that an error undoes both; and
  \<open>DROP \<dots> IF EXISTS\<close>.
\<close>

definition jobs_table_up :: "schema \<Rightarrow> gerr + schema" where
  "jobs_table_up sch =
     (if sch_job_status sch then Inl (Sentinel (PgError ''type job_status already exists''))
      else if sch_jobs sch \<noteq> None then Inl (Sentinel (PgError ''relation jobs already exists''))
      else Inr \<lparr> sch_job_status = True, sch_jobs = Some [] \<rparr>)"

definition jobs_table_down :: "schema \<Rightarrow> gerr + schema" where
  "jobs_table_down sch = Inr (sch\<lparr> sch_jobs := None, sch_job_status := False \<rparr>)"

record migration =
  mg_Name :: string
  mg_Up :: "schema \<Rightarrow> gerr + schema"
  mg_Down :: "schema \<Rightarrow> gerr + schema"

text \<open>The embedded files, a migration per numeric prefix.\<close>

definition Migrations :: "migration list" where
  "Migrations =
     [\<lparr> mg_Name = ''20260722233602'', mg_Up = jobs_table_up, mg_Down = jobs_table_down \<rparr>]"

section \<open>The command\<close>

text \<open>A database: its schema, and the names of the migrations that were applied.\<close>

record database =
  db_schema :: schema
  db_applied :: "string list"

definition new_database :: database where
  "new_database = \<lparr> db_schema = \<lparr> sch_job_status = False, sch_jobs = None \<rparr>, db_applied = [] \<rparr>"

type_synonym runner = "migration list \<Rightarrow> database \<Rightarrow> gerr option \<times> database"

text \<open>Those that were not applied, in order, each recorded once it is; the first error is the last.\<close>

fun apply_pending :: runner where
  "apply_pending [] db = (None, db)"
| "apply_pending (mg # rest) db =
     (if mg_Name mg \<in> set (db_applied db) then apply_pending rest db
      else case mg_Up mg (db_schema db) of
        Inl err \<Rightarrow> (Some err, db)
      | Inr sch \<Rightarrow> apply_pending rest \<lparr> db_schema = sch, db_applied = db_applied db @ [mg_Name mg] \<rparr>)"

definition runner_documented :: "runner \<Rightarrow> bool" where
  "runner_documented run \<longleftrightarrow> (\<forall>migrations db. run migrations db = apply_pending migrations db)"

text \<open>How the command ends: a \<open>lo.Must\<close> that panics, or the schema is in place.\<close>

datatype migrate_end = MigratePanic gerr | MigrateDone

definition main_migrations ::
  "runner \<Rightarrow> (postgres_preset \<Rightarrow> gerr option) \<Rightarrow> settings \<Rightarrow> database \<Rightarrow> migrate_end \<times> database" where
  "main_migrations RunMigrationsContext NewContext env db =
     (case NewContext (newPostgresPreset env) of
        Some err \<Rightarrow> (MigratePanic err, db)
      | None \<Rightarrow>
          (case RunMigrationsContext Migrations db of
             (Some err, db') \<Rightarrow> (MigratePanic err, db')
           | (None, db') \<Rightarrow> (MigrateDone, db')))"

section \<open>What it leaves\<close>

text \<open>
  On a new database it leaves the empty table every run of the queue starts from, and recorded
  itself; on a database it has migrated it changes nothing, whatever jobs are in it; on one whose
  objects were made by hand it refuses and changes nothing. A reversal leaves neither table nor type.
\<close>

lemma migrations_prepare:
  assumes "runner_documented run" "NewContext (newPostgresPreset env) = None"
  shows "\<exists>db. main_migrations run NewContext env new_database = (MigrateDone, db) \<and>
    sch_jobs (db_schema db) = Some (w_table (empty_world now)) \<and>
    set (map mg_Name Migrations) \<subseteq> set (db_applied db)"
  using assms by (simp add: main_migrations_def runner_documented_def Migrations_def new_database_def
      jobs_table_up_def empty_world_def)

lemma migrations_idempotent:
  assumes "runner_documented run" "set (map mg_Name Migrations) \<subseteq> set (db_applied db)"
  shows "snd (main_migrations run NewContext env db) = db"
  using assms by (simp add: main_migrations_def runner_documented_def Migrations_def split: option.split)

lemma migrations_refuse_unrecorded:
  assumes "runner_documented run" "db_applied db = []" "sch_job_status (db_schema db) \<or> sch_jobs (db_schema db) \<noteq> None"
  shows "\<exists>err. main_migrations run NewContext env db = (MigratePanic err, db)"
  using assms by (auto simp: main_migrations_def runner_documented_def Migrations_def jobs_table_up_def
      split: option.split)

lemma migration_reverts:
  assumes "jobs_table_up sch = Inr sch'" "jobs_table_down (sch'\<lparr> sch_jobs := Some t \<rparr>) = Inr sch''"
  shows "sch'' = sch"
  using assms by (cases sch) (auto simp: jobs_table_up_def jobs_table_down_def split: if_splits)

end
