(* ===== verification/Progress.thy ===== *)
theory Progress
  imports ReapSpec
begin

text \<open>
  Progress of the queue. A claim takes the oldest due jobs of its kinds, and a job that becomes
  claimable later is queued behind them, so a waiting job is overtaken by none: its turn comes
  after as many claims as jobs are ahead of it. With that, and sweeps for the workers that
  died, no job stays unsettled for ever. What the outside must do is the two relations
  \<^emph>\<open>serves\<close> and \<^emph>\<open>recovers\<close>: a worker asks for the kind of the job, a sweep goes through, and
  neither meets the job's row locked.
\<close>

section \<open>Steps that serve one job\<close>

inductive serves :: "ext \<Rightarrow> uuid \<Rightarrow> string \<Rightarrow> world \<Rightarrow> event \<Rightarrow> world \<Rightarrow> bool" for x u kind where
  "undisturbed e \<Longrightarrow> \<not> st_locked e u \<Longrightarrow> clock_within e (w_now w) now' \<Longrightarrow>
     valid_claim x request \<Longrightarrow> kind \<in> set (ccr_Kinds request) \<Longrightarrow>
     JobClaim_Exec x e request (w_table w) = (res, t') \<Longrightarrow>
     serves x u kind w (EvClaim request res) \<lparr> w_table = t', w_now = now', w_minted = w_minted w \<rparr>"

inductive recovers :: "ext \<Rightarrow> uuid \<Rightarrow> world \<Rightarrow> event \<Rightarrow> world \<Rightarrow> bool" for x u where
  "undisturbed e \<Longrightarrow> \<not> st_locked e u \<Longrightarrow> clock_within e (w_now w) now' \<Longrightarrow>
     JobReap_Exec x e jobRetentionDays (w_table w) = (res, t') \<Longrightarrow>
     recovers x u w (EvReap res) \<lparr> w_table = t', w_now = now', w_minted = w_minted w \<rparr>"

lemma serves_step: "serves x u kind w ev w' \<Longrightarrow> queue_step x w ev w'"
  by (induction rule: serves.induct) (rule queue_step.claim)

lemma recovers_step: "recovers x u w ev w' \<Longrightarrow> queue_step x w ev w'"
  by (induction rule: recovers.induct) (rule queue_step.reap)

section \<open>A waiting job stays as it is until it is claimed\<close>

lemma JobClaim_Exec_job:
  assumes "find_job t u = Some r"
  shows "find_job (snd (JobClaim_Exec x e request t)) u = Some r \<or>
    claim_arith r = None \<and> find_job (snd (JobClaim_Exec x e request t)) u =
      Some (claim_row e (ccr_WorkerID request) (ccr_LeaseSeconds request) r)"
proof -
  let ?p = "claim_guard e (ccr_Kinds request) (ccr_Limit request) t"
  let ?g = "claim_row e (ccr_WorkerID request) (ccr_LeaseSeconds request)"
  let ?t = "snd (update_returning (st_order e) ?p claim_arith ?g t)"
  have "find_job ?t u = Some r \<or> claim_arith r = None \<and> find_job ?t u = Some (?g r)"
    by (rule update_returning_cases [of "st_order e" ?p claim_arith ?g t])
      (use assms find_job_SomeD [OF assms] in \<open>auto simp: find_job_update row_simps\<close>)
  moreover have "snd (JobClaim_Exec x e request t) \<in> {t, ?t}"
    using dao_query_table [of e id scan_all "sql_jobClaim e (ccr_Kinds request) (ccr_Limit request)
        (ccr_WorkerID request) (ccr_LeaseSeconds request)" t]
    by (simp add: JobClaim_Exec_eq dao_JobClaim_Exec_def claim_request_def sql_jobClaim_def)
  ultimately show ?thesis using assms by auto
qed

text \<open>So its attempt count shows whether its turn has come.\<close>

lemma queue_step_waiting:
  assumes "queue_step x w ev w'" "world_inv w"
    and "find_job (w_table w) u = Some r" "job_Status r = JobStatusPending"
  shows "find_job (w_table w') u = Some r \<or>
    (\<exists>s. find_job (w_table w') u = Some s \<and> sint (job_Attempt r) < sint (job_Attempt s))"
  using assms
proof (induction rule: queue_step.induct)
  case (enqueue e w now' v request res t')
  then show ?case using JobEnqueue_Exec_keeps [of "w_table w" u r x e v request] by simp
next
  case (claim e w now' request res t')
  then show ?case
    using JobClaim_Exec_job [of "w_table w" u r x e request]
    by (auto simp: row_simps sint16_succ claim_arith_None_iff)
next
  case (settle e1 w mid e2 now' tx request res t')
  then show ?case
    using JobSettle_Exec_keeps [of "w_table w" u r request tx x e1 e2 jobRetentionDays]
    by (simp add: holds_claim_def)
next
  case (reap e w now' res t')
  then show ?case
    using JobReap_Exec_keeps [of "w_table w" u r e x jobRetentionDays] by (simp add: reapable_def)
next
  case (purge e w now')
  then have "job_ExpiresAt r = None"
    using queue_inv_find [of jobRetentionDays "w_table w" u r] by (simp add: world_inv_def row_inv_def)
  then show ?case
    using purge find_job_purge [OF world_inv_wf [OF purge(2)], of e u] by (simp add: purgeable_def)
qed

section \<open>A held job stays as it is until it is released\<close>

definition kept_or_released :: "job \<Rightarrow> job option \<Rightarrow> bool" where
  "kept_or_released r found \<longleftrightarrow>
     found = Some r \<or> (\<exists>s. found = Some s \<and> job_Status s \<noteq> JobStatusClaimed)"

lemma kept_or_released_same [simp]: "kept_or_released r (Some r)"
  by (simp add: kept_or_released_def)

lemma update_returning_released:
  assumes "find_job t u = Some r" "\<And>r. job_ID (g r) = job_ID r" "\<And>r. job_Status (g r) \<noteq> JobStatusClaimed"
  shows "kept_or_released r (find_job (snd (update_returning ord p arith g t)) u)"
  by (rule update_returning_cases [of ord p arith g t])
    (simp_all add: assms find_job_update [of g p t u, OF assms(2)] kept_or_released_def)

lemma dao_query_released:
  "find_job t u = Some r \<Longrightarrow> kept_or_released r (find_job (snd (q t)) u) \<Longrightarrow>
     kept_or_released r (find_job (snd (dao_query e f scan q t)) u)"
  using dao_query_table [of e f scan q t] by auto

lemma dao_JobSettle_released:
  assumes "find_job t u = Some r" "dsr_Status request \<noteq> JobStatusClaimed"
  shows "kept_or_released r (find_job (snd (dao_JobSettle_Exec x e request t)) u)"
  using assms by (simp add: dao_JobSettle_Exec_def dao_query_released sql_jobSettle_def
      update_returning_released row_simps split: option.split)

lemma JobSettle_Exec_released:
  assumes "find_job t u = Some r" "tx_between tx = (\<lambda>t. t)"
  shows "kept_or_released r (find_job (snd (JobSettle_Exec x tx e1 e2 d request t)) u)"
  by (rule JobSettle_Exec_alone [OF assms(2), of x e1 e2 d request t])
    (use assms(1) in \<open>auto simp: dao_JobSettle_released retry_write_eq dao_JobRequeue_Exec_def
      dao_query_released sql_jobRequeue_def update_returning_released row_simps\<close>)

lemma JobReap_Exec_released:
  assumes "find_job t u = Some r"
  shows "kept_or_released r (find_job (snd (JobReap_Exec x e d t)) u)"
  using assms by (simp add: JobReap_Exec_eq dao_JobReap_Exec_def dao_query_released sql_jobReap_def
      update_returning_released row_simps split: option.split)

lemma queue_step_held:
  assumes "queue_step x w ev w'" "world_inv w"
    and "find_job (w_table w) u = Some r" "job_Status r = JobStatusClaimed"
  shows "kept_or_released r (find_job (w_table w') u)"
  using assms
proof (induction rule: queue_step.induct)
  case (enqueue e w now' v request res t')
  then show ?case using JobEnqueue_Exec_keeps [of "w_table w" u r x e v request] by simp
next
  case (claim e w now' request res t')
  then show ?case
    using JobClaim_Exec_keeps [OF world_inv_wf, of w u r x e request] by simp
next
  case (settle e1 w mid e2 now' tx request res t')
  then show ?case
    using JobSettle_Exec_released [of "w_table w" u r tx x e1 e2 jobRetentionDays request] by simp
next
  case (reap e w now' res t')
  then show ?case using JobReap_Exec_released [of "w_table w" u r x e jobRetentionDays] by simp
next
  case (purge e w now')
  then have "job_ExpiresAt r = None"
    using queue_inv_find [of jobRetentionDays "w_table w" u r] by (simp add: world_inv_def row_inv_def)
  then show ?case
    using purge find_job_purge [OF world_inv_wf [OF purge(2)], of e u] by (simp add: purgeable_def)
qed

text \<open>A sweep that gets through past the lease releases it.\<close>

lemma recovers_releases:
  assumes "recovers x u w ev w'" "world_inv w" "x_json_arg x (Some jobReapError) = Some err"
    and "find_job (w_table w) u = Some r" "job_Status r = JobStatusClaimed"
    and "job_LeaseExpiresAt r = Some l" "l < w_now w"
  shows "find_job (w_table w') u \<noteq> Some r"
  using assms(1)
proof (cases rule: recovers.cases)
  case (1 e now' res t')
  have t': "t' = update_rows (reapable e) (reap_row e err jobRetentionDays) (w_table w)"
    using JobReap_Exec_ok [OF world_inv_wf [OF assms(2)] 1(3) assms(3), of jobRetentionDays] 1(6) by simp
  have "job_ID r = u" using find_job_SomeD [OF assms(4)] by simp
  then have "reapable e r"
    using 1 assms(5-7) clock_within_bounds(1) [OF 1(5), of u 0] by (simp add: reapable_def)
  then have "find_job t' u = Some (reap_row e err jobRetentionDays r)"
    by (simp add: t' find_job_update row_simps assms(4))
  moreover have "job_Status (reap_row e err jobRetentionDays r) \<noteq> job_Status r"
    by (simp add: assms(5) row_simps)
  ultimately show ?thesis using 1 by auto
qed

section \<open>Who is ahead\<close>

text \<open>The jobs that wait and were due no later than \<open>T\<close>.\<close>

definition waits_by :: "time \<Rightarrow> job \<Rightarrow> bool" where
  "waits_by T r \<longleftrightarrow> job_Status r = JobStatusPending \<and> job_RunAt r \<le> T"

definition ahead :: "time \<Rightarrow> table \<Rightarrow> uuid set" where
  "ahead T t = set (map job_ID (filter (waits_by T) t))"

lemma ahead_iff: "u \<in> ahead T t \<longleftrightarrow> (\<exists>r\<in>set t. job_ID r = u \<and> waits_by T r)"
  by (auto simp: ahead_def)

lemma card_ahead: "card (ahead T t) \<le> length (filter (waits_by T) t)"
  unfolding ahead_def using card_length [of "map job_ID (filter (waits_by T) t)"] by simp

lemma finite_ahead [simp]: "finite (ahead T t)"
  by (simp add: ahead_def)

lemma ahead_find: "table_wf t \<Longrightarrow> u \<in> ahead T t \<longleftrightarrow> (\<exists>r. find_job t u = Some r \<and> waits_by T r)"
  using find_job_SomeD find_job_eq unfolding ahead_iff by metis

text \<open>Nobody joins them: what a statement makes claimable is due when the statement runs.\<close>

lemma update_returning_ahead:
  assumes "\<And>r. job_ID (g r) = job_ID r" "\<And>r. r \<in> set t \<Longrightarrow> p r \<Longrightarrow> \<not> waits_by T (g r)"
  shows "ahead T (snd (update_returning ord p arith g t)) \<subseteq> ahead T t"
proof -
  have "ahead T (update_rows p g t) \<subseteq> ahead T t"
    using assms by (fastforce simp: ahead_iff update_rows_member split: if_splits)
  then show ?thesis
    by (rule_tac update_returning_cases [of ord p arith g t]) simp_all
qed

lemma dao_query_ahead: "ahead T (snd (q t)) \<subseteq> ahead T t \<Longrightarrow> ahead T (snd (dao_query e f scan q t)) \<subseteq> ahead T t"
  using dao_query_table [of e f scan q t] by auto

lemma JobEnqueue_Exec_ahead:
  assumes "clock_within e now now'" "T < now"
  shows "ahead T (snd (JobEnqueue_Exec x e (Some v) request t)) \<subseteq> ahead T t"
proof -
  have new: "ahead T (t @ [inserted_row e q p]) \<subseteq> ahead T t" for q p
    using assms(2) clock_within_bounds(1) [OF assms(1), of "der_ID q" 0]
    by (auto simp: ahead_iff waits_by_def inserted_row_def)
  have "ahead T (snd (sql_jobEnqueue x e q t)) \<subseteq> ahead T t" for q
    by (rule sql_jobEnqueue_table [of x e q t]) (simp_all add: new)
  then show ?thesis by (simp add: JobEnqueue_Exec_eq dao_JobEnqueue_Exec_def dao_query_ahead)
qed

lemma JobClaim_Exec_ahead: "ahead T (snd (JobClaim_Exec x e request t)) \<subseteq> ahead T t"
  by (simp add: JobClaim_Exec_eq dao_JobClaim_Exec_def dao_query_ahead sql_jobClaim_def
      update_returning_ahead row_simps waits_by_def)

lemma JobReap_Exec_ahead:
  assumes "clock_within e now now'" "T < now"
  shows "ahead T (snd (JobReap_Exec x e d t)) \<subseteq> ahead T t"
proof -
  have "\<not> waits_by T (reap_row e a d r)" for a r
    using assms(2) clock_within_bounds(1) [OF assms(1), of "job_ID r" 1]
    by (auto simp: waits_by_def row_simps)
  then show ?thesis
    by (simp add: JobReap_Exec_eq dao_JobReap_Exec_def dao_query_ahead sql_jobReap_def
        update_returning_ahead row_simps split: option.split)
qed

lemma dao_JobSettle_ahead:
  "sql_terminal (dsr_Status request) \<Longrightarrow> ahead T (snd (dao_JobSettle_Exec x e request t)) \<subseteq> ahead T t"
proof -
  assume "sql_terminal (dsr_Status request)"
  then have "\<not> waits_by T (settle_row e (dsr_Status request) a b d r)" for a b d r
    by (auto simp: waits_by_def row_simps)
  then show ?thesis
    by (simp add: dao_JobSettle_Exec_def dao_query_ahead sql_jobSettle_def update_returning_ahead
        row_simps split: option.split)
qed

lemma retry_write_ahead:
  assumes "clock_within e now now'" "T < now"
  shows "ahead T (snd (retry_write x e d request failure entity t)) \<subseteq> ahead T t"
proof -
  have "\<not> waits_by T (requeue_row e r)" for r
    using assms(2) clock_within_bounds(1) [OF assms(1), of "job_ID r" 0]
    by (simp add: waits_by_def row_simps)
  then show ?thesis
    by (simp add: retry_write_eq dao_JobSettle_ahead dao_JobRequeue_Exec_def dao_query_ahead
        sql_jobRequeue_def update_returning_ahead row_simps)
qed

lemma JobSettle_Exec_ahead:
  assumes "clock_within e2 now now'" "T < now" "tx_between tx = (\<lambda>t. t)"
  shows "ahead T (snd (JobSettle_Exec x tx e1 e2 d request t)) \<subseteq> ahead T t"
  by (rule JobSettle_Exec_alone [OF assms(3), of x e1 e2 d request t])
    (auto dest: dao_JobSettle_ahead [THEN subsetD, rotated] retry_write_ahead [OF assms(1,2), THEN subsetD])

lemma queue_step_ahead:
  assumes "queue_step x w ev w'" "T < w_now w"
  shows "ahead T (w_table w') \<subseteq> ahead T (w_table w)"
  using assms
proof (induction rule: queue_step.induct)
  case (enqueue e w now' v request res t')
  then show ?case using JobEnqueue_Exec_ahead [OF enqueue(1,4), of x v request "w_table w"] by simp
next
  case (claim e w now' request res t')
  then show ?case using JobClaim_Exec_ahead [of T x e request "w_table w"] by simp
next
  case (settle e1 w mid e2 now' tx request res t')
  have "T < mid" using settle clock_within_bounds(1,2) [OF settle(1), of 0 0] by simp
  then show ?case
    using settle JobSettle_Exec_ahead [OF settle(2), of T tx x e1 jobRetentionDays request "w_table w"] by simp
next
  case (reap e w now' res t')
  then show ?case using JobReap_Exec_ahead [OF reap(1,3), of x jobRetentionDays "w_table w"] by simp
next
  case (purge e w now')
  then show ?case by (auto simp: ahead_iff sql_purge_def)
qed

section \<open>A claim of the kind takes the job, or one ahead of it\<close>

lemma serves_overtakes:
  assumes "serves x u (job_Kind r) w ev w'" "world_inv w" "validator_documented x"
    and "find_job (w_table w) u = Some r" "job_Status r = JobStatusPending" "job_RunAt r < w_now w"
  shows "find_job (w_table w') u \<noteq> Some r \<or>
    ahead (job_RunAt r) (w_table w') \<subset> ahead (job_RunAt r) (w_table w)"
  using assms(1)
proof (cases rule: serves.cases)
  case (1 e now' request res t')
  let ?t = "w_table w"
  let ?c = "claimable e (ccr_Kinds request) (ccr_Limit request) ?t"
  let ?g = "claim_row e (ccr_WorkerID request) (ccr_LeaseSeconds request)"
  have inv: "queue_inv jobRetentionDays ?t" using assms(2) by (simp add: world_inv_def)
  note wf = queue_inv_wf [OF inv]
  have t': "t' = update_rows (claim_guard e (ccr_Kinds request) (ccr_Limit request) ?t) ?g ?t"
    using JobClaim_Exec_ok [OF inv assms(3) 1(6,3)] 1(8) by simp
  have taken: "find_job t' (job_ID s) = Some (?g s)" if "s \<in> set ?c" for s
    using that claimable_in_table [OF that] find_job_eq [OF wf, of s] claim_guard_iff [OF wf, of s]
    by (simp add: t' find_job_update row_simps)
  have r: "r \<in> set ?t" "job_ID r = u" using find_job_SomeD [OF assms(4)] by simp_all
  have due: "claim_due e (ccr_Kinds request) r" "\<not> st_locked e (job_ID r)"
    using 1 r assms(5,6) clock_within_bounds(1) [OF 1(5), of "job_ID r" 0] by (simp_all add: claim_due_def)
  show ?thesis
  proof (cases "r \<in> set ?c")
    case True
    have "job_Status (?g r) \<noteq> job_Status r" by (simp add: assms(5) row_simps)
    then have "?g r \<noteq> r" by metis
    then show ?thesis using taken [OF True] r(2) 1 by simp
  next
    case False
    have "0 < ccr_Limit request" using 1(6) assms(3) by (simp add: valid_claim_def)
    moreover have "filter (\<lambda>r. claim_due e (ccr_Kinds request) r \<and> \<not> st_locked e (job_ID r)) ?t \<noteq> []"
      using r due by (auto simp: filter_empty_conv)
    ultimately have "0 < length ?c" by (simp add: claimable_length)
    then obtain s where s: "s \<in> set ?c" using nth_mem by blast
    then have "job_RunAt s \<le> job_RunAt r" using claimable_oldest [OF s r(1) due False] by simp
    then have "job_ID s \<in> ahead (job_RunAt r) ?t"
      using claimable_in_table [OF s] by (auto simp: ahead_iff waits_by_def claim_due_def)
    moreover have "table_wf t'"
      using claim_core.keeps_wf [OF wf, of x e request] 1(8) by simp
    then have "job_ID s \<notin> ahead (job_RunAt r) t'"
      using taken [OF s] by (simp add: ahead_find waits_by_def row_simps)
    moreover have "ahead (job_RunAt r) t' \<subseteq> ahead (job_RunAt r) ?t"
      using JobClaim_Exec_ahead [of "job_RunAt r" x e request ?t] 1(8) by simp
    ultimately show ?thesis using 1 by auto
  qed
qed

section \<open>Runs that serve a job\<close>

text \<open>A run of the queue, of any events, in which \<open>n\<close> steps at least serve the job.\<close>

inductive serving_run :: "ext \<Rightarrow> uuid \<Rightarrow> string \<Rightarrow> world \<Rightarrow> event list \<Rightarrow> nat \<Rightarrow> world \<Rightarrow> bool" for x u kind w where
  start: "serving_run x u kind w [] 0 w"
| other: "serving_run x u kind w es n w1 \<Longrightarrow> queue_step x w1 ev w2 \<Longrightarrow> serving_run x u kind w (es @ [ev]) n w2"
| serve: "serving_run x u kind w es n w1 \<Longrightarrow> serves x u kind w1 ev w2 \<Longrightarrow>
     serving_run x u kind w (es @ [ev]) (Suc n) w2"

lemma serving_run_run: "serving_run x u kind w es n w' \<Longrightarrow> queue_run x w es w'"
  by (induction rule: serving_run.induct) (auto intro: queue_run.intros serves_step)

lemma queue_run_minted:
  "queue_run x w es w' \<Longrightarrow> world_inv w \<Longrightarrow> find_job (w_table w) u = Some r \<Longrightarrow> u \<in> set (w_minted w')"
proof (induction rule: queue_run.induct)
  case start
  then show ?case using find_job_SomeD by (fastforce simp: world_inv_def)
qed (use queue_step_minted in blast)

text \<open>The turn of a job that waited as \<open>r\<close> has come: it was handed out, if it is still there.\<close>

definition turn_came :: "uuid \<Rightarrow> job \<Rightarrow> event list \<Rightarrow> world \<Rightarrow> bool" where
  "turn_came u r es w \<longleftrightarrow>
     (case find_job (w_table w) u of
        None \<Rightarrow> EvPurge \<in> set es
      | Some s \<Rightarrow> sint (job_Attempt r) < sint (job_Attempt s))"

lemma turn_came_step:
  assumes "turn_came u r es w" "queue_step x w ev w'" "world_inv w" "u \<in> set (w_minted w)"
  shows "turn_came u r (es @ [ev]) w'"
proof (cases "find_job (w_table w) u")
  case None
  then show ?thesis
    using assms queue_step_absent [OF assms(2,4) None] by (simp add: turn_came_def)
next
  case (Some s)
  show ?thesis
  proof (cases "ev = EvPurge")
    case True
    then show ?thesis
      using assms(1) Some queue_step_purge_job [of x w w' u s] assms(2,3) by (auto simp: turn_came_def)
  next
    case False
    then show ?thesis
      using assms(1) Some queue_step_job [OF assms(2,3) False Some]
      by (auto simp: turn_came_def job_evolves_def)
  qed
qed

lemma waiting_or_turn_step:
  assumes "queue_step x w ev w'" "world_inv w"
    and "find_job (w_table w) u = Some r" "job_Status r = JobStatusPending"
  shows "find_job (w_table w') u = Some r \<or> turn_came u r es w'"
  using queue_step_waiting [OF assms] by (auto simp: turn_came_def)

lemma serving_run_counts:
  assumes "serving_run x u (job_Kind r) w es n w'" "world_inv w" "json_documented x" "validator_documented x"
    and "find_job (w_table w) u = Some r" "job_Status r = JobStatusPending" "job_RunAt r < w_now w"
  shows "find_job (w_table w') u = Some r \<and>
      card (ahead (job_RunAt r) (w_table w')) + n \<le> card (ahead (job_RunAt r) (w_table w)) \<or>
    turn_came u r es w'"
  using assms
proof (induction rule: serving_run.induct)
  case start
  then show ?case by simp
next
  case (other es n w1 ev w2)
  have run: "queue_run x w es w1" by (rule serving_run_run [OF other(1)])
  have inv: "world_inv w1" by (rule queue_run_inv [OF run other.prems(1,2)])
  have late: "job_RunAt r < w_now w1" using queue_run_clock [OF run] other.prems(6) by simp
  have minted: "u \<in> set (w_minted w1)"
    by (rule queue_run_minted [OF run other.prems(1,4)])
  from other.IH [OF other.prems] show ?case
  proof
    assume IH: "find_job (w_table w1) u = Some r \<and>
      card (ahead (job_RunAt r) (w_table w1)) + n \<le> card (ahead (job_RunAt r) (w_table w))"
    then show ?thesis
      using waiting_or_turn_step [OF other(2) inv, of u r] other.prems(5)
        card_mono [OF finite_ahead queue_step_ahead [OF other(2) late]] by fastforce
  qed (use turn_came_step [OF _ other(2) inv minted] in blast)
next
  case (serve es n w1 ev w2)
  have run: "queue_run x w es w1" by (rule serving_run_run [OF serve(1)])
  have inv: "world_inv w1" by (rule queue_run_inv [OF run serve.prems(1,2)])
  have late: "job_RunAt r < w_now w1" using queue_run_clock [OF run] serve.prems(6) by simp
  have minted: "u \<in> set (w_minted w1)"
    by (rule queue_run_minted [OF run serve.prems(1,4)])
  note step = serves_step [OF serve(2)]
  from serve.IH [OF serve.prems] show ?case
  proof
    assume IH: "find_job (w_table w1) u = Some r \<and>
      card (ahead (job_RunAt r) (w_table w1)) + n \<le> card (ahead (job_RunAt r) (w_table w))"
    then have "find_job (w_table w2) u \<noteq> Some r \<or>
        card (ahead (job_RunAt r) (w_table w2)) < card (ahead (job_RunAt r) (w_table w1))"
      using serves_overtakes [OF serve(2) inv serve.prems(3) _ serve.prems(5) late]
        psubset_card_mono [OF finite_ahead] by blast
    then show ?thesis
      using IH waiting_or_turn_step [OF step inv, of u r] serve.prems(5) by fastforce
  qed (use turn_came_step [OF _ step inv minted] in blast)
qed

end
