(* ===== verification/ProgressSpec.thy ===== *)
theory ProgressSpec
  imports Progress
begin

text \<open>
  What a producer may count on: the turn of a waiting job comes, and every job settles. An
  execution is an infinite run of the queue; it is fair to a job if time passes, workers keep
  asking for its kind and sweeps keep getting through.
\<close>

text \<open>
  C7: no job starves. If a job is due, a claim of its kind that does not meet it locked hands it
  out, or one that was due no later and waited already. So after as many such claims as jobs were
  ahead of it, itself included, the job has been handed out, whatever else was enqueued, claimed,
  settled, handed back, swept or purged in between; or it is settled and purged by then. No other
  session writes inside a retry's transaction.
\<close>

theorem no_job_starves:
  assumes "queue_run x (empty_world now) es w" "json_documented x" "validator_documented x"
    and "find_job (w_table w) u = Some r" "job_Status r = JobStatusPending" "job_RunAt r < w_now w"
    and "serving_run x u (job_Kind r) w es' n w'"
    and "length (filter (waits_by (job_RunAt r)) (w_table w)) \<le> n"
  shows "case find_job (w_table w') u of
      None \<Rightarrow> EvPurge \<in> set es'
    | Some s \<Rightarrow> sint (job_Attempt r) < sint (job_Attempt s)"
proof -
  have inv: "world_inv w" by (rule reachable_inv [OF assms(1,2)])
  have "world_inv w'" by (rule queue_run_inv [OF serving_run_run [OF assms(7)] inv assms(2)])
  then have "u \<in> ahead (job_RunAt r) (w_table w')" if "find_job (w_table w') u = Some r"
    using that assms(5) by (simp add: ahead_find world_inv_wf waits_by_def)
  then have "0 < card (ahead (job_RunAt r) (w_table w'))" if "find_job (w_table w') u = Some r"
    using that card_gt_0_iff finite_ahead by blast
  moreover have "card (ahead (job_RunAt r) (w_table w)) \<le> n"
    using card_ahead [of "job_RunAt r" "w_table w"] assms(8) by simp
  ultimately have "turn_came u r es' w'"
    using serving_run_counts [OF assms(7) inv assms(2-6)] by linarith
  then show ?thesis by (simp add: turn_came_def)
qed

text \<open>The witness: the job of the story waits alone, and the first claim takes it.\<close>

lemma story_waits: "queue_run ext0 (empty_world 0) ([story_events ! 0] @ [EvPurge]) (story_world row_pending 15)"
proof -
  have "queue_step ext0 (story_world row_pending 10) EvPurge (story_world row_pending 15)"
    using queue_step.purge [of "stmt_at 15" "story_world row_pending 10" 15 ext0]
    by (simp add: story_world_def clock_stmt_at sql_purge_def purgeable_def) (simp add: story_rows)
  then show ?thesis
    using queue_run.step [OF queue_run.step [OF queue_run.start story_steps(1)]] by simp
qed

lemma no_job_starves_witness:
  "\<exists>s. find_job (w_table (story_world row_claimed 20)) 1 = Some s \<and> sint (job_Attempt row_pending) < sint (job_Attempt s)"
proof -
  have "serves ext0 1 ''k'' (story_world row_pending 15) (EvClaim story_claim (Inr [jobToCore row_claimed]))
      (story_world row_claimed 20)"
    using serves.intros [of "stmt_at 20" 1 "story_world row_pending 15" 20 ext0 story_claim "''k''"]
    by (simp add: story_claims clock_stmt_at) (simp add: story_world_def)
  then have serving: "serving_run ext0 1 ''k'' (story_world row_pending 15)
      ([] @ [EvClaim story_claim (Inr [jobToCore row_claimed])]) (Suc 0) (story_world row_claimed 20)"
    by (rule serving_run.serve [OF serving_run.start])
  have r: "job_Status row_pending = JobStatusPending" "job_RunAt row_pending < 15" "job_Kind row_pending = ''k''"
    by (simp_all add: story_rows)
  have found: "find_job [row_pending] 1 = Some row_pending" "find_job [row_claimed] 1 = Some row_claimed"
    by (simp_all add: find_job_def)
  show ?thesis
    using no_job_starves [OF story_waits ext0_json ext0_validator, of 1 row_pending _ "Suc 0" "story_world row_claimed 20"]
      serving r found by simp
qed

section \<open>Executions\<close>

definition execution :: "ext \<Rightarrow> (nat \<Rightarrow> world) \<Rightarrow> (nat \<Rightarrow> event) \<Rightarrow> bool" where
  "execution x ws evs \<longleftrightarrow>
     (\<exists>now. ws 0 = empty_world now) \<and> (\<forall>n. queue_step x (ws n) (evs n) (ws (Suc n)))"

text \<open>
  Fair to a job of some kind: the clock passes every instant, and again and again a worker asks for
  the kind and a sweep gets through, both without meeting the job's row locked.
\<close>

definition fair_execution :: "ext \<Rightarrow> uuid \<Rightarrow> string \<Rightarrow> (nat \<Rightarrow> world) \<Rightarrow> (nat \<Rightarrow> event) \<Rightarrow> bool" where
  "fair_execution x u kind ws evs \<longleftrightarrow>
     execution x ws evs \<and> (\<forall>T. \<exists>n. T < w_now (ws n)) \<and>
     (\<forall>n. \<exists>m\<ge>n. serves x u kind (ws m) (evs m) (ws (Suc m))) \<and>
     (\<forall>n. \<exists>m\<ge>n. recovers x u (ws m) (evs m) (ws (Suc m)))"

lemma fair_executionD:
  assumes "fair_execution x u kind ws evs"
  shows "execution x ws evs" "\<exists>n. T < w_now (ws n)"
    and "\<exists>m\<ge>n. serves x u kind (ws m) (evs m) (ws (Suc m))"
    and "\<exists>m\<ge>n. recovers x u (ws m) (evs m) (ws (Suc m))"
  using assms unfolding fair_execution_def by blast+

lemma execution_step: "execution x ws evs \<Longrightarrow> queue_step x (ws n) (evs n) (ws (Suc n))"
  by (simp add: execution_def)

text \<open>Every stretch of an execution is a run.\<close>

lemma execution_run:
  assumes "execution x ws evs" "k \<le> n"
  shows "queue_run x (ws k) (map evs [k..<n]) (ws n)"
  using assms(2)
proof (induction rule: dec_induct)
  case base
  show ?case by (simp add: queue_run.start)
next
  case (step n)
  then show ?case using queue_run.step [OF step.IH execution_step [OF assms(1)]] by simp
qed

lemma execution_inv: "execution x ws evs \<Longrightarrow> json_documented x \<Longrightarrow> world_inv (ws n)"
  using execution_run [of x ws evs 0 n] reachable_inv by (auto simp: execution_def)

lemma serving_extend:
  assumes "execution x ws evs" "serving_run x u kind (ws k) (map evs [k..<n]) c (ws n)" "k \<le> n" "n \<le> m"
  shows "serving_run x u kind (ws k) (map evs [k..<m]) c (ws m)"
  using assms(4)
proof (induction rule: dec_induct)
  case base
  show ?case by (rule assms(2))
next
  case (step m)
  then show ?case using serving_run.other [OF step.IH execution_step [OF assms(1)]] assms(3) by simp
qed

lemma fair_serving:
  assumes "fair_execution x u kind ws evs"
  shows "\<exists>n\<ge>k. serving_run x u kind (ws k) (map evs [k..<n]) c (ws n)"
proof (induction c)
  case 0
  show ?case using serving_run.start [of x u kind "ws k"] by (intro exI [of _ k]) simp
next
  case (Suc c)
  then obtain n where n: "k \<le> n" "serving_run x u kind (ws k) (map evs [k..<n]) c (ws n)" by blast
  obtain m where m: "n \<le> m" "serves x u kind (ws m) (evs m) (ws (Suc m))"
    using fair_executionD(3) [OF assms] by blast
  have "serving_run x u kind (ws k) (map evs [k..<m]) c (ws m)"
    by (rule serving_extend [OF fair_executionD(1) [OF assms] n(2,1) m(1)])
  then have "serving_run x u kind (ws k) (map evs [k..<m] @ [evs m]) (Suc c) (ws (Suc m))"
    using m(2) by (rule serving_run.serve)
  then show ?case using n(1) m(1) by (intro exI [of _ "Suc m"]) simp
qed

lemma fair_time:
  assumes "fair_execution x u kind ws evs"
  shows "\<exists>n\<ge>k. T < w_now (ws n)"
proof -
  note exec = fair_executionD(1) [OF assms]
  obtain n where n: "T < w_now (ws n)" using fair_executionD(2) [OF assms] by blast
  have "w_now (ws n) \<le> w_now (ws (max k n))"
    by (rule queue_run_clock [OF execution_run [OF exec]]) simp
  then show ?thesis using n by (intro exI [of _ "max k n"]) simp
qed

section \<open>A job does not stand still\<close>

text \<open>What is left to happen to a job that is not settled; every edge of its life takes from it.\<close>

fun work_left :: "phase \<times> int \<times> int \<Rightarrow> nat" where
  "work_left (Waiting, a, m) = 2 * nat (m - a)"
| "work_left (Running w, a, m) = 2 * nat (m - a) + 1"
| "work_left (Settled s, a, m) = 0"

definition unsettled :: "phase \<times> int \<times> int \<Rightarrow> bool" where
  "unsettled y \<longleftrightarrow> (case fst y of Settled s \<Rightarrow> False | _ \<Rightarrow> True)"

lemma life_edge_works:
  assumes "life_edge ev u (Some y) l" "unsettled y"
  shows "\<exists>z. l = Some z \<and> work_left z < work_left y"
  using assms by (cases rule: life_edge.cases) (auto simp: unsettled_def)

lemma unsettled_row: "unsettled (life_of_row r) \<longleftrightarrow> \<not> sql_terminal (job_Status r)"
  by (cases "job_Status r") (simp_all add: unsettled_def life_of_row_def phase_of_def)

lemma life_of_row_status:
  "life_of_row r = life_of_row s \<Longrightarrow> \<not> sql_terminal (job_Status r) \<Longrightarrow> job_Status s = job_Status r"
  by (cases "job_Status r"; cases "job_Status s") (simp_all add: life_of_row_def phase_of_def)

text \<open>As long as its life stands still, so does its record.\<close>

lemma still_life_still_record:
  assumes "execution x ws evs" "json_documented x" "k \<le> n"
    and "\<forall>n\<ge>k. life_of (w_table (ws n)) u = Some y"
    and "find_job (w_table (ws k)) u = Some r" "\<not> sql_terminal (job_Status r)"
  shows "find_job (w_table (ws n)) u = Some r"
  using assms(3)
proof (induction rule: dec_induct)
  case base
  show ?case by (rule assms(5))
next
  case (step n)
  have y: "life_of_row r = y" using assms(4,5) by (auto simp: life_of_def)
  have "life_of (w_table (ws (Suc n))) u = Some y" using assms(4) step(1) by simp
  then obtain s where s: "find_job (w_table (ws (Suc n))) u = Some s" "life_of_row s = life_of_row r"
    by (auto simp: life_of_def y)
  then have same: "job_Status s = job_Status r" "sint (job_Attempt s) = sint (job_Attempt r)"
    using life_of_row_status [of r s] assms(6) by (simp_all add: life_of_row_def)
  note st = execution_step [OF assms(1), of n] execution_inv [OF assms(1,2), of n]
  consider "job_Status r = JobStatusPending" | "job_Status r = JobStatusClaimed"
    using assms(6) by (cases "job_Status r") simp_all
  then show ?case
  proof cases
    case 1
    then show ?thesis using queue_step_waiting [OF st step.IH] s(1) same by auto
  next
    case 2
    then show ?thesis using queue_step_held [OF st step.IH] s(1) same by (auto simp: kept_or_released_def)
  qed
qed

lemma life_moves_on:
  assumes fair: "fair_execution x u (job_Kind r) ws evs" and doc: "json_documented x" "validator_documented x"
    and err: "x_json_arg x (Some jobReapError) = Some err"
    and r: "find_job (w_table (ws k)) u = Some r" "\<not> sql_terminal (job_Status r)"
  shows "\<exists>n\<ge>k. life_of (w_table (ws n)) u \<noteq> Some (life_of_row r)"
proof (rule ccontr)
  assume "\<not> ?thesis"
  then have still: "\<forall>n\<ge>k. life_of (w_table (ws n)) u = Some (life_of_row r)" by simp
  note exec = fair_executionD(1) [OF fair]
  have found: "find_job (w_table (ws n)) u = Some r" if "k \<le> n" for n
    by (rule still_life_still_record [OF exec doc(1) that still r])
  note inv = execution_inv [OF exec doc(1)]
  consider "job_Status r = JobStatusPending" | "job_Status r = JobStatusClaimed"
    using r(2) by (cases "job_Status r") simp_all
  then show False
  proof cases
    case 1
    obtain j where j: "k \<le> j" "job_RunAt r < w_now (ws j)" using fair_time [OF fair] by blast
    let ?c = "Suc (card (ahead (job_RunAt r) (w_table (ws j))))"
    obtain n where n: "j \<le> n" "serving_run x u (job_Kind r) (ws j) (map evs [j..<n]) ?c (ws n)"
      using fair_serving [OF fair] by blast
    show False
      using serving_run_counts [OF n(2) inv doc found [OF j(1)] 1 j(2)] found [of n] j(1) n(1)
      by (simp add: turn_came_def)
  next
    case 2
    obtain l where l: "job_LeaseExpiresAt r = Some l"
      using claimed_lease [OF queue_inv_find 2, of jobRetentionDays "w_table (ws k)" u] inv [of k] r(1)
      by (auto simp: world_inv_def)
    obtain j where j: "k \<le> j" "l < w_now (ws j)" using fair_time [OF fair] by blast
    obtain m where m: "j \<le> m" "recovers x u (ws m) (evs m) (ws (Suc m))"
      using fair_executionD(4) [OF fair] by blast
    have "w_now (ws j) \<le> w_now (ws m)" by (rule queue_run_clock [OF execution_run [OF exec m(1)]])
    then show False
      using recovers_releases [OF m(2) inv err found 2 l] found [of "Suc m"] j m(1) by simp
  qed
qed

lemma life_takes_an_edge:
  assumes "execution x ws evs" "json_documented x" "life_of (w_table (ws k)) u = Some y" "unsettled y"
    and "\<exists>n\<ge>k. life_of (w_table (ws n)) u \<noteq> Some y"
  shows "\<exists>n\<ge>k. \<exists>z. life_of (w_table (ws n)) u = Some z \<and> work_left z < work_left y"
proof -
  let ?moved = "\<lambda>n. k \<le> n \<and> life_of (w_table (ws n)) u \<noteq> Some y"
  define n where "n = (LEAST n. ?moved n)"
  have n: "?moved n" unfolding n_def by (rule LeastI_ex) (use assms(5) in blast)
  then obtain i where i: "n = Suc i" "k \<le> i" using assms(3) by (cases n) (auto simp: le_Suc_eq)
  then have "life_of (w_table (ws i)) u = Some y"
    using not_less_Least [of i ?moved] unfolding n_def [symmetric] by auto
  then have "life_edge (evs i) u (Some y) (life_of (w_table (ws n)) u)"
    using queue_step_moves [OF execution_step [OF assms(1)] execution_inv [OF assms(1,2)], of i u] n i(1)
    by (auto simp: life_moves_def)
  then show ?thesis using life_edge_works [OF _ assms(4)] n by blast
qed

text \<open>What a job was enqueued as, it stays; and while it is not settled it does not go away.\<close>

lemma queue_run_identity:
  assumes "queue_run x w es w'" "world_inv w" "json_documented x"
    and "find_job (w_table w) u = Some r"
  shows "case find_job (w_table w') u of
      None \<Rightarrow> True
    | Some s \<Rightarrow> job_Kind s = job_Kind r \<and> job_MaxAttempts s = job_MaxAttempts r"
  using assms
proof (induction rule: queue_run.induct)
  case start
  then show ?case by simp
next
  case (step es w1 ev w2)
  have inv: "world_inv w1" by (rule queue_run_inv [OF step(1) step.prems(1,2)])
  have minted: "u \<in> set (w_minted w1)" by (rule queue_run_minted [OF step(1) step.prems(1,3)])
  show ?case
  proof (cases "find_job (w_table w1) u")
    case None
    then show ?thesis using queue_step_absent [OF step(2) minted] by simp
  next
    case (Some s)
    then have s: "job_Kind s = job_Kind r" "job_MaxAttempts s = job_MaxAttempts r"
      using step.IH [OF step.prems] by simp_all
    show ?thesis
    proof (cases "ev = EvPurge")
      case True
      then show ?thesis
        using queue_step_purge_job [of x w1 w2 u s] step(2) inv Some s by (auto split: option.split)
    next
      case False
      then show ?thesis
        using queue_step_job [OF step(2) inv False Some] s
        by (auto simp: job_evolves_def same_identity_def)
    qed
  qed
qed

lemma fair_job_settles:
  assumes "fair_execution x u kind ws evs" "json_documented x" "validator_documented x"
    and "x_json_arg x (Some jobReapError) = Some err"
    and "find_job (w_table (ws k)) u = Some r" "job_Kind r = kind"
  shows "\<exists>n\<ge>k. \<exists>s. find_job (w_table (ws n)) u = Some s \<and> sql_terminal (job_Status s)"
  using assms(5,6)
proof (induction "work_left (life_of_row r)" arbitrary: r k rule: less_induct)
  case less
  show ?case
  proof (cases "sql_terminal (job_Status r)")
    case True
    then show ?thesis using less.prems(1) by blast
  next
    case False
    note exec = fair_executionD(1) [OF assms(1)]
    have "\<exists>n\<ge>k. life_of (w_table (ws n)) u \<noteq> Some (life_of_row r)"
      by (rule life_moves_on [of x u r ws evs]) (use assms(1-4) less.prems False in simp_all)
    then obtain n z where n: "k \<le> n" "life_of (w_table (ws n)) u = Some z" "work_left z < work_left (life_of_row r)"
      using life_takes_an_edge [OF exec assms(2), of k u "life_of_row r"] less.prems(1) False
      by (auto simp: unsettled_row) (auto simp: life_of_def)
    then obtain s where s: "find_job (w_table (ws n)) u = Some s" "life_of_row s = z"
      by (auto simp: life_of_def)
    have "job_Kind s = kind"
      using queue_run_identity [OF execution_run [OF exec n(1)] execution_inv [OF exec assms(2)] assms(2) less.prems(1)]
        s(1) less.prems(2) by simp
    then show ?thesis
      using less.hyps [OF _ s(1)] n(1,3) s(2) by (meson order_trans)
  qed
qed

text \<open>
  C6: every job settles. In every infinite run of the queue that is fair to a job, whatever else
  happens in it (workers that die, replies that are lost, retries, other jobs without end), the job
  is settled at some point, within its cap of attempts, and stays as it settled until it is purged.
  No failure of a worker strands a job, and none keeps it running for ever. As in C1, C2 and C4, each
  retry's transaction runs alone; with writes of other sessions inside it the cap can be exceeded (C22).
\<close>

theorem every_job_settles:
  assumes "fair_execution x u (job_Kind r) ws evs" "json_documented x" "validator_documented x"
    and "x_json_arg x (Some jobReapError) = Some err"
    and "find_job (w_table (ws k)) u = Some r"
  shows "\<exists>n\<ge>k. \<exists>s. find_job (w_table (ws n)) u = Some s \<and> sql_terminal (job_Status s) \<and>
    sint (job_Attempt s) \<le> sint (job_MaxAttempts r) \<and>
    (\<forall>m\<ge>n. find_job (w_table (ws m)) u \<in> {Some s, None})"
proof -
  note exec = fair_executionD(1) [OF assms(1)]
  note inv = execution_inv [OF exec assms(2)]
  obtain n s where s: "k \<le> n" "find_job (w_table (ws n)) u = Some s" "sql_terminal (job_Status s)"
    using fair_job_settles [OF assms refl] by blast
  have "job_MaxAttempts s = job_MaxAttempts r"
    using queue_run_identity [OF execution_run [OF exec s(1)] inv assms(2,5)] s(2) by simp
  moreover have "sint (job_Attempt s) \<le> sint (job_MaxAttempts s)"
    using queue_inv_find [of jobRetentionDays "w_table (ws n)" u s] inv [of n] s(2)
    by (simp add: world_inv_def row_inv_def)
  moreover have "find_job (w_table (ws m)) u \<in> {Some s, None}" if "n \<le> m" for m
    using queue_run_terminal [OF execution_run [OF exec that] inv assms(2) s(2,3)] by auto
  ultimately show ?thesis using s by auto
qed

section \<open>The witness\<close>

text \<open>
  The worker of the story dies at every run: every 40 seconds it claims, or a sweep runs, and
  nothing is ever settled by anyone.
\<close>

definition tick :: "nat \<Rightarrow> time" where
  "tick n = 40000000 * int n"

definition doomed_step :: "nat \<Rightarrow> world \<Rightarrow> event \<times> world" where
  "doomed_step n w =
     (if n = 0 then (story_events ! 0, story_world row_pending 10)
      else if odd n then
        (case JobClaim_Exec ext0 (stmt_at (tick n)) story_claim (w_table w) of
           (res, t') \<Rightarrow> (EvClaim story_claim res, \<lparr> w_table = t', w_now = tick n, w_minted = w_minted w \<rparr>))
      else
        (case JobReap_Exec ext0 (stmt_at (tick n)) jobRetentionDays (w_table w) of
           (res, t') \<Rightarrow> (EvReap res, \<lparr> w_table = t', w_now = tick n, w_minted = w_minted w \<rparr>)))"

primrec doomed :: "nat \<Rightarrow> world" where
  "doomed 0 = empty_world 0"
| "doomed (Suc n) = snd (doomed_step n (doomed n))"

definition doomed_event :: "nat \<Rightarrow> event" where
  "doomed_event n = fst (doomed_step n (doomed n))"

lemma doomed_now: "w_now (doomed (Suc n)) = (if n = 0 then 10 else tick n)"
  by (simp add: doomed_step_def split: prod.split)

lemma doomed_clock: "0 < n \<Longrightarrow> clock_within (stmt_at (tick n)) (w_now (doomed n)) (tick n)"
  by (cases n) (auto simp del: doomed.simps simp: doomed_now tick_def intro: clock_stmt_at)

lemma doomed_serves: "odd n \<Longrightarrow> serves ext0 1 ''k'' (doomed n) (doomed_event n) (doomed (Suc n))"
  using odd_pos [of n] doomed_clock [of n]
    serves.intros [of "stmt_at (tick n)" 1 "doomed n" "tick n" ext0 story_claim "''k''"]
  by (simp add: doomed_event_def doomed_step_def split: prod.split)

lemma doomed_recovers: "even n \<Longrightarrow> 0 < n \<Longrightarrow> recovers ext0 1 (doomed n) (doomed_event n) (doomed (Suc n))"
  using doomed_clock [of n] recovers.intros [of "stmt_at (tick n)" 1 "doomed n" "tick n" ext0]
  by (simp add: doomed_event_def doomed_step_def split: prod.split)

lemma doomed_fair: "fair_execution ext0 1 ''k'' doomed doomed_event"
proof -
  have "queue_step ext0 (doomed n) (doomed_event n) (doomed (Suc n))" for n
  proof (cases "n = 0")
    case True
    then show ?thesis using story_steps(1) by (simp add: doomed_event_def doomed_step_def)
  next
    case False
    then show ?thesis
      using serves_step [OF doomed_serves] recovers_step [OF doomed_recovers, of n] by (cases "odd n") simp_all
  qed
  then have "execution ext0 doomed doomed_event" by (auto simp: execution_def)
  moreover have "\<exists>n. T < w_now (doomed n)" for T
    by (rule exI [of _ "Suc (Suc (nat T))"]) (simp del: doomed.simps add: doomed_now tick_def)
  moreover have "\<exists>m\<ge>n. serves ext0 1 ''k'' (doomed m) (doomed_event m) (doomed (Suc m))" for n
    by (rule exI [of _ "Suc (2 * n)"]) (simp del: doomed.simps add: doomed_serves)
  moreover have "\<exists>m\<ge>n. recovers ext0 1 (doomed m) (doomed_event m) (doomed (Suc m))" for n
    by (rule exI [of _ "2 * Suc n"]) (simp del: doomed.simps add: doomed_recovers)
  ultimately show ?thesis by (simp add: fair_execution_def)
qed

lemma every_job_settles_witness:
  "\<exists>n\<ge>1. \<exists>s. find_job (w_table (doomed n)) 1 = Some s \<and> sql_terminal (job_Status s)"
proof -
  have "find_job (w_table (doomed 1)) 1 = Some row_pending"
    by (simp add: doomed_step_def find_job_def)
  moreover have "job_Kind row_pending = ''k''" by (simp add: row_pending_def)
  ultimately show ?thesis
    using every_job_settles [OF _ ext0_json ext0_validator ext0_json_arg, of 1 row_pending doomed doomed_event 1]
      doomed_fair by auto
qed

end
