(* ===== verification/Spec2Isabelle.thy ===== *)
theory Spec2Isabelle
  imports RunSpec SharedSpec EnqueueSpec ClaimSpec SettleSpec RetryRace ReapSpec HandlerSpec WatchSpec
    ReaperSpec StatusOverlap BacklogSpec BootSpec ClientSpec ShutdownSpec SettleCalls ServedSpec Migrations ProgressSpec
begin

text \<open>
  A model of service-jobs: a durable job queue over one PostgreSQL table, served by gRPC. A
  producer enqueues a job under an owner and, if it likes, an idempotency key; workers claim due
  jobs under a lease and settle them; a reaper loop in every replica recovers the jobs of workers
  that went silent; the owner reads a job, watches it, or asks for the backlog.

  \<^bold>\<open>Theories and code\<close>

  \<^item> \<^emph>\<open>Prelude\<close>, \<^emph>\<open>GoErrors\<close>, \<^emph>\<open>External\<close>: the types, the lemmas on lists and words the rest
    shares, Go errors as values (\<open>errors.Is\<close>, \<open>errors.Join\<close> and wrapping), and the libraries that
    are not in the repository as one record of functions, \<^emph>\<open>ext\<close>: UUID parsing, JSON as the
    driver and \<open>jsonb\<close> treat it, the validator's rules, the zone of local time. What they are
    relied on for is stated in \<^emph>\<open>validator_documented\<close>, \<^emph>\<open>json_documented\<close> and
    \<^emph>\<open>uuid_documented\<close>; \<^emph>\<open>ext0\<close> is a concrete instance of all three.
  \<^item> \<^emph>\<open>GoText\<close>, \<^emph>\<open>GoTime\<close>, \<^emph>\<open>Sha256\<close>, \<^emph>\<open>Float64\<close>, \<^emph>\<open>GoDuration\<close>: the parts of Go's library the source
    computes with, written out: \<open>strings.TrimSpace\<close>, RFC 3339 formatting with the calendar,
    \<open>sha256.Sum256\<close>, rounding to \<open>float64\<close>, \<open>time.ParseDuration\<close>. \<^emph>\<open>DurationSpec\<close> proves what the last
    makes of a text written by its rules.
  \<^item> \<^emph>\<open>JobsTable\<close>, \<^emph>\<open>Statements\<close>: \<open>internal/dao/pg.job.go\<close> and the migration
    \<open>20260722233602_jobs_table.up.sql\<close>: the row, the enum, every CHECK and the unique index, and
    how one statement runs. A statement is atomic; what it meets (a handle in the context, an
    exchange that fails before or after it took effect, the readings of \<open>clock_timestamp()\<close>, rows
    that are locked, the scan order) is the record \<^emph>\<open>stmt\<close>. The interfaces \<^emph>\<open>table_op\<close> (an
    operation keeps the table well-formed and only lets rows evolve) and \<^emph>\<open>guarded_update\<close> are
    locales; every statement, repository and service is an interpretation.
  \<^item> \<^emph>\<open>DaoClaim\<close>, \<^emph>\<open>DaoEnqueue\<close>, \<^emph>\<open>DaoSettle\<close>, \<^emph>\<open>DaoRead\<close>, \<^emph>\<open>DaoReap\<close>: \<open>internal/dao\<close>, one statement
    (\<open>pg.*.sql\<close>) and one repository (\<open>pg.*.go\<close>) per operation, and the purge of
    \<open>builds/database.sql\<close>.
  \<^item> \<^emph>\<open>CoreJob\<close>, \<^emph>\<open>CoreQueue\<close>, \<^emph>\<open>CoreSettle\<close>: \<open>internal/core\<close>: validation, the services, and the
    transaction of a retryable failure. A service is the record of its dependencies, its \<open>New\<dots>\<close> the
    constructor and \<open>core_\<dots>_Exec\<close> its method, over any implementation of the interfaces it declares,
    any context and any state (the type \<^emph>\<open>exec\<close>); \<open>JobClaim_Exec\<close> and its like are the services over
    the repositories and the table. The settle service runs on a \<^emph>\<open>session\<close> of the database, so that its
    closure can be run in a transaction. That is READ COMMITTED, the default: the record \<^emph>\<open>txn\<close> says
    whether it begins and commits and what other sessions commit between its two statements.
    \<^emph>\<open>SettleCalls\<close> records what the service asks of arbitrary dependencies.
  \<^item> \<^emph>\<open>Proto\<close>, \<^emph>\<open>Handlers\<close>, \<^emph>\<open>Watch\<close>, \<^emph>\<open>StatusReport\<close>, \<^emph>\<open>StatusOverlap\<close>: \<open>internal/handlers\<close> with the messages and
    getters of \<open>protogen\<close>. A handler is the record of the service it was constructed with, as the Go
    handler is.
  \<^item> \<^emph>\<open>Backlog\<close>: the queue depth and the pending count, \<open>pg.jobQueueDepth\<close> and \<open>pg.jobCountPending\<close>
    with their services.
  \<^item> \<^emph>\<open>Config\<close>: \<open>internal/config\<close> and \<open>internal/config/env\<close>. \<^emph>\<open>WireForm\<close>: what \<open>proto3\<close> makes of each
    message: which ones are encoded (strings are UTF-8), and what they decode to (an empty \<open>bytes\<close> field
    reads as nil, an arm of a oneof that was set without a value as set and empty). \<^emph>\<open>Stubs\<close>: the client
    stubs, generated handlers and descriptors of \<open>protogen/*_grpc.pb.go\<close> and the client of
    \<open>pkg/go/client.go\<close>. What is relied on of the libraries is \<^emph>\<open>proto_documented\<close>, that every codec keeps
    to the form of its message, and \<^emph>\<open>grpc_documented\<close>; messages too large for their receiver are an
    outcome of their own.
  \<^item> \<^emph>\<open>Boot\<close>: \<open>cmd/grpc/main.go\<close>: the boot as a list of actions cut short by the first failure, the
    repositories, services and handlers it constructs (\<^emph>\<open>main_services\<close>, \<^emph>\<open>main_handlers\<close>), their
    registration over the state they share, the shutdown a signal starts, the failure of \<open>Serve\<close> and
    the deferred flush; \<^emph>\<open>cmd_main\<close> is the whole of it. \<^emph>\<open>Served\<close>: the
    interceptors around every call, and the process in time: calls of any method with any bytes,
    sweeps and purges, as a step relation. What is relied on of golib is \<^emph>\<open>golib_documented\<close>.
  \<^item> \<^emph>\<open>Migrations\<close>: \<open>cmd/migrations\<close> and \<open>internal/models/migrations\<close>, over golib's runner
    (\<^emph>\<open>runner_documented\<close>), with what a run leaves on a new, a migrated and a foreign database.
  \<^item> \<^emph>\<open>Reaper\<close>: \<open>internal/lib/reaper.go\<close>.
  \<^item> \<^emph>\<open>QueueSystem\<close>, \<^emph>\<open>QueueInv\<close>, \<^emph>\<open>QueueRuns\<close>, \<^emph>\<open>LifeCycle\<close>, \<^emph>\<open>Leases\<close>: the services composed as
    \<open>cmd/grpc/main.go\<close> wires them, as a step relation over one table and one database clock, the
    invariant of its records, the abstract life of a job and the simulation, and what a lease
    protects. \<^emph>\<open>SharedQueue\<close> adds what this leaves out: any number of retry transactions, open between
    their read and their write while every other operation goes on.
  \<^item> \<^emph>\<open>Scenario\<close>: one run of the whole queue at fixed instants, on which the witnesses rest.

  \<^bold>\<open>Properties\<close>

  \<^emph>\<open>RunSpec\<close>: what holds in every reachable world. \<^emph>\<open>Progress\<close>, \<^emph>\<open>ProgressSpec\<close>: along infinite runs
  that keep serving the queue, each waiting job gets its turn and each job is settled. \<^emph>\<open>SharedSpec\<close>: what is left of it when retry
  transactions interleave, and \<^emph>\<open>RetryRace\<close>: the interleaving that breaks the cap. \<^emph>\<open>ClaimSpec\<close>,
  \<^emph>\<open>EnqueueSpec\<close>, \<^emph>\<open>SettleSpec\<close>, \<^emph>\<open>ReapSpec\<close>: each service on every branch, errors included. Claims and
  sweeps that overlap, each on the snapshot it began with, take turns (\<^emph>\<open>claim_selected\<close>, \<^emph>\<open>reap_selected\<close>).
  \<^emph>\<open>ServedSpec\<close>: the served process is a refinement of the queue, so that its guarantees hold for the
  bytes peers exchange with it, and what a caller can be told when a call or a stream fails. A step of
  \<^emph>\<open>QueueSystem\<close> or of \<^emph>\<open>Served\<close> runs the transaction of a retry alone; each property that needs
  this says so, and \<^emph>\<open>SharedSpec\<close> does without. \<^emph>\<open>BacklogSpec\<close>: the reported depth is the work a claim would find. \<^emph>\<open>HandlerSpec\<close>, \<^emph>\<open>WatchSpec\<close>,
  \<^emph>\<open>StatusOverlap\<close>: what a caller sees on the wire; a watch polls the queue of \<^emph>\<open>SharedQueue\<close>, with any
  number of its steps between two polls. \<^emph>\<open>ClientSpec\<close>: a method of the client is the
  service behind it, and no call breaks the table. \<^emph>\<open>ReaperSpec\<close>, \<^emph>\<open>BootSpec\<close>, \<^emph>\<open>ShutdownSpec\<close>: the
  loop, the cadence it runs at, and when the process ends.

  \<^bold>\<open>Representation\<close>

  A nil pointer and a NULL are \<^const>\<open>None\<close>. A table is a list of rows, its order without meaning. A
  \<open>time.Time\<close> and a \<open>timestamptz\<close> are microseconds since the epoch; an interval of days is 86400
  seconds each, which is so for a session in UTC. \<open>int16\<close>, \<open>int32\<close> and \<open>int64\<close> are words of their
  width, UUIDs words of 128 bits, Go's \<open>int\<close> is \<^typ>\<open>int\<close> (every value it takes here comes from an
  \<open>int32\<close>, a constant or a length), except for the pending count, which is scanned from a \<open>bigint\<close>
  and has 64 bits. Strings are lists of bytes without NUL, which PostgreSQL does
  not store. Spans, attributes and log context of \<open>otel\<close> are left out: \<open>otel.ReportError\<close> returns
  its error and \<open>otel.ReportSuccess\<close> its value. Loops that wait for the outside (the watch, the
  reaper) recurse over the list of what each turn meets, so no fuel is needed; that the list is
  used up is an outcome of its own.

  \<^bold>\<open>Not modelled\<close>

  The mocks; the reflection tables of \<open>protogen\<close>; the echo and reflection services the server
  registers from libraries; tracing (\<open>otelgrpc\<close>, spans and attributes), which no result depends on;
  \<open>Close\<close> of the client, which only releases its connection. The indexes of the table that only
  serve speed, and its autovacuum settings, have no counterpart. What is left of the Go sources
  is declarations of packages and imports, comments, and the embedded texts of the queries.
\<close>

end
